(* ===== verification/Prelude.thy ===== *)
theory Prelude
  imports Main "HOL-Library.Word" "HOL-Library.Signed_Division"
begin

section \<open>Shared types, fact collections and generic lemmas\<close>

text \<open>
  What every component of the development uses: the names of the machine integer and string
  types of the Go code, the collections of definitions that component proofs unfold, and a few
  generic lemmas on lists, maps and words. A Go string is a sequence of bytes, so a HOL
  \<open>string\<close> (a list of 8-bit characters) is the model of it throughout.
\<close>

type_synonym u32 = "32 word"
type_synonym u64 = "64 word"
type_synonym byte = "8 word"
type_synonym gostr = string

named_theorems go_defs \<open>definitions of the modelled standard library functions\<close>
named_theorems resp_defs \<open>definitions of the response writer operations\<close>
named_theorems store_laws \<open>what a lookup returns after each map operation\<close>

subsection \<open>Lists\<close>

lemma take_length_eq_append:
  "take (length p) s = p \<longleftrightarrow> (\<exists>r. s = p @ r)"
  by (metis append_eq_conv_conj append_take_drop_id)

lemma list_all2_nthI:
  assumes "length xs = length ys"
    and "\<And>i. i < length xs \<Longrightarrow> P (xs ! i) (ys ! i)"
  shows "list_all2 P xs ys"
  using assms by (simp add: list_all2_conv_all_nth)

lemma distinct_map_fst_filter:
  "distinct (map fst xs) \<Longrightarrow> distinct (map fst (filter P xs))"
  by (induction xs) auto

lemma map_of_map_Some_mem:
  "map_of (map (\<lambda>x. (f x, x)) xs) k = Some y \<Longrightarrow> y \<in> set xs \<and> f y = k"
  by (induction xs) (auto split: if_splits)

subsection \<open>Finite maps\<close>

lemma card_dom_update_new:
  "finite (dom m) \<Longrightarrow> m k = None \<Longrightarrow> card (dom (m(k \<mapsto> v))) = Suc (card (dom m))"
  by (simp add: domIff)

lemma card_dom_delete:
  "finite (dom m) \<Longrightarrow> m k = Some v \<Longrightarrow> card (dom (m(k := None))) = card (dom m) - 1"
  by (simp add: domI dom_fun_upd)

lemma card_Collect_insert:
  assumes "finite {x. P x}" and "\<not> P a"
  shows "card {x. x = a \<or> P x} = Suc (card {x. P x})"
proof -
  have "{x. x = a \<or> P x} = insert a {x. P x}" by auto
  with assms show ?thesis by simp
qed

lemma card_Collect_remove:
  assumes "finite {x. P x}" and "P a"
  shows "Suc (card {x. x \<noteq> a \<and> P x}) = card {x. P x}"
proof -
  have eq: "{x. x \<noteq> a \<and> P x} = {x. P x} - {a}" by auto
  have "a \<in> {x. P x}" using assms(2) by simp
  with assms(1) show ?thesis
    unfolding eq by (rule card.remove [symmetric])
qed

subsection \<open>Work of goroutines\<close>

lemma thread_set_upd:
  "{u. P ((f(t := th)) u)} = (if P th then insert t {u. P (f u)} else {u. P (f u)} - {t})"
  by auto

text \<open>Many goroutines at positions \<open>f\<close>, each with its rank: when one gets nearer to its end, so do all.\<close>

lemma work_decreases:
  fixes rank :: "'a \<Rightarrow> nat"
  assumes "finite {u. f u \<noteq> idle}" and "rank th < rank (f t)" and "rank idle = 0"
  shows "(\<Sum>u | (f(t := th)) u \<noteq> idle. rank ((f(t := th)) u)) < (\<Sum>u | f u \<noteq> idle. rank (f u))"
proof -
  let ?g = "\<lambda>u. rank ((f(t := th)) u)"
  have mem: "t \<in> {u. f u \<noteq> idle}" using assms(2,3) by auto
  have "(\<Sum>u | (f(t := th)) u \<noteq> idle. ?g u) = (\<Sum>u | f u \<noteq> idle. ?g u)"
    by (rule sum.mono_neutral_left) (use assms mem in \<open>auto split: if_splits\<close>)
  also have "\<dots> < (\<Sum>u | f u \<noteq> idle. rank (f u))"
    by (rule sum_strict_mono_ex1) (use assms mem in auto)
  finally show ?thesis .
qed

subsection \<open>Positional notation\<close>

lemma radix_eq:
  fixes x x' q q' k :: nat
  assumes "x * k + q = x' * k + q'" and "q < k" and "q' < k"
  shows "x = x' \<and> q = q'"
proof -
  have "(x * k + q) div k = x" "(x * k + q) mod k = q" using assms(2) by simp_all
  moreover have "(x' * k + q') div k = x'" "(x' * k + q') mod k = q'" using assms(3) by simp_all
  ultimately show ?thesis using assms(1) by metis
qed

lemma int_div_lt:
  fixes n c l :: int
  assumes "0 < c" and "n < c * l"
  shows "n div c < l"
proof -
  have "n div c * c + n mod c = n" by (rule div_mult_mod_eq)
  moreover have "0 \<le> n mod c" using assms(1) by simp
  ultimately have "n div c * c < l * c" using assms(2) mult.commute [of c l] by linarith
  then show ?thesis using assms(1) by (simp add: mult_less_cancel_right)
qed

subsection \<open>Words\<close>

lemma unat_u32_lt: "unat (x :: u32) < 4294967296"
  using unsigned_less [of x] by simp

lemma u32_of_nat_unat: "of_nat (unat (x :: u32)) = x"
  by simp

end
