(* ===== verification/Gostd.thy ===== *)
theory Gostd
  imports Prelude
begin

section \<open>The Go standard library the program relies on: strings and numbers\<close>

text \<open>
  The functions of \<open>strings\<close>, \<open>strconv\<close> and \<open>fmt\<close> that the program calls, on byte strings:
  prefixes, splitting, joining, trimming, ASCII case folding, decimal and hexadecimal printing,
  and \<open>strconv.ParseUint(s, 16, 32)\<close>. Each is executable. What depends on the Unicode tables
  (\<open>strings.ToLower\<close> on a string with a byte above 127) or on the less usual directives of
  \<open>fmt.Sprintf\<close> is a parameter.
\<close>

subsection \<open>Prefixes, suffixes, splitting and joining\<close>

definition has_prefix :: "gostr \<Rightarrow> gostr \<Rightarrow> bool" where
  "has_prefix s p \<longleftrightarrow> take (length p) s = p"

definition has_suffix :: "gostr \<Rightarrow> gostr \<Rightarrow> bool" where
  "has_suffix s p \<longleftrightarrow> has_prefix (rev s) (rev p)"

definition trim_prefix :: "gostr \<Rightarrow> gostr \<Rightarrow> gostr" where
  "trim_prefix s p = (if has_prefix s p then drop (length p) s else s)"

lemma has_prefix_iff: "has_prefix s p \<longleftrightarrow> (\<exists>r. s = p @ r)"
  by (simp add: has_prefix_def take_length_eq_append)

lemma has_prefix_append [simp]: "has_prefix (p @ r) p"
  by (simp add: has_prefix_def)

lemma has_prefix_Nil [simp]: "has_prefix s []"
  by (simp add: has_prefix_def)

lemma has_prefix_Cons [simp]:
  "has_prefix (c # s) (d # p) \<longleftrightarrow> c = d \<and> has_prefix s p"
  by (auto simp: has_prefix_def)

lemma has_prefix_Nil_Cons [simp]: "\<not> has_prefix [] (d # p)"
  by (simp add: has_prefix_def)

lemma has_suffix_iff: "has_suffix s p \<longleftrightarrow> (\<exists>r. s = r @ p)"
proof -
  have "(\<exists>r. rev s = rev p @ r) \<longleftrightarrow> (\<exists>r. s = r @ p)"
    by (metis rev_append rev_rev_ident)
  then show ?thesis by (simp add: has_suffix_def has_prefix_iff)
qed

text \<open>\<open>strings.Split(s, sep)\<close> for a separator of one byte, and \<open>strings.SplitN(s, sep, 2)\<close>.\<close>

fun split_chr :: "char \<Rightarrow> gostr \<Rightarrow> gostr list" where
  "split_chr c [] = [[]]"
| "split_chr c (x # xs) =
     (if x = c then [] # split_chr c xs
      else (case split_chr c xs of [] \<Rightarrow> [[x]] | y # ys \<Rightarrow> (x # y) # ys))"

fun split2_chr :: "char \<Rightarrow> gostr \<Rightarrow> gostr list" where
  "split2_chr c [] = [[]]"
| "split2_chr c (x # xs) =
     (if x = c then [[], xs]
      else (case split2_chr c xs of [] \<Rightarrow> [[x]] | y # ys \<Rightarrow> (x # y) # ys))"

fun join_with :: "gostr \<Rightarrow> gostr list \<Rightarrow> gostr" where
  "join_with sep [] = []"
| "join_with sep [s] = s"
| "join_with sep (s # t # ss) = s @ sep @ join_with sep (t # ss)"

lemma split_chr_not_Nil [simp]: "split_chr c s \<noteq> []"
  by (induction s) (auto split: list.splits)

lemma split_chr_no_sep: "c \<notin> set s \<Longrightarrow> split_chr c s = [s]"
  by (induction s) auto

lemma split_chr_append_sep:
  "c \<notin> set s \<Longrightarrow> split_chr c (s @ c # t) = s # split_chr c t"
  by (induction s) auto

lemma split_chr_join:
  "ss \<noteq> [] \<Longrightarrow> (\<And>s. s \<in> set ss \<Longrightarrow> c \<notin> set s) \<Longrightarrow> split_chr c (join_with [c] ss) = ss"
proof (induction "[c]" ss rule: join_with.induct)
  case 1
  then show ?case by simp
next
  case (2 s)
  then show ?case by (simp add: split_chr_no_sep)
next
  case (3 s t ss)
  then show ?case by (simp add: split_chr_append_sep)
qed

lemma split_chr_pieces: "s \<in> set (split_chr c t) \<Longrightarrow> c \<notin> set s"
  by (induction t arbitrary: s) (auto split: if_splits list.splits)

lemma split2_chr_no_sep: "c \<notin> set s \<Longrightarrow> split2_chr c s = [s]"
  by (induction s) auto

lemma split2_chr_append_sep:
  "c \<notin> set s \<Longrightarrow> split2_chr c (s @ c # t) = [s, t]"
  by (induction s) auto

lemma split2_chr_cases:
  "split2_chr c s = [s] \<and> c \<notin> set s \<or>
   (\<exists>a b. split2_chr c s = [a, b] \<and> s = a @ c # b \<and> c \<notin> set a)"
proof (induction s)
  case Nil
  then show ?case by simp
next
  case (Cons x xs)
  show ?case
  proof (cases "x = c")
    case True
    then have "split2_chr c (x # xs) = [[], xs]" and "x # xs = [] @ c # xs" by simp_all
    then show ?thesis by (metis empty_iff empty_set)
  next
    case False
    from Cons.IH show ?thesis
    proof
      assume "split2_chr c xs = [xs] \<and> c \<notin> set xs"
      with False show ?thesis by simp
    next
      assume "\<exists>a b. split2_chr c xs = [a, b] \<and> xs = a @ c # b \<and> c \<notin> set a"
      then obtain a b where "split2_chr c xs = [a, b]" "xs = a @ c # b" "c \<notin> set a" by blast
      with False have "split2_chr c (x # xs) = [x # a, b]" "x # xs = (x # a) @ c # b"
        "c \<notin> set (x # a)" by auto
      then show ?thesis by blast
    qed
  qed
qed

subsection \<open>Characters: case folding and white space\<close>

definition ascii_lower :: "char \<Rightarrow> char" where
  "ascii_lower c = (let n = of_char c :: nat in
     if 65 \<le> n \<and> n \<le> 90 then char_of (n + 32) else c)"

definition is_ascii :: "gostr \<Rightarrow> bool" where
  "is_ascii s = list_all (\<lambda>c. (of_char c :: nat) < 128) s"

text \<open>
  \<open>strings.ToLower\<close>: bytewise on an ASCII string; \<open>ul\<close> is its Unicode path, for a string that
  holds a byte above 127.
\<close>

definition to_lower :: "(gostr \<Rightarrow> gostr) \<Rightarrow> gostr \<Rightarrow> gostr" where
  "to_lower ul s = (if is_ascii s then map ascii_lower s else ul s)"

lemma ascii_lower_of_char:
  "of_char (ascii_lower c) = (let n = of_char c :: nat in if 65 \<le> n \<and> n \<le> 90 then n + 32 else n)"
  by (simp add: ascii_lower_def Let_def of_char_of)

lemma ascii_lower_idem [simp]: "ascii_lower (ascii_lower c) = ascii_lower c"
  using ascii_lower_of_char [of c]
  by (auto simp: ascii_lower_def [of "ascii_lower c"] Let_def split: if_splits)

lemma ascii_lower_ascii: "(of_char c :: nat) < 128 \<Longrightarrow> (of_char (ascii_lower c) :: nat) < 128"
  by (simp add: ascii_lower_of_char Let_def)

lemma to_lower_idem: "is_ascii s \<Longrightarrow> to_lower ul (to_lower ul s) = to_lower ul s"
  by (auto simp: to_lower_def is_ascii_def list_all_iff ascii_lower_ascii)

text \<open>
  The UTF-8 encodings of the code points of \<open>unicode.IsSpace\<close>. \<open>strings.TrimSpace\<close> removes them
  from both ends; UTF-8 is self-synchronising, so a suffix that equals one of these encodings is
  the last rune of the string.
\<close>

definition bytes_of :: "nat list \<Rightarrow> gostr" where
  "bytes_of ns = map char_of ns"

definition space_runes :: "gostr list" where
  "space_runes = map bytes_of
     ([[9], [10], [11], [12], [13], [32], [194, 133], [194, 160], [225, 154, 128]]
      @ map (\<lambda>n. [226, 128, n]) [128, 129, 130, 131, 132, 133, 134, 135, 136, 137, 138, 168, 169, 175]
      @ [[226, 129, 159], [227, 128, 128]])"

definition starts_with_space :: "gostr \<Rightarrow> bool" where
  "starts_with_space s = list_ex (has_prefix s) space_runes"

lemma space_runes_not_Nil: "w \<in> set space_runes \<Longrightarrow> w \<noteq> []"
  by (auto simp: space_runes_def bytes_of_def)

function trim_left :: "gostr list \<Rightarrow> gostr \<Rightarrow> gostr" where
  "trim_left ws s = (case find (\<lambda>w. w \<noteq> [] \<and> has_prefix s w) ws of
     None \<Rightarrow> s | Some w \<Rightarrow> trim_left ws (drop (length w) s))"
  by pat_completeness auto
termination
proof (relation "measure (\<lambda>(ws, s). length s)", goal_cases)
  case 1
  show ?case by simp
next
  case (2 ws s w)
  then have "w \<noteq> []" "has_prefix s w" by (auto simp: find_Some_iff)
  then show ?case by (auto simp: has_prefix_iff)
qed

declare trim_left.simps [simp del]

definition trim_space :: "gostr \<Rightarrow> gostr" where
  "trim_space s =
     (let t = trim_left space_runes s in rev (trim_left (map rev space_runes) (rev t)))"

lemma trim_left_suffix: "\<exists>p. s = p @ trim_left ws s"
proof (induction ws s rule: trim_left.induct)
  case (1 ws s)
  show ?case
  proof (cases "find (\<lambda>w. w \<noteq> [] \<and> has_prefix s w) ws")
    case None
    then show ?thesis by (simp add: trim_left.simps [of ws s])
  next
    case (Some w)
    then have "has_prefix s w" by (auto simp: find_Some_iff)
    then have "s = w @ drop (length w) s" by (auto simp: has_prefix_iff)
    moreover obtain p where "drop (length w) s = p @ trim_left ws (drop (length w) s)"
      using "1" [OF Some] by blast
    ultimately have "s = (w @ p) @ trim_left ws (drop (length w) s)" by simp
    moreover have "trim_left ws s = trim_left ws (drop (length w) s)"
      using Some by (simp add: trim_left.simps [of ws s])
    ultimately show ?thesis by metis
  qed
qed

lemma trim_left_no_space:
  assumes "\<And>w. w \<in> set ws \<Longrightarrow> w \<noteq> [] \<Longrightarrow> \<not> has_prefix s w"
  shows "trim_left ws s = s"
proof -
  have "find (\<lambda>w. w \<noteq> [] \<and> has_prefix s w) ws = None"
    using assms by (auto simp: find_None_iff)
  then show ?thesis by (simp add: trim_left.simps [of ws s])
qed

subsection \<open>Printing and parsing numbers\<close>

definition digit_chars :: gostr where
  "digit_chars = ''0123456789abcdef''"

definition digit_char :: "nat \<Rightarrow> char" where
  "digit_char d = digit_chars ! d"

text \<open>The decimal digits of a number (\<open>strconv.FormatInt(n, 10)\<close>, and \<open>%d\<close> of \<open>fmt\<close>).\<close>

fun nat_dec :: "nat \<Rightarrow> gostr" where
  "nat_dec n = (if n < 10 then [digit_char n] else nat_dec (n div 10) @ [digit_char (n mod 10)])"

definition int_dec :: "int \<Rightarrow> gostr" where
  "int_dec i = (if i < 0 then ''-'' @ nat_dec (nat (- i)) else nat_dec (nat i))"

text \<open>\<open>%x\<close>, and \<open>%08x\<close>, which pads with zeros on the left to eight digits.\<close>

fun nat_hex :: "nat \<Rightarrow> gostr" where
  "nat_hex n = (if n < 16 then [digit_char n] else nat_hex (n div 16) @ [digit_char (n mod 16)])"

declare nat_dec.simps [simp del] nat_hex.simps [simp del]

definition pad_left :: "nat \<Rightarrow> char \<Rightarrow> gostr \<Rightarrow> gostr" where
  "pad_left w c s = replicate (w - length s) c @ s"

definition hex8 :: "u32 \<Rightarrow> gostr" where
  "hex8 w = pad_left 8 CHR ''0'' (nat_hex (unat w))"

text \<open>The value of a hexadecimal digit as \<open>strconv.ParseUint\<close> reads it, and its loop: the first
  offending position decides between a syntax and a range error.\<close>

definition hex_val :: "char \<Rightarrow> nat option" where
  "hex_val c = (let n = of_char c :: nat in
     if 48 \<le> n \<and> n \<le> 57 then Some (n - 48)
     else if 97 \<le> n \<and> n \<le> 102 then Some (n - 87)
     else if 65 \<le> n \<and> n \<le> 70 then Some (n - 55)
     else None)"

datatype num_error = ErrSyntax | ErrRange

fun parse_hex_loop :: "nat \<Rightarrow> nat \<Rightarrow> gostr \<Rightarrow> num_error + nat" where
  "parse_hex_loop maxv acc [] = Inr acc"
| "parse_hex_loop maxv acc (c # cs) =
     (case hex_val c of
        None \<Rightarrow> Inl ErrSyntax
      | Some d \<Rightarrow>
          (if maxv < acc * 16 + d then Inl ErrRange else parse_hex_loop maxv (acc * 16 + d) cs))"

definition parse_uint_hex32 :: "gostr \<Rightarrow> num_error + u32" where
  "parse_uint_hex32 s =
     (if s = [] then Inl ErrSyntax
      else map_sum id of_nat (parse_hex_loop 4294967295 0 s))"

fun hex_num :: "nat \<Rightarrow> gostr \<Rightarrow> nat option" where
  "hex_num acc [] = Some acc"
| "hex_num acc (c # cs) =
     (case hex_val c of None \<Rightarrow> None | Some d \<Rightarrow> hex_num (acc * 16 + d) cs)"

lemma hex_val_digit_char: "d < 16 \<Longrightarrow> hex_val (digit_char d) = Some d"
proof -
  have "\<forall>d \<in> set [0..<16]. hex_val (digit_char d) = Some d" by code_simp
  moreover assume "d < 16"
  ultimately show ?thesis by simp
qed

lemma hex_num_append:
  "hex_num acc (s @ t) = (case hex_num acc s of None \<Rightarrow> None | Some n \<Rightarrow> hex_num n t)"
  by (induction s arbitrary: acc) (auto split: option.splits)

lemma hex_num_nat_hex: "hex_num 0 (nat_hex n) = Some n"
proof (induction n rule: nat_hex.induct)
  case (1 n)
  show ?case
  proof (cases "n < 16")
    case True
    then show ?thesis by (simp add: nat_hex.simps [of n] hex_val_digit_char)
  next
    case False
    with "1" show ?thesis
      by (simp add: nat_hex.simps [of n] hex_num_append hex_val_digit_char)
  qed
qed

lemma hex_num_zeros: "hex_num 0 (replicate k CHR ''0'' @ s) = hex_num 0 s"
  by (induction k) (simp_all add: hex_val_def)

lemma length_nat_hex: "n < 16 ^ Suc k \<Longrightarrow> length (nat_hex n) \<le> Suc k"
proof (induction k arbitrary: n)
  case 0
  then show ?case by (simp add: nat_hex.simps [of n])
next
  case (Suc k)
  show ?case
  proof (cases "n < 16")
    case True
    then show ?thesis by (simp add: nat_hex.simps [of n])
  next
    case False
    from Suc.prems have "n div 16 < 16 ^ Suc k" by (simp add: less_mult_imp_div_less)
    then have "length (nat_hex (n div 16)) \<le> Suc k" by (rule Suc.IH)
    with False show ?thesis by (simp add: nat_hex.simps [of n])
  qed
qed

lemma length_hex8 [simp]: "length (hex8 w) = 8"
proof -
  have "unat w < 16 ^ Suc 7" using unat_u32_lt [of w] by simp
  then have "length (nat_hex (unat w)) \<le> Suc 7" by (rule length_nat_hex)
  then show ?thesis by (simp add: hex8_def pad_left_def)
qed

lemma hex_num_hex8: "hex_num 0 (hex8 w) = Some (unat w)"
  by (simp add: hex8_def pad_left_def hex_num_zeros hex_num_nat_hex)

lemma hex_num_ge: "hex_num acc s = Some n \<Longrightarrow> acc \<le> n"
proof (induction s arbitrary: acc)
  case Nil
  then show ?case by simp
next
  case (Cons c s)
  from Cons.prems obtain d where "hex_num (acc * 16 + d) s = Some n"
    by (auto split: option.splits)
  then have "acc * 16 + d \<le> n" by (rule Cons.IH)
  then show ?case by simp
qed

text \<open>The loop agrees with the unbounded reading of the digits: it accepts exactly the digit
  strings whose value fits.\<close>

lemma parse_hex_loop_Inr_iff:
  "acc \<le> maxv \<Longrightarrow> parse_hex_loop maxv acc s = Inr n \<longleftrightarrow> hex_num acc s = Some n \<and> n \<le> maxv"
  by (induction s arbitrary: acc) (auto split: option.splits dest: hex_num_ge)

lemma parse_uint_hex32_Inr_iff:
  "parse_uint_hex32 s = Inr w \<longleftrightarrow> s \<noteq> [] \<and> hex_num 0 s = Some (unat w)"
proof (cases "s = []")
  case True
  then show ?thesis by (simp add: parse_uint_hex32_def)
next
  case False
  show ?thesis
  proof
    assume "parse_uint_hex32 s = Inr w"
    then obtain n where n: "parse_hex_loop 4294967295 0 s = Inr n" "w = of_nat n"
      using False by (cases "parse_hex_loop 4294967295 0 s") (auto simp: parse_uint_hex32_def)
    then have "hex_num 0 s = Some n" "n \<le> 4294967295"
      using parse_hex_loop_Inr_iff [of 0 4294967295 s n] by simp_all
    moreover from this n have "unat w = n" by (simp add: unsigned_of_nat take_bit_nat_eq_self_iff)
    ultimately show "s \<noteq> [] \<and> hex_num 0 s = Some (unat w)" using False by simp
  next
    assume a: "s \<noteq> [] \<and> hex_num 0 s = Some (unat w)"
    moreover have "unat w \<le> 4294967295" using unat_u32_lt [of w] by simp
    ultimately have "parse_hex_loop 4294967295 0 s = Inr (unat w)"
      using parse_hex_loop_Inr_iff [of 0 4294967295 s "unat w"] by simp
    with a show "parse_uint_hex32 s = Inr w" by (simp add: parse_uint_hex32_def)
  qed
qed

lemma hex8_inject [simp]: "hex8 v = hex8 w \<longleftrightarrow> v = w"
proof
  assume "hex8 v = hex8 w"
  then have "hex_num 0 (hex8 v) = hex_num 0 (hex8 w)" by simp
  then show "v = w" by (simp add: hex_num_hex8 word_unat_eq_iff)
qed simp

subsection \<open>Decimal printing is injective\<close>

fun dec_num :: "nat \<Rightarrow> gostr \<Rightarrow> nat option" where
  "dec_num acc [] = Some acc"
| "dec_num acc (c # cs) =
     (case hex_val c of None \<Rightarrow> None
      | Some d \<Rightarrow> if d < 10 then dec_num (acc * 10 + d) cs else None)"

lemma dec_num_append:
  "dec_num acc (s @ t) = (case dec_num acc s of None \<Rightarrow> None | Some n \<Rightarrow> dec_num n t)"
  by (induction s arbitrary: acc) (auto split: option.splits)

lemma dec_num_nat_dec: "dec_num 0 (nat_dec n) = Some n"
proof (induction n rule: nat_dec.induct)
  case (1 n)
  show ?case
  proof (cases "n < 10")
    case True
    then show ?thesis by (simp add: nat_dec.simps [of n] hex_val_digit_char)
  next
    case False
    with "1" show ?thesis
      by (simp add: nat_dec.simps [of n] dec_num_append hex_val_digit_char)
  qed
qed

lemma nat_dec_inject [simp]: "nat_dec m = nat_dec n \<longleftrightarrow> m = n"
proof
  assume "nat_dec m = nat_dec n"
  then have "dec_num 0 (nat_dec m) = dec_num 0 (nat_dec n)" by simp
  then show "m = n" by (simp only: dec_num_nat_dec option.inject)
qed simp

lemma nat_dec_digits: "c \<in> set (nat_dec n) \<Longrightarrow> c \<in> set digit_chars"
proof (induction n rule: nat_dec.induct)
  case (1 n)
  have "digit_char d \<in> set digit_chars" if "d < 10" for d
    unfolding digit_char_def by (rule nth_mem) (use that in \<open>simp add: digit_chars_def\<close>)
  with "1" show ?case
    by (auto simp: nat_dec.simps [of n] split: if_splits)
qed

subsection \<open>fmt.Sprintf with string arguments\<close>

text \<open>
  \<open>Sprintf(format, args...)\<close> where every argument prints as a string: plain bytes are copied,
  \<open>%%\<close> is a percent sign, \<open>%s\<close> takes the next argument, a directive with no argument left is
  reported as \<open>%!v(MISSING)\<close>, a final \<open>%\<close> as \<open>%!(NOVERB)\<close>, and arguments left over as
  \<open>%!(EXTRA string=a, ...)\<close>. \<open>fx\<close> stands for the rest of \<open>fmt\<close>: what is printed from a directive on
  that has flags, a width, a precision, an argument index, a byte above 127, or a verb other than
  \<open>s\<close> with an argument.
\<close>

definition plain_verb :: "char \<Rightarrow> bool" where
  "plain_verb c = (let n = of_char c :: nat in
     n < 128 \<and> c \<notin> set ''+-# 0123456789.*['')"

definition extra_args :: "gostr list \<Rightarrow> gostr" where
  "extra_args args = (if args = [] then []
     else ''%!(EXTRA '' @ join_with '', '' (map (\<lambda>a. ''string='' @ a) args) @ '')'')"

fun sprintf :: "(gostr \<Rightarrow> gostr list \<Rightarrow> gostr) \<Rightarrow> gostr \<Rightarrow> gostr list \<Rightarrow> gostr" where
  "sprintf fx [] args = extra_args args"
| "sprintf fx [c] args = (if c = CHR ''%'' then ''%!(NOVERB)'' @ extra_args args else c # extra_args args)"
| "sprintf fx (c # v # fs) args =
     (if c \<noteq> CHR ''%'' then c # sprintf fx (v # fs) args
      else if v = CHR ''%'' then v # sprintf fx fs args
      else if \<not> plain_verb v then fx (c # v # fs) args
      else (case args of
          [] \<Rightarrow> ''%!'' @ [v] @ ''(MISSING)'' @ sprintf fx fs []
        | a # rest \<Rightarrow> if v = CHR ''s'' then a @ sprintf fx fs rest
                       else fx (c # v # fs) args))"

lemma sprintf_literal: "CHR ''%'' \<notin> set f \<Longrightarrow> sprintf fx f [] = f"
proof (induction f)
  case Nil
  then show ?case by (simp add: extra_args_def)
next
  case (Cons c f)
  then show ?case by (cases f) (auto simp: extra_args_def)
qed

lemma plain_verb_s [simp]: "plain_verb CHR ''s''"
  by (simp add: plain_verb_def)

lemma sprintf_percent_s: "CHR ''%'' \<notin> set f \<Longrightarrow> sprintf fx (f @ ''%s'') [a] = f @ a"
proof (induction f)
  case Nil
  then show ?case by (simp add: extra_args_def)
next
  case (Cons c f)
  then show ?case by (cases f) auto
qed

subsection \<open>time.Duration printing\<close>

text \<open>\<open>Duration.String\<close>: nanoseconds printed with the largest unit below a second, or as hours,
  minutes and seconds; the fraction has no trailing zeros. The micro sign is two bytes.\<close>

fun strip_zeros_rev :: "gostr \<Rightarrow> gostr" where
  "strip_zeros_rev [] = []"
| "strip_zeros_rev (c # cs) = (if c = CHR ''0'' then strip_zeros_rev cs else c # cs)"

definition frac_str :: "nat \<Rightarrow> nat \<Rightarrow> gostr" where
  "frac_str v prec =
     (let f = rev (strip_zeros_rev (rev (pad_left prec CHR ''0'' (nat_dec (v mod 10 ^ prec))))) in
      if f = [] then [] else ''.'' @ f)"

definition micro_sign :: gostr where
  "micro_sign = [CHR 0xC2, CHR 0xB5]"

definition dur_abs :: "nat \<Rightarrow> gostr" where
  "dur_abs u =
     (if u = 0 then ''0s''
      else if u < 1000 then nat_dec u @ ''ns''
      else if u < 1000000 then nat_dec (u div 1000) @ frac_str u 3 @ micro_sign @ ''s''
      else if u < 1000000000 then nat_dec (u div 1000000) @ frac_str u 6 @ ''ms''
      else
        (let secs = u div 1000000000;
             s_part = nat_dec (secs mod 60) @ frac_str u 9 @ ''s'' in
         if secs div 60 = 0 then s_part
         else
           (let mins = secs div 60; m_part = nat_dec (mins mod 60) @ ''m'' @ s_part in
            if mins div 60 = 0 then m_part
            else nat_dec (mins div 60) @ ''h'' @ m_part)))"

definition dur_str :: "int \<Rightarrow> gostr" where
  "dur_str d = (if d < 0 then ''-'' @ dur_abs (nat (- d)) else dur_abs (nat d))"

end
