(* ===== verification/Syncmap.thy ===== *)
theory Syncmap
  imports Gostd
begin

section \<open>internal/syncmap: the locked map\<close>

text \<open>
  \<open>internal/syncmap/syncmap.go\<close>. The Go value holds a map that is nil until the first store. Every
  exported method takes the lock for its whole body, so a method is one atomic step on the map; the
  unexported ones are its bodies. The iteration order of a Go map is unspecified: \<open>Range\<close> takes the
  order as an argument. The laws a client of the map relies on are the locale \<open>kv_map\<close>.
\<close>

record ('k, 'v) syncmap =
  sm_m :: "('k \<rightharpoonup> 'v) option"

definition sm_zero :: "('k, 'v) syncmap" where
  "sm_zero = \<lparr>sm_m = None\<rparr>"

subsection \<open>The bodies\<close>

definition sm_load :: "('k, 'v) syncmap \<Rightarrow> 'k \<Rightarrow> 'v option" where
  "sm_load s key = (case sm_m s of None \<Rightarrow> None | Some m \<Rightarrow> m key)"

definition sm_store :: "('k, 'v) syncmap \<Rightarrow> 'k \<Rightarrow> 'v \<Rightarrow> ('k, 'v) syncmap" where
  "sm_store s key v =
     (let m = (case sm_m s of None \<Rightarrow> Map.empty | Some m \<Rightarrow> m) in s\<lparr>sm_m := Some (m(key \<mapsto> v))\<rparr>)"

definition sm_delete :: "('k, 'v) syncmap \<Rightarrow> 'k \<Rightarrow> ('k, 'v) syncmap" where
  "sm_delete s key =
     (case sm_m s of None \<Rightarrow> s | Some m \<Rightarrow> s\<lparr>sm_m := Some (m(key := None))\<rparr>)"

subsection \<open>The exported methods\<close>

definition Load :: "('k, 'v) syncmap \<Rightarrow> 'k \<Rightarrow> 'v option" where
  "Load s key = sm_load s key"

definition Store :: "('k, 'v) syncmap \<Rightarrow> 'k \<Rightarrow> 'v \<Rightarrow> ('k, 'v) syncmap" where
  "Store s key v = sm_store s key v"

definition Delete :: "('k, 'v) syncmap \<Rightarrow> 'k \<Rightarrow> ('k, 'v) syncmap" where
  "Delete s key = sm_delete s key"

text \<open>\<open>LoadOrStore\<close> returns the value that is in the map afterwards and whether it was there before.\<close>

definition LoadOrStore :: "('k, 'v) syncmap \<Rightarrow> 'k \<Rightarrow> 'v \<Rightarrow> ('k, 'v) syncmap \<times> 'v \<times> bool" where
  "LoadOrStore s key v =
     (case sm_load s key of
        Some actual \<Rightarrow> (s, actual, True)
      | None \<Rightarrow> (sm_store s key v, v, False))"

definition LoadAndDelete :: "('k, 'v) syncmap \<Rightarrow> 'k \<Rightarrow> ('k, 'v) syncmap \<times> 'v option" where
  "LoadAndDelete s key = (let v = sm_load s key in (sm_delete s key, v))"

fun range_loop ::
  "('k \<Rightarrow> 'v \<Rightarrow> 's \<Rightarrow> 's \<times> bool) \<Rightarrow> ('k \<Rightarrow> 'v option) \<Rightarrow> 'k list \<Rightarrow> 's \<Rightarrow> 's" where
  "range_loop f m [] st = st"
| "range_loop f m (k # ks) st =
     (case m k of
        None \<Rightarrow> range_loop f m ks st
      | Some v \<Rightarrow> (let (st', continue) = f k v st in
                   if continue then range_loop f m ks st' else st'))"

definition Range ::
  "('k, 'v) syncmap \<Rightarrow> 'k list \<Rightarrow> ('k \<Rightarrow> 'v \<Rightarrow> 's \<Rightarrow> 's \<times> bool) \<Rightarrow> 's \<Rightarrow> 's" where
  "Range s order f st = range_loop f (sm_load s) order st"

text \<open>An order in which Go may run through a map: every key of the map, once.\<close>

definition iter_order :: "('k \<Rightarrow> 'v option) \<Rightarrow> 'k list \<Rightarrow> bool" where
  "iter_order m ks \<longleftrightarrow> distinct ks \<and> set ks = dom m"

lemmas syncmap_bodies = sm_load_def sm_store_def sm_delete_def

subsection \<open>The interface\<close>

locale kv_map =
  fixes lookup :: "'m \<Rightarrow> 'k \<Rightarrow> 'v option"
    and put :: "'m \<Rightarrow> 'k \<Rightarrow> 'v \<Rightarrow> 'm"
    and remove :: "'m \<Rightarrow> 'k \<Rightarrow> 'm"
    and zero :: 'm
  assumes lookup_zero: "lookup zero = Map.empty"
    and lookup_put: "lookup (put m k v) = (lookup m)(k \<mapsto> v)"
    and lookup_remove: "lookup (remove m k) = (lookup m)(k := None)"
begin

lemma lookup_put_other: "k \<noteq> k' \<Longrightarrow> lookup (put m k v) k' = lookup m k'"
  by (simp add: lookup_put)

lemma put_then_remove: "lookup m k = None \<Longrightarrow> lookup (remove (put m k v) k) = lookup m"
  by (auto simp: lookup_put lookup_remove fun_eq_iff)

text \<open>Two maps, from keys to identifiers and from identifiers to values, kept as one bijection: the
  shape of the connection manager's tables.\<close>

lemma inj_put:
  assumes "inj_on (lookup m) (dom (lookup m))" and "v \<notin> ran (lookup m)"
  shows "inj_on (lookup (put m k v)) (dom (lookup (put m k v)))"
  using assms unfolding inj_on_def lookup_put by (auto simp: ran_def)

lemma inj_remove:
  "inj_on (lookup m) (dom (lookup m)) \<Longrightarrow>
   inj_on (lookup (remove m k)) (dom (lookup (remove m k)))"
  by (auto simp: inj_on_def lookup_remove)

end

text \<open>The map with the two combined operations.\<close>

locale kv_map_atomic = kv_map lookup put remove zero
  for lookup :: "'m \<Rightarrow> 'k \<Rightarrow> 'v option"
    and put :: "'m \<Rightarrow> 'k \<Rightarrow> 'v \<Rightarrow> 'm"
    and remove :: "'m \<Rightarrow> 'k \<Rightarrow> 'm"
    and zero :: 'm +
  fixes put_new :: "'m \<Rightarrow> 'k \<Rightarrow> 'v \<Rightarrow> 'm \<times> 'v \<times> bool"
    and take_out :: "'m \<Rightarrow> 'k \<Rightarrow> 'm \<times> 'v option"
  assumes put_new_eq: "put_new m k v =
      (case lookup m k of Some w \<Rightarrow> (m, w, True) | None \<Rightarrow> (put m k v, v, False))"
    and take_out_eq: "take_out m k = (remove m k, lookup m k)"
begin

lemma put_new_present: "put_new m k v = (m', w, True) \<Longrightarrow> m' = m \<and> lookup m k = Some w"
  by (auto simp: put_new_eq split: option.splits)

lemma put_new_absent:
  "put_new m k v = (m', w, False) \<Longrightarrow> lookup m k = None \<and> lookup m' = (lookup m)(k \<mapsto> v) \<and> w = v"
  by (auto simp: put_new_eq lookup_put split: option.splits)

lemma put_new_lookup: "lookup (fst (put_new m k v)) k = Some (fst (snd (put_new m k v)))"
  by (auto simp: put_new_eq lookup_put split: option.splits)

text \<open>Of two callers that store under one key, exactly the first stores.\<close>

lemma put_new_twice:
  "put_new m k v = (m', w, b) \<Longrightarrow> put_new m' k v' = (m', w, True)"
  by (auto simp: put_new_eq lookup_put split: option.splits)

text \<open>Of two callers that take one key out, only the first gets the value.\<close>

lemma take_out_twice: "take_out m k = (m', v) \<Longrightarrow> snd (take_out m' k) = None"
  by (auto simp: take_out_eq lookup_remove)

end

lemma Load_zero: "Load sm_zero = Map.empty"
  by (simp add: fun_eq_iff Load_def sm_load_def sm_zero_def)

lemma Load_Store: "Load (Store s k v) = (Load s)(k \<mapsto> v)"
  by (auto simp: fun_eq_iff Load_def Store_def syncmap_bodies Let_def split: option.splits)

lemma Load_Delete: "Load (Delete s k) = (Load s)(k := None)"
  by (auto simp: fun_eq_iff Load_def Delete_def syncmap_bodies split: option.splits)

lemmas syncmap_laws [store_laws] = Load_zero Load_Store Load_Delete

interpretation smap: kv_map_atomic Load Store Delete sm_zero LoadOrStore LoadAndDelete
proof (unfold_locales, goal_cases)
  case 1
  show ?case by (rule Load_zero)
next
  case (2 m k v)
  show ?case by (rule Load_Store)
next
  case (3 m k)
  show ?case by (rule Load_Delete)
next
  case (4 m k v)
  show ?case by (simp add: LoadOrStore_def Load_def Store_def split: option.split)
next
  case (5 m k)
  show ?case by (simp add: LoadAndDelete_def Load_def Delete_def Let_def)
qed

subsection \<open>Range\<close>

text \<open>A callback that never stops visits every binding once, in the order of the iteration.\<close>

lemma range_loop_collect:
  "range_loop (\<lambda>k v acc. (acc @ [(k, v)], True)) m ks acc =
     acc @ List.map_filter (\<lambda>k. map_option (Pair k) (m k)) ks"
  by (induction ks arbitrary: acc) (auto simp: List.map_filter_simps split: option.splits)

lemma Range_collect_set:
  assumes "iter_order (Load s) ks"
  shows "set (Range s ks (\<lambda>k v acc. (acc @ [(k, v)], True)) []) = {(k, v). Load s k = Some v}"
proof -
  have dom: "set ks = dom (sm_load s)" using assms by (simp add: iter_order_def Load_def [abs_def])
  have "set (List.map_filter (\<lambda>k. map_option (Pair k) (sm_load s k)) ks) =
      {(k, v). k \<in> set ks \<and> sm_load s k = Some v}"
    by (force simp: List.map_filter_def)
  then show ?thesis by (auto simp: Range_def range_loop_collect Load_def dom)
qed

end
