(* ===== verification/Ids.thy ===== *)
theory Ids
  imports Syncmap
begin

section \<open>Identifiers: their printed form and how they are drawn\<close>

text \<open>
  Both identifier types of the program (\<open>ID\<close> of \<open>internal/conndb/conndb.go\<close> and of
  \<open>internal/querydb/querydb.go\<close>) print as a tag and eight hexadecimal digits: the locale
  \<open>tagged_id\<close>. Both are drawn at random until one is free: the locale \<open>id_alloc\<close>. The draws are a
  list, the part of the random sequence that is looked at; the loop has no result when the list
  runs out.
\<close>

locale tagged_id =
  fixes show_id :: "u32 \<Rightarrow> gostr" and tag :: gostr
  assumes show_eq: "show_id i = tag @ hex8 i"
begin

lemma show_inject: "show_id i = show_id j \<longleftrightarrow> i = j"
  by (simp add: show_eq)

lemma length_show: "length (show_id i) = length tag + 8"
  by (simp add: show_eq)

lemma show_chars: "c \<in> set (show_id i) \<Longrightarrow> c \<in> set tag \<union> set digit_chars"
proof -
  have hexdigit: "\<And>n c. c \<in> set (nat_hex n) \<Longrightarrow> c \<in> set digit_chars"
  proof -
    fix n c assume "c \<in> set (nat_hex n)"
    then show "c \<in> set digit_chars"
    proof (induction n rule: nat_hex.induct)
      case (1 n)
      have "digit_char d \<in> set digit_chars" if "d < 16" for d
        unfolding digit_char_def by (rule nth_mem) (use that in \<open>simp add: digit_chars_def\<close>)
      with "1" show ?case by (auto simp: nat_hex.simps [of n] split: if_splits)
    qed
  qed
  have zero: "CHR ''0'' \<in> set digit_chars" by (simp add: digit_chars_def)
  assume "c \<in> set (show_id i)"
  then show ?thesis
    using hexdigit zero by (auto simp: show_eq hex8_def pad_left_def)
qed

end

locale id_alloc =
  fixes taken :: "'s \<Rightarrow> 'i \<Rightarrow> bool"
    and alloc :: "'s \<Rightarrow> 'i list \<Rightarrow> ('i \<times> 'i list) option"
  assumes alloc_none: "alloc s [] = None"
    and alloc_cons: "alloc s (i # ds) = (if taken s i then alloc s ds else Some (i, ds))"
begin

lemma alloc_fresh: "alloc s ds = Some (i, rest) \<Longrightarrow> \<not> taken s i"
  by (induction ds) (auto simp: alloc_none alloc_cons split: if_splits)

lemma alloc_first:
  "alloc s ds = Some (i, rest) \<Longrightarrow> \<exists>pre. ds = pre @ i # rest \<and> (\<forall>j \<in> set pre. taken s j)"
proof (induction ds)
  case Nil
  then show ?case by (simp add: alloc_none)
next
  case (Cons d ds)
  show ?case
  proof (cases "taken s d")
    case True
    with Cons obtain pre where "ds = pre @ i # rest" "\<forall>j \<in> set pre. taken s j"
      by (auto simp: alloc_cons)
    with True have "d # ds = (d # pre) @ i # rest \<and> (\<forall>j \<in> set (d # pre). taken s j)" by simp
    then show ?thesis by blast
  next
    case False
    with Cons.prems have "d # ds = [] @ i # rest \<and> (\<forall>j \<in> set []. taken s j)"
      by (simp add: alloc_cons)
    then show ?thesis by blast
  qed
qed

text \<open>The loop ends as soon as a free identifier is drawn.\<close>

lemma alloc_returns: "d \<in> set ds \<Longrightarrow> \<not> taken s d \<Longrightarrow> \<exists>i rest. alloc s ds = Some (i, rest)"
  by (induction ds) (auto simp: alloc_cons)

lemma alloc_more: "alloc s ds = Some (i, rest) \<Longrightarrow> alloc s (ds @ es) = Some (i, rest @ es)"
  by (induction ds) (auto simp: alloc_none alloc_cons split: if_splits)

end

end
