(* ===== verification/Writer.thy ===== *)
theory Writer
  imports Gostd
begin

section \<open>Requests, contexts and response writers\<close>

text \<open>
  The part of \<open>net/http\<close> and \<open>context\<close> that the handlers see, and \<open>wrapWriter\<close> of
  \<open>internal/accesslog/accesslog.go\<close>, the response writer the access log puts around the one of
  \<open>net/http\<close>. A handler works on a \<open>writer\<close>: the response of \<open>net/http\<close>, alone or inside a
  \<open>wrapWriter\<close>. The interface that both share is the locale \<open>resp_writer\<close>; its law is that the
  first final status is the one that is sent.
\<close>

subsection \<open>Contexts and requests\<close>

text \<open>
  A context carries the connection ID (\<open>conndb\<close>'s key), the authentication entry (\<open>authn\<close>'s key,
  of type \<open>'e\<close>), and nothing else the program reads.
\<close>

record 'e ctx =
  ctx_conn_id :: "u32 option"
  ctx_entry :: "'e option"

definition background :: "'e ctx" where
  "background = \<lparr>ctx_conn_id = None, ctx_entry = None\<rparr>"

text \<open>
  \<open>rq_query\<close> is \<open>r.URL.Query()\<close>: the decoded parameters in order. \<open>rq_body\<close> is what reading the
  body yields, and \<open>rq_body_err\<close> the error its reader returns after that, if it does not end well.
\<close>

record 'e request =
  rq_method :: gostr
  rq_path :: gostr
  rq_raw_query :: gostr
  rq_uri :: gostr
  rq_query :: "(gostr \<times> gostr) list"
  rq_proto :: gostr
  rq_remote :: gostr
  rq_header :: "(gostr \<times> gostr) list"
  rq_body :: gostr
  rq_body_err :: "gostr option"
  rq_ctx :: "'e ctx"

text \<open>\<open>Values.Get\<close> and \<open>Header.Get\<close>: the first value of the key, or the empty string.\<close>

definition get_first :: "(gostr \<times> gostr) list \<Rightarrow> gostr \<Rightarrow> gostr" where
  "get_first kvs k = (case map_of kvs k of None \<Rightarrow> [] | Some v \<Rightarrow> v)"

lemma get_first_Nil [simp]: "get_first [] k = []"
  by (simp add: get_first_def)

lemma get_first_Cons [simp]: "get_first ((a, v) # kvs) k = (if a = k then v else get_first kvs k)"
  by (auto simp: get_first_def)

subsection \<open>The response writer of net/http\<close>

text \<open>
  \<open>rs_status\<close> is the final status once the header is written, with the header as it was at that
  moment in \<open>rs_sent\<close>; \<open>rs_info\<close> the informational statuses sent before; \<open>rs_superfluous\<close> counts the
  calls of \<open>WriteHeader\<close> that came too late. \<open>rs_alive\<close> is false when the client is gone, and then
  writing fails.
\<close>

record response =
  rs_header :: "gostr \<Rightarrow> gostr option"
  rs_status :: "nat option"
  rs_sent :: "gostr \<Rightarrow> gostr option"
  rs_info :: "nat list"
  rs_body :: gostr
  rs_superfluous :: nat
  rs_close :: bool
  rs_alive :: bool

definition new_response :: response where
  "new_response = \<lparr>rs_header = Map.empty, rs_status = None, rs_sent = Map.empty, rs_info = [],
     rs_body = [], rs_superfluous = 0, rs_close = False, rs_alive = True\<rparr>"

definition informational :: "nat \<Rightarrow> bool" where
  "informational code \<longleftrightarrow> 100 \<le> code \<and> code \<le> 199 \<and> code \<noteq> 101"

definition body_allowed :: "nat \<Rightarrow> bool" where
  "body_allowed code \<longleftrightarrow> \<not> (100 \<le> code \<and> code \<le> 199) \<and> code \<noteq> 204 \<and> code \<noteq> 304"

definition rs_set :: "response \<Rightarrow> gostr \<Rightarrow> gostr \<Rightarrow> response" where
  "rs_set r k v = r\<lparr>rs_header := (rs_header r)(k \<mapsto> v)\<rparr>"

definition rs_write_header :: "response \<Rightarrow> nat \<Rightarrow> response" where
  "rs_write_header r code =
     (if rs_status r \<noteq> None then r\<lparr>rs_superfluous := Suc (rs_superfluous r)\<rparr>
      else if informational code then r\<lparr>rs_info := rs_info r @ [code]\<rparr>
      else r\<lparr>rs_status := Some code, rs_sent := rs_header r\<rparr>)"

text \<open>\<open>Write\<close> sends the header with 200 first if need be; it returns how many bytes it took and an
  error.\<close>

definition rs_write :: "response \<Rightarrow> gostr \<Rightarrow> response \<times> nat \<times> gostr option" where
  "rs_write r data =
     (let r1 = (if rs_status r = None then rs_write_header r 200 else r);
          code = (case rs_status r1 of None \<Rightarrow> 200 | Some c \<Rightarrow> c) in
      if data = [] then (r1, 0, None)
      else if \<not> body_allowed code then
        (r1, 0, Some ''http: request method or response status code does not allow body'')
      else if \<not> rs_alive r1 then (r1, 0, Some ''write: broken pipe'')
      else (r1\<lparr>rs_body := rs_body r1 @ data\<rparr>, length data, None))"

lemmas rs_defs [resp_defs] = rs_set_def rs_write_header_def rs_write_def

subsection \<open>The wrapper of the access log\<close>

record queryReport =
  qr_query :: gostr
  qr_duration :: int

record wrapWriter =
  ww_base :: response
  ww_status :: nat
  ww_bsize :: nat
  ww_queryReport :: "queryReport option"

text \<open>\<open>&wrapWriter{base: w}\<close>: the other fields have their zero values.\<close>

definition new_wrapWriter :: "response \<Rightarrow> wrapWriter" where
  "new_wrapWriter r = \<lparr>ww_base = r, ww_status = 0, ww_bsize = 0, ww_queryReport = None\<rparr>"

definition ww_set :: "wrapWriter \<Rightarrow> gostr \<Rightarrow> gostr \<Rightarrow> wrapWriter" where
  "ww_set w k v = w\<lparr>ww_base := rs_set (ww_base w) k v\<rparr>"

definition ww_write :: "wrapWriter \<Rightarrow> gostr \<Rightarrow> wrapWriter \<times> nat \<times> gostr option" where
  "ww_write w data =
     (let (b, n, err) = rs_write (ww_base w) data in
      (w\<lparr>ww_base := b, ww_bsize := ww_bsize w + n\<rparr>, n, err))"

definition ww_write_header :: "wrapWriter \<Rightarrow> nat \<Rightarrow> wrapWriter" where
  "ww_write_header w statusCode =
     w\<lparr>ww_base := rs_write_header (ww_base w) statusCode, ww_status := statusCode\<rparr>"

definition ww_query_report :: "wrapWriter \<Rightarrow> gostr \<Rightarrow> int \<Rightarrow> wrapWriter" where
  "ww_query_report w query duration =
     w\<lparr>ww_queryReport := Some \<lparr>qr_query = query, qr_duration = duration\<rparr>\<rparr>"

lemmas ww_defs [resp_defs] = ww_set_def ww_write_def ww_write_header_def ww_query_report_def

subsection \<open>The writer a handler is given\<close>

datatype writer = Plain response | Wrapped wrapWriter

fun w_resp :: "writer \<Rightarrow> response" where
  "w_resp (Plain r) = r"
| "w_resp (Wrapped w) = ww_base w"

fun w_set :: "writer \<Rightarrow> gostr \<Rightarrow> gostr \<Rightarrow> writer" where
  "w_set (Plain r) k v = Plain (rs_set r k v)"
| "w_set (Wrapped w) k v = Wrapped (ww_set w k v)"

fun w_write_header :: "writer \<Rightarrow> nat \<Rightarrow> writer" where
  "w_write_header (Plain r) c = Plain (rs_write_header r c)"
| "w_write_header (Wrapped w) c = Wrapped (ww_write_header w c)"

fun w_write :: "writer \<Rightarrow> gostr \<Rightarrow> writer \<times> nat \<times> gostr option" where
  "w_write (Plain r) d = (let (r', n, e) = rs_write r d in (Plain r', n, e))"
| "w_write (Wrapped w) d = (let (w', n, e) = ww_write w d in (Wrapped w', n, e))"

text \<open>\<open>w.(accesslog.QueryReporter)\<close>: only the wrapper has the method.\<close>

fun w_query_report :: "writer \<Rightarrow> gostr \<Rightarrow> int \<Rightarrow> writer" where
  "w_query_report (Plain r) q d = Plain r"
| "w_query_report (Wrapped w) q d = Wrapped (ww_query_report w q d)"

abbreviation w_status :: "writer \<Rightarrow> nat option" where
  "w_status w \<equiv> rs_status (w_resp w)"

subsection \<open>The interface: the first final status is the one that is sent\<close>

datatype wop = SetHeader gostr gostr | WriteHeader nat | WriteData gostr

locale resp_writer =
  fixes hdr_set :: "'w \<Rightarrow> gostr \<Rightarrow> gostr \<Rightarrow> 'w"
    and wr_header :: "'w \<Rightarrow> nat \<Rightarrow> 'w"
    and wr_data :: "'w \<Rightarrow> gostr \<Rightarrow> 'w \<times> nat \<times> gostr option"
    and sent_status :: "'w \<Rightarrow> nat option"
    and body :: "'w \<Rightarrow> gostr"
  assumes status_set: "sent_status (hdr_set w k v) = sent_status w"
    and status_header: "sent_status (wr_header w c) =
      (if sent_status w = None \<and> \<not> informational c then Some c else sent_status w)"
    and status_data: "sent_status (fst (wr_data w d)) =
      (if sent_status w = None then Some 200 else sent_status w)"
    and body_set: "body (hdr_set w k v) = body w"
    and body_header: "body (wr_header w c) = body w"
    and body_data: "\<exists>d'. body (fst (wr_data w d)) = body w @ d'"
begin

fun run_op :: "'w \<Rightarrow> wop \<Rightarrow> 'w" where
  "run_op w (SetHeader k v) = hdr_set w k v"
| "run_op w (WriteHeader c) = wr_header w c"
| "run_op w (WriteData d) = fst (wr_data w d)"

definition run :: "'w \<Rightarrow> wop list \<Rightarrow> 'w" where
  "run w ops = foldl run_op w ops"

fun op_status :: "wop \<Rightarrow> nat option" where
  "op_status (SetHeader k v) = None"
| "op_status (WriteHeader c) = (if informational c then None else Some c)"
| "op_status (WriteData d) = Some 200"

lemma run_op_status:
  "sent_status (run_op w opn) = (case sent_status w of None \<Rightarrow> op_status opn | Some s \<Rightarrow> Some s)"
  by (cases opn) (auto simp: status_set status_header status_data split: option.splits)

lemma run_status_Some: "sent_status w = Some s \<Longrightarrow> sent_status (run w ops) = Some s"
  by (induction ops arbitrary: w) (auto simp: run_def run_op_status)

lemma run_first_status:
  "sent_status w = None \<Longrightarrow>
   sent_status (run w ops) = (case List.map_filter op_status ops of [] \<Rightarrow> None | s # _ \<Rightarrow> Some s)"
proof (induction ops arbitrary: w)
  case Nil
  then show ?case by (simp add: run_def)
next
  case (Cons opn ops)
  have step: "run w (opn # ops) = run (run_op w opn) ops" by (simp add: run_def)
  show ?case
  proof (cases "op_status opn")
    case None
    with Cons.prems have "sent_status (run_op w opn) = None" by (simp add: run_op_status)
    then show ?thesis using Cons.IH None by (simp add: step)
  next
    case (Some s)
    with Cons.prems have "sent_status (run_op w opn) = Some s" by (simp add: run_op_status)
    then show ?thesis using Some by (simp add: step run_status_Some)
  qed
qed

lemma run_body_extends: "\<exists>d. body (run w ops) = body w @ d"
proof (induction ops arbitrary: w)
  case Nil
  then show ?case by (simp add: run_def)
next
  case (Cons opn ops)
  obtain d1 where d1: "body (run_op w opn) = body w @ d1"
    using body_data by (cases opn) (auto simp: body_set body_header)
  obtain d2 where "body (run (run_op w opn) ops) = body (run_op w opn) @ d2"
    using Cons.IH by blast
  with d1 show ?case by (auto simp: run_def)
qed

end

lemma rs_write_status:
  "rs_status (fst (rs_write r d)) = (if rs_status r = None then Some 200 else rs_status r)"
  by (auto simp: rs_write_def rs_write_header_def informational_def Let_def)

lemma rs_write_body: "\<exists>d'. rs_body (fst (rs_write r d)) = rs_body r @ d'"
  by (auto simp: rs_write_def rs_write_header_def Let_def)

interpretation net_rw: resp_writer rs_set rs_write_header rs_write rs_status rs_body
proof (unfold_locales, goal_cases)
  case (3 w d)
  show ?case by (rule rs_write_status)
next
  case (6 w d)
  show ?case by (rule rs_write_body)
qed (auto simp: rs_set_def rs_write_header_def)

lemma w_write_resp: "w_resp (fst (w_write w d)) = fst (rs_write (w_resp w) d)"
  by (cases w) (auto simp: ww_write_def split: prod.splits)

lemma w_set_resp [simp]: "w_resp (w_set w k v) = rs_set (w_resp w) k v"
  by (cases w) (auto simp: ww_set_def)

lemma w_write_header_resp [simp]: "w_resp (w_write_header w c) = rs_write_header (w_resp w) c"
  by (cases w) (auto simp: ww_write_header_def)

lemma w_query_report_resp [simp]: "w_resp (w_query_report w q d) = w_resp w"
  by (cases w) (auto simp: ww_query_report_def)

interpretation handler_rw: resp_writer w_set w_write_header w_write w_status "\<lambda>w. rs_body (w_resp w)"
proof (unfold_locales, goal_cases)
  case (3 w d)
  show ?case by (simp add: w_write_resp rs_write_status)
next
  case (6 w d)
  show ?case by (simp add: w_write_resp rs_write_body)
qed (auto simp: rs_set_def rs_write_header_def)

end
