(* ===== verification/Conndb.thy ===== *)
theory Conndb
  imports Ids Writer
begin

section \<open>internal/conndb: one database per connection\<close>

text \<open>
  \<open>internal/conndb/conndb.go\<close>. The manager gives every TCP connection a random identifier and a
  \<open>Client\<close>, which opens a database on its first use, at most \<open>MaxDB\<close> at a time, and closes it in a
  goroutine once the connection is closed. A \<open>*Client\<close> is a pointer: clients live in a heap, and a
  handler may hold one after the manager has forgotten it. What opening, closing and \<open>database/sql\<close>
  do to the outside is a world of any type \<open>'w\<close>.
\<close>

subsection \<open>Identifiers and contexts\<close>

definition cid_String :: "u32 \<Rightarrow> gostr" where
  "cid_String i = ''C_'' @ hex8 i"

interpretation cid: tagged_id cid_String "''C_''"
  by unfold_locales (simp add: cid_String_def)

text \<open>\<open>context.WithValue(ctx, connIDKey\{\}, id)\<close> and \<open>GetID\<close>.\<close>

definition with_conn_id :: "'e ctx \<Rightarrow> u32 \<Rightarrow> 'e ctx" where
  "with_conn_id c i = c\<lparr>ctx_conn_id := Some i\<rparr>"

definition GetID :: "'e ctx \<Rightarrow> u32 option" where
  "GetID c = ctx_conn_id c"

lemma GetID_with_conn_id [simp]: "GetID (with_conn_id c i) = Some i"
  by (simp add: GetID_def with_conn_id_def)

subsection \<open>State\<close>

datatype conn_error = ErrNoID | ErrNoConnection | ErrMaxDB | ErrNoOpener | OpenError gostr | NilClient

definition conn_error_text :: "conn_error \<Rightarrow> gostr" where
  "conn_error_text e = (case e of
     ErrNoID \<Rightarrow> ''no ID assigned for the context''
   | ErrNoConnection \<Rightarrow> ''no connections assigned for the context''
   | ErrMaxDB \<Rightarrow> ''reached maximum number of DB''
   | ErrNoOpener \<Rightarrow> ''no Opener specified''
   | OpenError t \<Rightarrow> t
   | NilClient \<Rightarrow> ''invalid memory address or nil pointer dereference'')"

type_synonym ('e, 'w) opener = "'e ctx \<Rightarrow> 'w \<Rightarrow> 'w \<times> (gostr + nat \<times> nat)"
type_synonym ('e, 'w) closer = "'e ctx \<Rightarrow> nat \<Rightarrow> 'w \<Rightarrow> 'w \<times> gostr option"

text \<open>What \<open>database/sql\<close> does when a handle is closed or its idle limit set.\<close>

record 'w sqlapi =
  sql_db_close :: "nat \<Rightarrow> 'w \<Rightarrow> 'w \<times> gostr option"
  sql_conn_close :: "nat \<Rightarrow> 'w \<Rightarrow> 'w \<times> gostr option"
  sql_set_max_idle :: "nat \<Rightarrow> nat \<Rightarrow> 'w \<Rightarrow> 'w"

record 'e client =
  cl_ctx :: "'e ctx"
  cl_ID :: u32
  cl_db :: "nat option"
  cl_conn :: "nat option"

definition client_Context :: "'e client \<Rightarrow> 'e ctx" where
  [simp]: "client_Context cl = cl_ctx cl"

record ('e, 'w) manager =
  MaxDB :: int
  Opener :: "('e, 'w) opener option"
  Closer :: "('e, 'w) closer option"
  connToID :: "(nat, u32) syncmap"
  clients :: "(u32, nat) syncmap"
  dbCount :: int
  heap :: "nat \<Rightarrow> 'e client option"
  next_ref :: nat

definition new_manager :: "int \<Rightarrow> ('e, 'w) opener option \<Rightarrow> ('e, 'w) closer option \<Rightarrow> ('e, 'w) manager" where
  "new_manager n op cl = \<lparr>MaxDB = n, Opener = op, Closer = cl, connToID = sm_zero, clients = sm_zero,
     dbCount = 0, heap = Map.empty, next_ref = 0\<rparr>"

subsection \<open>Opening and closing databases\<close>

definition openDB ::
  "'w sqlapi \<Rightarrow> ('e, 'w) manager \<Rightarrow> 'w \<Rightarrow> 'e ctx \<Rightarrow> u32
   \<Rightarrow> ('e, 'w) manager \<times> 'w \<times> (conn_error + nat \<times> nat)" where
  "openDB api m w ctx i =
     (if MaxDB m \<le> dbCount m then (m, w, Inl ErrMaxDB)
      else (case Opener m of
          None \<Rightarrow> (m, w, Inl ErrNoOpener)
        | Some op \<Rightarrow>
            (case op (with_conn_id ctx i) w of
               (w1, Inl err) \<Rightarrow> (m, w1, Inl (OpenError err))
             | (w1, Inr (db, conn)) \<Rightarrow>
                 (m\<lparr>dbCount := dbCount m + 1\<rparr>, sql_set_max_idle api db 0 w1, Inr (db, conn)))))"

definition closeDB ::
  "'w sqlapi \<Rightarrow> ('e, 'w) manager \<Rightarrow> 'w \<Rightarrow> nat \<Rightarrow> u32 \<Rightarrow> ('e, 'w) manager \<times> 'w \<times> gostr option" where
  "closeDB api m w db i =
     (let m1 = (if 0 < dbCount m then m\<lparr>dbCount := dbCount m - 1\<rparr> else m);
          ctx = with_conn_id background i in
      case Closer m of
        None \<Rightarrow> (let (w1, err) = sql_db_close api db w in (m1, w1, err))
      | Some close \<Rightarrow> (let (w1, err) = close ctx db w in (m1, w1, err)))"

text \<open>The two halves of \<open>closeDB\<close>: the counter, under \<open>dbMutex\<close>, and the call of the closer, for which the
  mutex has been released.\<close>

definition closeDB_count :: "('e, 'w) manager \<Rightarrow> ('e, 'w) manager" where
  "closeDB_count m = (if 0 < dbCount m then m\<lparr>dbCount := dbCount m - 1\<rparr> else m)"

definition closeDB_call :: "'w sqlapi \<Rightarrow> ('e, 'w) manager \<Rightarrow> 'w \<Rightarrow> nat \<Rightarrow> u32 \<Rightarrow> 'w \<times> gostr option" where
  "closeDB_call api m w db i =
     (case Closer m of
        None \<Rightarrow> sql_db_close api db w
      | Some close \<Rightarrow> close (with_conn_id background i) db w)"

lemma closeDB_halves:
  "closeDB api m w db i = (let (w1, err) = closeDB_call api m w db i in (closeDB_count m, w1, err))"
  by (simp add: closeDB_def closeDB_call_def closeDB_count_def Let_def split: option.split)

subsection \<open>Clients\<close>

text \<open>The loop of \<open>withNewClient\<close>: draw until \<open>LoadOrStore\<close> stores.\<close>

fun new_id_loop ::
  "(u32, nat) syncmap \<Rightarrow> nat \<Rightarrow> u32 list \<Rightarrow> ((u32, nat) syncmap \<times> u32 \<times> u32 list) option" where
  "new_id_loop cls ref [] = None"
| "new_id_loop cls ref (i # ds) =
     (case LoadOrStore cls i ref of
        (cls1, actual, loaded) \<Rightarrow>
          if \<not> loaded then Some (cls1, i, ds) else new_id_loop cls1 ref ds)"

definition withNewClient ::
  "('e, 'w) manager \<Rightarrow> 'e ctx \<Rightarrow> nat \<Rightarrow> u32 list \<Rightarrow> (('e, 'w) manager \<times> nat \<times> u32 list) option" where
  "withNewClient m ctx c draws =
     (let ref = next_ref m in
      case new_id_loop (clients m) ref draws of
        None \<Rightarrow> None
      | Some (cls, i, rest) \<Rightarrow>
          Some (m\<lparr>clients := cls, connToID := Store (connToID m) c i,
                  heap := (heap m)(ref \<mapsto>
                    \<lparr>cl_ctx = with_conn_id ctx i, cl_ID = i, cl_db = None, cl_conn = None\<rparr>),
                  next_ref := Suc ref\<rparr>, ref, rest))"

definition ConnContext ::
  "('e, 'w) manager \<Rightarrow> 'e ctx \<Rightarrow> nat \<Rightarrow> u32 list \<Rightarrow> (('e, 'w) manager \<times> 'e ctx \<times> u32 list) option" where
  "ConnContext m ctx c draws =
     (case withNewClient m ctx c draws of
        None \<Rightarrow> None
      | Some (m1, ref, rest) \<Rightarrow>
          (case heap m1 ref of None \<Rightarrow> None | Some cl \<Rightarrow> Some (m1, client_Context cl, rest)))"

datatype conn_state = StateNew | StateActive | StateIdle | StateHijacked | StateClosed

text \<open>\<open>closeConn\<close> returns the client whose \<open>close\<close> runs in a new goroutine, if any, and whether the
  connection was unknown.\<close>

definition closeConn :: "('e, 'w) manager \<Rightarrow> nat \<Rightarrow> ('e, 'w) manager \<times> nat option \<times> bool" where
  "closeConn m c =
     (case LoadAndDelete (connToID m) c of
        (tbl, None) \<Rightarrow> (m\<lparr>connToID := tbl\<rparr>, None, True)
      | (tbl, Some i) \<Rightarrow>
          (case LoadAndDelete (clients m) i of
             (cls, None) \<Rightarrow> (m\<lparr>connToID := tbl, clients := cls\<rparr>, None, False)
           | (cls, Some ref) \<Rightarrow> (m\<lparr>connToID := tbl, clients := cls\<rparr>, Some ref, False)))"

definition ConnState :: "('e, 'w) manager \<Rightarrow> nat \<Rightarrow> conn_state \<Rightarrow> ('e, 'w) manager \<times> nat option \<times> bool" where
  "ConnState m c s = (if s = StateClosed then closeConn m c else (m, None, False))"

text \<open>\<open>Client.Conn\<close>, under the client's lock: the open connection, or a new one. A nil result is
  \<open>Inr None\<close>.\<close>

definition client_Conn ::
  "'w sqlapi \<Rightarrow> ('e, 'w) manager \<Rightarrow> 'w \<Rightarrow> nat \<Rightarrow> ('e, 'w) manager \<times> 'w \<times> (conn_error + nat option)" where
  "client_Conn api m w ref =
     (case heap m ref of
        None \<Rightarrow> (m, w, Inl NilClient)
      | Some cl \<Rightarrow>
          if cl_conn cl \<noteq> None then (m, w, Inr (cl_conn cl))
          else if cl_db cl = None then
            (case openDB api m w (cl_ctx cl) (cl_ID cl) of
               (m1, w1, Inl err) \<Rightarrow> (m1, w1, Inl err)
             | (m1, w1, Inr (db, conn)) \<Rightarrow>
                 (m1\<lparr>heap := (heap m1)(ref \<mapsto> cl\<lparr>cl_db := Some db, cl_conn := Some conn\<rparr>)\<rparr>, w1,
                  Inr (Some conn)))
          else (m, w, Inr (cl_conn cl)))"

text \<open>\<open>Client.close\<close>: the connection first, then the database; the first error is returned.\<close>

definition client_close ::
  "'w sqlapi \<Rightarrow> ('e, 'w) manager \<Rightarrow> 'w \<Rightarrow> nat \<Rightarrow> ('e, 'w) manager \<times> 'w \<times> gostr option" where
  "client_close api m w ref =
     (case heap m ref of
        None \<Rightarrow> (m, w, Some (conn_error_text NilClient))
      | Some cl \<Rightarrow>
          (let (w1, err1) = (case cl_conn cl of
                 None \<Rightarrow> (w, None) | Some conn \<Rightarrow> sql_conn_close api conn w);
               (m1, w2, err2) = (case cl_db cl of
                 None \<Rightarrow> (m, w1, None) | Some db \<Rightarrow> closeDB api m w1 db (cl_ID cl));
               m2 = m1\<lparr>heap := (heap m1)(ref \<mapsto> cl\<lparr>cl_db := None, cl_conn := None\<rparr>)\<rparr> in
           (m2, w2, if err1 \<noteq> None then err1 else err2)))"

text \<open>Others can act between the two halves of \<open>closeDB\<close>, and so in the middle of \<open>close\<close>: up to there the
  connection is closed and the slot given back, after it the database is closed and forgotten.\<close>

definition client_close_count ::
  "'w sqlapi \<Rightarrow> ('e, 'w) manager \<Rightarrow> 'w \<Rightarrow> nat \<Rightarrow> ('e, 'w) manager \<times> 'w \<times> gostr option" where
  "client_close_count api m w ref =
     (case heap m ref of
        None \<Rightarrow> (m, w, Some (conn_error_text NilClient))
      | Some cl \<Rightarrow>
          (let (w1, err1) = (case cl_conn cl of
                 None \<Rightarrow> (w, None) | Some conn \<Rightarrow> sql_conn_close api conn w);
               m1 = (if cl_db cl = None then m else closeDB_count m) in
           (m1\<lparr>heap := (heap m1)(ref \<mapsto> cl\<lparr>cl_conn := None\<rparr>)\<rparr>, w1, err1)))"

definition client_close_finish ::
  "'w sqlapi \<Rightarrow> ('e, 'w) manager \<Rightarrow> 'w \<Rightarrow> nat \<Rightarrow> ('e, 'w) manager \<times> 'w \<times> gostr option" where
  "client_close_finish api m w ref =
     (case heap m ref of
        None \<Rightarrow> (m, w, None)
      | Some cl \<Rightarrow>
          (let (w1, err2) = (case cl_db cl of
                 None \<Rightarrow> (w, None) | Some db \<Rightarrow> closeDB_call api m w db (cl_ID cl)) in
           (m\<lparr>heap := (heap m)(ref \<mapsto> cl\<lparr>cl_db := None\<rparr>)\<rparr>, w1, err2)))"

lemma client_close_halves:
  "client_close api m w ref =
     (let (m1, w1, err1) = client_close_count api m w ref; (m2, w2, err2) = client_close_finish api m1 w1 ref in
      (m2, w2, if err1 \<noteq> None then err1 else err2))"
proof (cases "heap m ref")
  case None
  then show ?thesis by (simp add: client_close_def client_close_count_def client_close_finish_def)
next
  case (Some cl)
  have "heap (closeDB_count m) = heap m" "Closer (closeDB_count m) = Closer m" by (simp_all add: closeDB_count_def)
  moreover have swap: "cl\<lparr>cl_conn := None, cl_db := None\<rparr> = cl\<lparr>cl_db := None, cl_conn := None\<rparr>" by (cases cl) simp
  ultimately show ?thesis using Some
    by (simp add: swap client_close_def client_close_count_def client_close_finish_def closeDB_halves closeDB_call_def
        Let_def split_beta split: option.split)
qed

definition manager_Client :: "('e, 'w) manager \<Rightarrow> 'e ctx \<Rightarrow> conn_error + nat" where
  "manager_Client m ctx =
     (case ctx_conn_id ctx of
        None \<Rightarrow> Inl ErrNoID
      | Some i \<Rightarrow> (case Load (clients m) i of None \<Rightarrow> Inl ErrNoConnection | Some ref \<Rightarrow> Inr ref))"

text \<open>\<open>Databases\<close>: the iterator over the open databases; \<open>yield\<close> says whether to go on.\<close>

definition Databases ::
  "('e, 'w) manager \<Rightarrow> u32 list \<Rightarrow> (u32 \<Rightarrow> nat \<Rightarrow> 's \<Rightarrow> 's \<times> bool) \<Rightarrow> 's \<Rightarrow> 's" where
  "Databases m order yield st =
     Range (clients m) order
       (\<lambda>i ref st. case heap m ref of
          None \<Rightarrow> (st, True)
        | Some cl \<Rightarrow> (case cl_db cl of None \<Rightarrow> (st, True) | Some db \<Rightarrow> yield i db st)) st"

end
