(* ===== verification/Conndb_Steps.thy ===== *)
theory Conndb_Steps
  imports Conndb
begin

section \<open>The connection manager under concurrency\<close>

text \<open>
  The manager of \<open>internal/conndb/conndb.go\<close> as a state machine. Its methods run under locks
  (\<open>Client.mu\<close> around \<open>Conn\<close> and \<open>close\<close>, \<open>dbMutex\<close> around \<open>openDB\<close> and the counter, the locks of
  the two maps), and what runs under \<open>dbMutex\<close> is one step: a connection is accepted, a handler asks its
  client for the database, a connection changes its state. A close goroutine takes two steps, because
  \<open>closeDB\<close> releases \<open>dbMutex\<close> once it has counted down: \<open>pend\<close> has the clients whose goroutine has not
  begun, \<open>ending\<close> those that were counted down and whose database is being closed; \<open>Client.mu\<close> keeps
  handlers away from these. Every statement on its own is the subject of \<open>Conndb_Locks\<close>. \<open>may\<close> says which clients a handler
  may use: any it ever got hold of, or only those still registered, as with HTTP/1, where a
  connection is closed after its handler has returned.
\<close>

record ('e, 'w) cm_sys =
  mgr :: "('e, 'w) manager"
  wld :: 'w
  pend :: "nat list"
  ending :: "nat list"

inductive cm_step ::
  "'w sqlapi \<Rightarrow> (('e, 'w) manager \<Rightarrow> nat \<Rightarrow> bool) \<Rightarrow> ('e, 'w) cm_sys \<Rightarrow> ('e, 'w) cm_sys \<Rightarrow> bool"
  for api :: "'w sqlapi" and may :: "('e, 'w) manager \<Rightarrow> nat \<Rightarrow> bool" where
  accept: "Load (connToID (mgr s)) c = None \<Longrightarrow> withNewClient (mgr s) ctx c draws = Some (m, ref, rest)
    \<Longrightarrow> cm_step api may s (s\<lparr>mgr := m\<rparr>)"
| conn: "may (mgr s) ref \<Longrightarrow> ref \<notin> set (ending s) \<Longrightarrow> client_Conn api (mgr s) (wld s) ref = (m, w, r)
    \<Longrightarrow> cm_step api may s (s\<lparr>mgr := m, wld := w\<rparr>)"
| state_change: "ConnState (mgr s) c st = (m, spawned, unknown)
    \<Longrightarrow> cm_step api may s (s\<lparr>mgr := m, pend := (case spawned of None \<Rightarrow> pend s | Some ref \<Rightarrow> ref # pend s)\<rparr>)"
| close_count: "ref \<in> set (pend s) \<Longrightarrow> client_close_count api (mgr s) (wld s) ref = (m, w, err)
    \<Longrightarrow> cm_step api may s (s\<lparr>mgr := m, wld := w, pend := remove1 ref (pend s), ending := ref # ending s\<rparr>)"
| close_finish: "ref \<in> set (ending s) \<Longrightarrow> client_close_finish api (mgr s) (wld s) ref = (m, w, err)
    \<Longrightarrow> cm_step api may s (s\<lparr>mgr := m, wld := w, ending := remove1 ref (ending s)\<rparr>)"

inductive cm_reachable ::
  "'w sqlapi \<Rightarrow> (('e, 'w) manager \<Rightarrow> nat \<Rightarrow> bool) \<Rightarrow> ('e, 'w) cm_sys \<Rightarrow> ('e, 'w) cm_sys \<Rightarrow> bool"
  for api :: "'w sqlapi" and may :: "('e, 'w) manager \<Rightarrow> nat \<Rightarrow> bool" and s0 :: "('e, 'w) cm_sys" where
  start: "cm_reachable api may s0 s0"
| step: "cm_reachable api may s0 s \<Longrightarrow> cm_step api may s t \<Longrightarrow> cm_reachable api may s0 t"

inductive_cases cm_stepE: "cm_step api may s t"

definition any_client :: "('e, 'w) manager \<Rightarrow> nat \<Rightarrow> bool" where
  "any_client m ref \<longleftrightarrow> heap m ref \<noteq> None"

definition registered_client :: "('e, 'w) manager \<Rightarrow> nat \<Rightarrow> bool" where
  "registered_client m ref \<longleftrightarrow> (\<exists>i. Load (clients m) i = Some ref)"

definition init_sys :: "('e, 'w) manager \<Rightarrow> 'w \<Rightarrow> ('e, 'w) cm_sys" where
  "init_sys m w = \<lparr>mgr = m, wld = w, pend = [], ending = []\<rparr>"

subsection \<open>The invariant\<close>

definition has_db :: "('e, 'w) manager \<Rightarrow> nat \<Rightarrow> bool" where
  "has_db m ref \<longleftrightarrow> (\<exists>cl. heap m ref = Some cl \<and> cl_db cl \<noteq> None)"

definition open_dbs :: "('e, 'w) manager \<Rightarrow> nat set" where
  "open_dbs m = {ref. has_db m ref}"

text \<open>Accounting: the counter is the number of clients with a database, but for those in \<open>C\<close>, which are
  closing theirs, and within the limit.\<close>

definition count_ok :: "('e, 'w) manager \<Rightarrow> nat set \<Rightarrow> bool" where
  "count_ok m C \<longleftrightarrow> finite (open_dbs m) \<and> dbCount m = int (card (open_dbs m - C)) \<and>
     dbCount m \<le> max 0 (MaxDB m)"

text \<open>Heap: a client has a connection exactly when it has a database that it is not closing; free pointers
  are free.\<close>

definition heap_ok :: "('e, 'w) manager \<Rightarrow> nat set \<Rightarrow> bool" where
  "heap_ok m C \<longleftrightarrow> (\<forall>ref cl. heap m ref = Some cl \<longrightarrow>
     ref < next_ref m \<and> (cl_conn cl = None \<longleftrightarrow> cl_db cl = None \<or> ref \<in> C) \<and> ctx_conn_id (cl_ctx cl) = Some (cl_ID cl))"

text \<open>Tables: every connection has its own identifier, every identifier its own client, which knows
  it.\<close>

definition tables_ok :: "('e, 'w) manager \<Rightarrow> bool" where
  "tables_ok m \<longleftrightarrow>
     (\<forall>i ref. Load (clients m) i = Some ref \<longrightarrow> (\<exists>cl. heap m ref = Some cl \<and> cl_ID cl = i)) \<and>
     (\<forall>c i. Load (connToID m) c = Some i \<longrightarrow> Load (clients m) i \<noteq> None) \<and>
     (\<forall>c d i. Load (connToID m) c = Some i \<longrightarrow> Load (connToID m) d = Some i \<longrightarrow> c = d)"

text \<open>Clients that are closed, or are going to be, are no longer registered, and are closed once.\<close>

definition pend_ok :: "('e, 'w) cm_sys \<Rightarrow> bool" where
  "pend_ok s \<longleftrightarrow> distinct (pend s @ ending s) \<and>
     (\<forall>ref \<in> set (pend s @ ending s). heap (mgr s) ref \<noteq> None \<and> \<not> registered_client (mgr s) ref)"

definition cm_inv :: "('e, 'w) cm_sys \<Rightarrow> bool" where
  "cm_inv s \<longleftrightarrow> count_ok (mgr s) (set (ending s)) \<and> heap_ok (mgr s) (set (ending s)) \<and> tables_ok (mgr s) \<and> pend_ok s"

lemmas cm_inv_defs = cm_inv_def count_ok_def heap_ok_def tables_ok_def pend_ok_def

lemma open_dbs_None_iff: "ref \<in> open_dbs m \<longleftrightarrow> (\<exists>cl db. heap m ref = Some cl \<and> cl_db cl = Some db)"
  by (auto simp: open_dbs_def has_db_def)

lemma pend_okD:
  assumes "pend_ok s"
  shows "r \<in> set (pend s) \<Longrightarrow> heap (mgr s) r \<noteq> None" and "r \<in> set (ending s) \<Longrightarrow> heap (mgr s) r \<noteq> None"
    and "r \<in> set (pend s) \<Longrightarrow> \<not> registered_client (mgr s) r"
    and "r \<in> set (ending s) \<Longrightarrow> \<not> registered_client (mgr s) r"
    and "distinct (pend s)" and "distinct (ending s)" and "r \<in> set (pend s) \<Longrightarrow> r \<notin> set (ending s)"
  using assms by (auto simp: pend_ok_def ball_Un)

lemma pend_okI:
  assumes "distinct (pend s @ ending s)"
    and "\<And>r. r \<in> set (pend s @ ending s) \<Longrightarrow> heap (mgr s) r \<noteq> None"
    and "\<And>r. r \<in> set (pend s @ ending s) \<Longrightarrow> \<not> registered_client (mgr s) r"
  shows "pend_ok s"
  using assms unfolding pend_ok_def by blast

subsection \<open>How the operations change the manager\<close>

lemma new_id_loop_eq:
  "new_id_loop cls ref ds =
     (case ds of [] \<Rightarrow> None
      | i # rest \<Rightarrow> if Load cls i = None then Some (Store cls i ref, i, rest) else new_id_loop cls ref rest)"
  by (cases ds) (auto simp: smap.put_new_eq split: option.splits)

definition id_loop_draw :: "(u32, nat) syncmap \<Rightarrow> u32 list \<Rightarrow> (u32 \<times> u32 list) option" where
  "id_loop_draw cls ds = map_option (\<lambda>(c, i, rest). (i, rest)) (new_id_loop cls 0 ds)"

interpretation calloc: id_alloc "\<lambda>cls i. Load cls i \<noteq> None" id_loop_draw
  by unfold_locales (auto simp: id_loop_draw_def smap.put_new_eq split: option.splits)

lemma new_id_loop_draw:
  "new_id_loop cls ref ds =
     map_option (\<lambda>(i, rest). (Store cls i ref, i, rest)) (id_loop_draw cls ds)"
  by (induction ds) (auto simp: calloc.alloc_none calloc.alloc_cons smap.put_new_eq split: option.splits)

lemma withNewClient_Some:
  assumes "withNewClient m ctx c draws = Some (m', ref, rest)"
  obtains i where "id_loop_draw (clients m) draws = Some (i, rest)" "Load (clients m) i = None"
    "ref = next_ref m"
    "m' = m\<lparr>clients := Store (clients m) i ref, connToID := Store (connToID m) c i,
       heap := (heap m)(ref \<mapsto>
         \<lparr>cl_ctx = with_conn_id ctx i, cl_ID = i, cl_db = None, cl_conn = None\<rparr>),
       next_ref := Suc ref\<rparr>"
  using assms calloc.alloc_fresh
  by (fastforce simp: withNewClient_def new_id_loop_draw Let_def split: option.splits)

lemma openDB_cases:
  obtains (full) "MaxDB m \<le> dbCount m" "openDB api m w ctx i = (m, w, Inl ErrMaxDB)"
  | (failed) w1 err where "dbCount m < MaxDB m" "openDB api m w ctx i = (m, w1, Inl err)"
  | (opened) w1 db conn where "dbCount m < MaxDB m"
      "openDB api m w ctx i = (m\<lparr>dbCount := dbCount m + 1\<rparr>, w1, Inr (db, conn))"
proof (cases "MaxDB m \<le> dbCount m")
  case True
  then show ?thesis using full by (simp add: openDB_def)
next
  case False
  then have lt: "dbCount m < MaxDB m" by simp
  show ?thesis
  proof (cases "Opener m")
    case None
    with lt show ?thesis using failed by (simp add: openDB_def)
  next
    case (Some op)
    obtain w1 r where r: "op (with_conn_id ctx i) w = (w1, r)" by fastforce
    show ?thesis
    proof (cases r)
      case (Inl err)
      with lt Some r show ?thesis using failed by (simp add: openDB_def)
    next
      case (Inr h)
      obtain db conn where "h = (db, conn)" by fastforce
      with lt Some r Inr show ?thesis using opened by (simp add: openDB_def)
    qed
  qed
qed

lemma client_Conn_cases:
  assumes "client_Conn api m w ref = (m', w', r)"
  obtains (same) "m' = m"
  | (opened) cl db conn where "heap m ref = Some cl" "cl_db cl = None" "dbCount m < MaxDB m"
      "r = Inr (Some conn)"
      "m' = m\<lparr>dbCount := dbCount m + 1,
               heap := (heap m)(ref \<mapsto> cl\<lparr>cl_db := Some db, cl_conn := Some conn\<rparr>)\<rparr>"
proof (cases "heap m ref")
  case None
  with assms same show ?thesis by (simp add: client_Conn_def)
next
  case (Some cl)
  show ?thesis
  proof (cases "cl_conn cl = None \<and> cl_db cl = None")
    case False
    with Some assms same show ?thesis by (auto simp: client_Conn_def split: if_splits)
  next
    case True
    show ?thesis
    proof (cases rule: openDB_cases [of m api w "cl_ctx cl" "cl_ID cl"])
      case full
      with Some True assms same show ?thesis by (simp add: client_Conn_def)
    next
      case failed
      with Some True assms same show ?thesis by (simp add: client_Conn_def)
    next
      case opened': (opened w1 db conn)
      with Some True assms show ?thesis by (intro opened [where cl = cl and db = db and conn = conn]) (auto simp: client_Conn_def)
    qed
  qed
qed

lemma closeDB_manager:
  "fst (closeDB api m w db i) = (if 0 < dbCount m then m\<lparr>dbCount := dbCount m - 1\<rparr> else m)"
  by (auto simp: closeDB_def Let_def split: option.splits prod.splits)

lemma client_close_count_manager:
  assumes "client_close_count api m w ref = (m', w', err)" and "heap m ref = Some cl"
  shows "m' = (if cl_db cl = None \<or> \<not> 0 < dbCount m then m else m\<lparr>dbCount := dbCount m - 1\<rparr>)
      \<lparr>heap := (heap m)(ref \<mapsto> cl\<lparr>cl_conn := None\<rparr>)\<rparr>"
  using assms by (auto simp: client_close_count_def closeDB_count_def split: prod.splits if_splits)

lemma client_close_finish_manager:
  assumes "client_close_finish api m w ref = (m', w', err)" and "heap m ref = Some cl"
  shows "m' = m\<lparr>heap := (heap m)(ref \<mapsto> cl\<lparr>cl_db := None\<rparr>)\<rparr>"
  using assms by (auto simp: client_close_finish_def split: prod.splits)

lemma closeConn_cases:
  assumes "closeConn m c = (m', spawned, unknown)"
  obtains (unknown) "Load (connToID m) c = None" "spawned = None"
      "m' = m\<lparr>connToID := Delete (connToID m) c\<rparr>"
  | (nobody) i where "Load (connToID m) c = Some i" "Load (clients m) i = None" "spawned = None"
      "m' = m\<lparr>connToID := Delete (connToID m) c, clients := Delete (clients m) i\<rparr>"
  | (closing) i ref where "Load (connToID m) c = Some i" "Load (clients m) i = Some ref"
      "spawned = Some ref"
      "m' = m\<lparr>connToID := Delete (connToID m) c, clients := Delete (clients m) i\<rparr>"
proof (cases "Load (connToID m) c")
  case None
  with assms unknown show ?thesis by (simp add: closeConn_def smap.take_out_eq)
next
  case (Some i)
  show ?thesis
  proof (cases "Load (clients m) i")
    case None
    with Some assms nobody show ?thesis by (simp add: closeConn_def smap.take_out_eq)
  next
    case c: (Some ref)
    with Some assms show ?thesis by (intro closing [of i ref]) (auto simp: closeConn_def smap.take_out_eq)
  qed
qed

subsection \<open>Every step keeps the invariant\<close>

text \<open>The counter: what an operation does to the set of open databases.\<close>

lemma open_dbs_upd:
  "heap m' = (heap m)(ref \<mapsto> cl) \<Longrightarrow>
   open_dbs m' = (if cl_db cl = None then open_dbs m - {ref} else insert ref (open_dbs m))"
  by (auto simp: open_dbs_def has_db_def)

lemma open_dbs_heap: "heap m = heap m' \<Longrightarrow> open_dbs m = open_dbs m'"
  by (simp add: open_dbs_def has_db_def)

lemma open_dbs_card_pos:
  assumes "count_ok m C" and "ref \<in> open_dbs m" and "ref \<notin> C"
  shows "0 < dbCount m"
proof -
  have "finite (open_dbs m - C)" "ref \<in> open_dbs m - C" using assms by (auto simp: count_ok_def)
  then have "0 < card (open_dbs m - C)" using card_gt_0_iff by blast
  with assms(1) show ?thesis by (simp add: count_ok_def)
qed

lemma count_ok_new_client:
  assumes "count_ok m C" and "heap m' = (heap m)(ref \<mapsto> cl)" and "heap m ref = None"
    and "cl_db cl = None" and "dbCount m' = dbCount m" and "MaxDB m' = MaxDB m"
  shows "count_ok m' C"
proof -
  have "ref \<notin> open_dbs m" using assms(3) by (simp add: open_dbs_None_iff)
  then have "open_dbs m' = open_dbs m" using open_dbs_upd [OF assms(2)] assms(4) by simp
  with assms show ?thesis by (simp add: count_ok_def)
qed

lemma count_ok_open:
  assumes "count_ok m C" and "heap m ref = Some cl" and "cl_db cl = None" and "dbCount m < MaxDB m" and "ref \<notin> C"
  shows "count_ok (m\<lparr>dbCount := dbCount m + 1,
     heap := (heap m)(ref \<mapsto> cl\<lparr>cl_db := Some db, cl_conn := Some conn\<rparr>)\<rparr>) C" (is "count_ok ?m C")
proof -
  have "open_dbs ?m = insert ref (open_dbs m)"
    using open_dbs_upd [of ?m m ref "cl\<lparr>cl_db := Some db, cl_conn := Some conn\<rparr>"] by simp
  moreover from this have "open_dbs ?m - C = insert ref (open_dbs m - C)" using assms(5) by auto
  moreover have "ref \<notin> open_dbs m" using assms(2,3) by (simp add: open_dbs_None_iff)
  ultimately have "open_dbs ?m = insert ref (open_dbs m)" "open_dbs ?m - C = insert ref (open_dbs m - C)" "ref \<notin> open_dbs m"
    by blast+
  with assms show ?thesis by (simp add: count_ok_def)
qed

lemma count_ok_count:
  assumes "count_ok m C" and "heap m ref = Some cl" and "ref \<notin> C"
  shows "count_ok ((if cl_db cl = None \<or> \<not> 0 < dbCount m then m else m\<lparr>dbCount := dbCount m - 1\<rparr>)
      \<lparr>heap := (heap m)(ref \<mapsto> cl\<lparr>cl_conn := None\<rparr>)\<rparr>) (insert ref C)" (is "count_ok ?m _")
proof -
  have eq: "open_dbs ?m = open_dbs m"
    using open_dbs_upd [of ?m m ref "cl\<lparr>cl_conn := None\<rparr>"] assms(2) by (auto simp: open_dbs_None_iff split: if_splits)
  show ?thesis
  proof (cases "ref \<in> open_dbs m")
    case True
    with assms(1,3) have pos: "0 < dbCount m" by (intro open_dbs_card_pos)
    have db: "cl_db cl \<noteq> None" using True assms(2) by (auto simp: open_dbs_None_iff)
    have "open_dbs m - insert ref C = (open_dbs m - C) - {ref}" "ref \<in> open_dbs m - C" using True assms(3) by auto
    then have "card (open_dbs m - insert ref C) = card (open_dbs m - C) - 1" "0 < card (open_dbs m - C)"
      using assms(1) by (auto simp: count_ok_def card_gt_0_iff)
    with assms(1) pos db eq show ?thesis by (auto simp: count_ok_def)
  next
    case False
    then have "cl_db cl = None" using assms(2) by (auto simp: open_dbs_None_iff)
    moreover have "open_dbs m - insert ref C = open_dbs m - C" using False by auto
    ultimately show ?thesis using assms(1) eq by (simp add: count_ok_def)
  qed
qed

lemma count_ok_finish:
  assumes "count_ok m C" and "ref \<in> C"
  shows "count_ok (m\<lparr>heap := (heap m)(ref \<mapsto> cl\<lparr>cl_db := None\<rparr>)\<rparr>) (C - {ref})" (is "count_ok ?m _")
proof -
  have eq: "open_dbs ?m = open_dbs m - {ref}"
    using open_dbs_upd [of ?m m ref "cl\<lparr>cl_db := None\<rparr>"] by simp
  then have "open_dbs ?m - (C - {ref}) = open_dbs m - C" using assms(2) by auto
  with assms(1) eq show ?thesis by (simp add: count_ok_def)
qed

text \<open>Accepting a connection.\<close>

lemma accept_inv:
  assumes inv: "cm_inv s" and free: "Load (connToID (mgr s)) c = None"
    and new: "withNewClient (mgr s) ctx c draws = Some (m, ref, rest)"
  shows "cm_inv (s\<lparr>mgr := m\<rparr>)"
proof -
  obtain i where i: "Load (clients (mgr s)) i = None" "ref = next_ref (mgr s)"
    and m: "m = (mgr s)\<lparr>clients := Store (clients (mgr s)) i ref,
       connToID := Store (connToID (mgr s)) c i,
       heap := (heap (mgr s))(ref \<mapsto>
         \<lparr>cl_ctx = with_conn_id ctx i, cl_ID = i, cl_db = None, cl_conn = None\<rparr>),
       next_ref := Suc ref\<rparr>"
    using new by (rule withNewClient_Some)
  have fresh: "heap (mgr s) ref = None"
    using inv i(2) by (cases "heap (mgr s) ref") (auto simp: cm_inv_def heap_ok_def)
  have "count_ok m (set (ending s))"
    by (rule count_ok_new_client [of "mgr s"]) (use inv fresh in \<open>auto simp: m cm_inv_def\<close>)
  moreover have "ref \<notin> set (ending s)" using pend_okD(2) [of s ref] inv fresh by (auto simp: cm_inv_def)
  then have "heap_ok m (set (ending s))"
    using inv i(2) by (force simp: m cm_inv_def heap_ok_def with_conn_id_def)
  moreover have "tables_ok m"
    using inv i(1) fresh free unfolding m cm_inv_def tables_ok_def
    by (simp add: store_laws) (metis option.distinct(1))
  moreover have "pend_ok (s\<lparr>mgr := m\<rparr>)"
  proof (rule pend_okI)
    show "distinct (pend (s\<lparr>mgr := m\<rparr>) @ ending (s\<lparr>mgr := m\<rparr>))" using inv by (simp add: cm_inv_def pend_ok_def)
  next
    fix r assume "r \<in> set (pend (s\<lparr>mgr := m\<rparr>) @ ending (s\<lparr>mgr := m\<rparr>))"
    then have "heap (mgr s) r \<noteq> None" "\<not> registered_client (mgr s) r" using inv unfolding cm_inv_def pend_ok_def by simp_all
    moreover from this fresh have "r \<noteq> ref" by auto
    ultimately show "heap (mgr (s\<lparr>mgr := m\<rparr>)) r \<noteq> None" and "\<not> registered_client (mgr (s\<lparr>mgr := m\<rparr>)) r"
      by (auto simp: m registered_client_def store_laws split: if_splits)
  qed
  ultimately show ?thesis by (simp add: cm_inv_def)
qed

text \<open>An update of one client that keeps its identifier leaves the tables alone.\<close>

lemma tables_ok_upd:
  assumes "tables_ok m" and "heap m ref = Some cl" and "cl_ID cl' = cl_ID cl"
    and "heap m' = (heap m)(ref \<mapsto> cl')" and "clients m' = clients m" and "connToID m' = connToID m"
  shows "tables_ok m'"
  unfolding tables_ok_def
proof (intro conjI allI impI)
  fix i r assume "Load (clients m') i = Some r"
  with assms(1,5) obtain c where "heap m r = Some c" "cl_ID c = i" by (auto simp: tables_ok_def)
  with assms(2-4) show "\<exists>cl. heap m' r = Some cl \<and> cl_ID cl = i" by (cases "r = ref") auto
next
  fix c i assume "Load (connToID m') c = Some i"
  with assms(1,5,6) show "Load (clients m') i \<noteq> None" unfolding tables_ok_def by metis
next
  fix c d i assume "Load (connToID m') c = Some i" "Load (connToID m') d = Some i"
  with assms(1,6) show "c = d" unfolding tables_ok_def by metis
qed

lemma tables_okD:
  "tables_ok m \<Longrightarrow> Load (clients m) i = Some ref \<Longrightarrow> heap m ref = Some cl \<Longrightarrow> cl_ID cl = i"
  by (force simp: tables_ok_def)

lemma pend_ok_upd:
  assumes "pend_ok s" and "heap (mgr s) ref = Some cl"
    and "heap m' = (heap (mgr s))(ref \<mapsto> cl')" and "clients m' = clients (mgr s)"
    and "set (ps @ es) \<subseteq> set (pend s @ ending s)" and "distinct (ps @ es)"
  shows "pend_ok (s\<lparr>mgr := m', wld := w, pend := ps, ending := es\<rparr>)"
proof (rule pend_okI)
  show "distinct (pend (s\<lparr>mgr := m', wld := w, pend := ps, ending := es\<rparr>) @ ending (s\<lparr>mgr := m', wld := w, pend := ps, ending := es\<rparr>))"
    using assms(6) by simp
next
  fix r assume r: "r \<in> set (pend (s\<lparr>mgr := m', wld := w, pend := ps, ending := es\<rparr>) @
    ending (s\<lparr>mgr := m', wld := w, pend := ps, ending := es\<rparr>))"
  then have "r \<in> set (pend s @ ending s)" using assms(5) by auto
  then have old: "heap (mgr s) r \<noteq> None" "\<not> registered_client (mgr s) r" using assms(1) unfolding pend_ok_def by blast+
  show "heap (mgr (s\<lparr>mgr := m', wld := w, pend := ps, ending := es\<rparr>)) r \<noteq> None" using old(1) assms(3) by simp
  show "\<not> registered_client (mgr (s\<lparr>mgr := m', wld := w, pend := ps, ending := es\<rparr>)) r"
    using old(2) assms(4) by (simp add: registered_client_def)
qed

lemma conn_inv:
  assumes inv: "cm_inv s" and free: "ref \<notin> set (ending s)"
    and conn: "client_Conn api (mgr s) (wld s) ref = (m, w, r)"
  shows "cm_inv (s\<lparr>mgr := m, wld := w\<rparr>)"
  using conn
proof (cases rule: client_Conn_cases)
  case same
  with inv show ?thesis by (simp add: cm_inv_def pend_ok_def)
next
  case (opened cl db conn)
  have "heap_ok m (set (ending s))" using inv opened free by (auto simp: cm_inv_def heap_ok_def)
  moreover have "count_ok m (set (ending s))"
    unfolding opened(5) by (rule count_ok_open) (use inv opened free in \<open>auto simp: cm_inv_def\<close>)
  moreover have "tables_ok m"
    by (rule tables_ok_upd [of "mgr s" ref cl "cl\<lparr>cl_db := Some db, cl_conn := Some conn\<rparr>"])
      (use inv opened in \<open>auto simp: cm_inv_def\<close>)
  moreover have "pend_ok (s\<lparr>mgr := m, wld := w, pend := pend s, ending := ending s\<rparr>)"
    by (rule pend_ok_upd [of s ref cl m "cl\<lparr>cl_db := Some db, cl_conn := Some conn\<rparr>"])
      (use inv opened in \<open>auto simp: cm_inv_def pend_ok_def\<close>)
  ultimately show ?thesis by (simp add: cm_inv_def)
qed

lemma close_count_inv:
  assumes inv: "cm_inv s" and ref: "ref \<in> set (pend s)"
    and close: "client_close_count api (mgr s) (wld s) ref = (m, w, err)"
  shows "cm_inv (s\<lparr>mgr := m, wld := w, pend := remove1 ref (pend s), ending := ref # ending s\<rparr>)"
proof -
  obtain cl where cl: "heap (mgr s) ref = Some cl" using inv ref by (auto simp: cm_inv_def pend_ok_def)
  have free: "ref \<notin> set (ending s)" using inv ref by (auto simp: cm_inv_def pend_ok_def)
  note m = client_close_count_manager [OF close cl]
  have h: "heap m = (heap (mgr s))(ref \<mapsto> cl\<lparr>cl_conn := None\<rparr>)"
    "clients m = clients (mgr s)" "connToID m = connToID (mgr s)" "next_ref m = next_ref (mgr s)"
    by (auto simp: m)
  have "heap_ok m (insert ref (set (ending s)))" using inv cl h by (auto simp: cm_inv_def heap_ok_def)
  moreover have "count_ok m (insert ref (set (ending s)))"
    unfolding m by (rule count_ok_count) (use inv cl free in \<open>auto simp: cm_inv_def\<close>)
  moreover have "tables_ok m"
    by (rule tables_ok_upd [of "mgr s" ref cl "cl\<lparr>cl_conn := None\<rparr>"])
      (use inv cl h in \<open>auto simp: cm_inv_def\<close>)
  moreover have "set (remove1 ref (pend s)) = set (pend s) - {ref}"
    using inv by (intro set_remove1_eq) (simp add: cm_inv_def pend_ok_def)
  then have "pend_ok (s\<lparr>mgr := m, wld := w, pend := remove1 ref (pend s), ending := ref # ending s\<rparr>)"
    by (intro pend_ok_upd [of s ref cl m "cl\<lparr>cl_conn := None\<rparr>"])
      (use inv cl h ref in \<open>auto simp: cm_inv_def pend_ok_def\<close>)
  ultimately show ?thesis by (simp add: cm_inv_def)
qed

lemma close_finish_inv:
  assumes inv: "cm_inv s" and ref: "ref \<in> set (ending s)"
    and close: "client_close_finish api (mgr s) (wld s) ref = (m, w, err)"
  shows "cm_inv (s\<lparr>mgr := m, wld := w, ending := remove1 ref (ending s)\<rparr>)"
proof -
  obtain cl where cl: "heap (mgr s) ref = Some cl" using inv ref by (auto simp: cm_inv_def pend_ok_def)
  note m = client_close_finish_manager [OF close cl]
  have set: "set (remove1 ref (ending s)) = set (ending s) - {ref}"
    using inv by (intro set_remove1_eq) (simp add: cm_inv_def pend_ok_def)
  have "cl_conn cl = None" using inv cl ref by (auto simp: cm_inv_def heap_ok_def)
  then have "heap_ok m (set (ending s) - {ref})" using inv cl by (auto simp: m cm_inv_def heap_ok_def)
  moreover have "count_ok m (set (ending s) - {ref})"
    unfolding m by (rule count_ok_finish) (use inv ref in \<open>auto simp: cm_inv_def\<close>)
  moreover have "tables_ok m"
    by (rule tables_ok_upd [of "mgr s" ref cl "cl\<lparr>cl_db := None\<rparr>"])
      (use inv cl in \<open>auto simp: m cm_inv_def\<close>)
  moreover have "pend_ok (s\<lparr>mgr := m, wld := w, pend := pend s, ending := remove1 ref (ending s)\<rparr>)"
    by (intro pend_ok_upd [of s ref cl m "cl\<lparr>cl_db := None\<rparr>"])
      (use inv cl set in \<open>auto simp: m cm_inv_def pend_ok_def\<close>)
  ultimately show ?thesis by (simp add: cm_inv_def set)
qed

lemma closeConn_tables_ok:
  assumes "tables_ok m" and "Load (connToID m) c = Some i"
  shows "tables_ok (m\<lparr>connToID := Delete (connToID m) c, clients := Delete (clients m) i\<rparr>)"
  using assms unfolding tables_ok_def by (auto simp: store_laws)

lemma state_change_inv:
  assumes inv: "cm_inv s" and change: "ConnState (mgr s) c st = (m, spawned, unknown)"
  shows "cm_inv (s\<lparr>mgr := m, pend := (case spawned of None \<Rightarrow> pend s | Some ref \<Rightarrow> ref # pend s)\<rparr>)"
proof (cases "st = StateClosed")
  case False
  with change inv show ?thesis by (auto simp: ConnState_def cm_inv_def pend_ok_def)
next
  case True
  with change have "closeConn (mgr s) c = (m, spawned, unknown)" by (simp add: ConnState_def)
  then show ?thesis
  proof (cases rule: closeConn_cases)
    case unknown
    moreover have "open_dbs m = open_dbs (mgr s)" by (rule open_dbs_heap) (simp add: unknown(3))
    ultimately show ?thesis
      using inv by (simp add: cm_inv_defs registered_client_def store_laws)
  next
    case (nobody i)
    with inv have False unfolding cm_inv_def tables_ok_def by metis
    then show ?thesis ..
  next
    case (closing i ref)
    obtain cl where cl: "heap (mgr s) ref = Some cl" "cl_ID cl = i"
      using inv closing(2) by (auto simp: cm_inv_def tables_ok_def)
    have gone: "\<not> registered_client m ref"
      using inv cl closing(4) tables_okD [OF _ _ cl(1)] unfolding registered_client_def cm_inv_def
      by (auto simp: store_laws split: if_splits)
    have kept: "registered_client m r \<Longrightarrow> registered_client (mgr s) r" for r
      using closing(4) by (auto simp: registered_client_def store_laws split: if_splits)
    have "tables_ok m"
      unfolding closing(4) using inv closing(1) by (intro closeConn_tables_ok) (auto simp: cm_inv_def)
    moreover have "open_dbs m = open_dbs (mgr s)" by (rule open_dbs_heap) (simp add: closing(4))
    moreover have "pend_ok (s\<lparr>mgr := m, pend := ref # pend s\<rparr>)"
    proof (rule pend_okI)
      have "registered_client (mgr s) ref" using closing(2) by (auto simp: registered_client_def)
      then have "ref \<notin> set (pend s)" "ref \<notin> set (ending s)" using inv pend_okD(3,4) by (auto simp: cm_inv_def)
      then show "distinct (pend (s\<lparr>mgr := m, pend := ref # pend s\<rparr>) @ ending (s\<lparr>mgr := m, pend := ref # pend s\<rparr>))"
        using inv by (simp add: cm_inv_def pend_ok_def)
    next
      fix r assume "r \<in> set (pend (s\<lparr>mgr := m, pend := ref # pend s\<rparr>) @ ending (s\<lparr>mgr := m, pend := ref # pend s\<rparr>))"
      then have "r = ref \<or> r \<in> set (pend s @ ending s)" by auto
      then show "heap (mgr (s\<lparr>mgr := m, pend := ref # pend s\<rparr>)) r \<noteq> None"
        and "\<not> registered_client (mgr (s\<lparr>mgr := m, pend := ref # pend s\<rparr>)) r"
        using cl(1) closing(4) gone kept inv by (auto simp: cm_inv_def pend_ok_def)
    qed
    ultimately show ?thesis
      using inv closing(3,4) by (simp add: cm_inv_def count_ok_def heap_ok_def)
  qed
qed

lemma cm_step_inv: "cm_step api may s t \<Longrightarrow> cm_inv s \<Longrightarrow> cm_inv t"
  by (induction rule: cm_step.induct) (auto intro: accept_inv conn_inv state_change_inv close_count_inv close_finish_inv)

lemma init_inv: "cm_inv (init_sys (new_manager n op cl) w)"
  by (auto simp: cm_inv_defs init_sys_def new_manager_def open_dbs_def has_db_def store_laws)

lemma reachable_inv: "cm_reachable api may s0 s \<Longrightarrow> cm_inv s0 \<Longrightarrow> cm_inv s"
  by (induction rule: cm_reachable.induct) (auto intro: cm_step_inv)

end
