(* ===== verification/Conndb_Props.thy ===== *)
theory Conndb_Props
  imports Conndb_Steps
begin

section \<open>What the connection manager guarantees\<close>

text \<open>
  The properties of \<open>internal/conndb/conndb.go\<close>, from the invariant of \<open>Conndb_Steps\<close>: the accounting
  of databases against \<open>MaxDB\<close>, one database per connection, what closing a connection frees, and what
  happens when a handler asks for the database after its connection was closed. The locale
  \<open>db_provider\<close> is the contract of the opener: each database it opens is a new one.
\<close>

subsection \<open>What no step changes\<close>

lemma withNewClient_MaxDB: "withNewClient m ctx c ds = Some (m', ref, rest) \<Longrightarrow> MaxDB m' = MaxDB m"
  by (elim withNewClient_Some) simp

lemma client_Conn_MaxDB: "client_Conn api m w ref = (m', w', r) \<Longrightarrow> MaxDB m' = MaxDB m"
  by (elim client_Conn_cases) simp_all

lemma closeConn_MaxDB: "closeConn m c = (m', sp, u) \<Longrightarrow> MaxDB m' = MaxDB m"
  by (elim closeConn_cases) simp_all

text \<open>The two halves of \<open>close\<close>, and \<open>close\<close> as a whole.\<close>

lemma client_close_count_cases:
  assumes "client_close_count api m w ref = (m', w', e)"
  obtains (nobody) "heap m ref = None" "m' = m" "w' = w"
  | (counted) cl where "heap m ref = Some cl" "heap m' = (heap m)(ref \<mapsto> cl\<lparr>cl_conn := None\<rparr>)"
      "clients m' = clients m" "connToID m' = connToID m" "MaxDB m' = MaxDB m"
      "Opener m' = Opener m" "Closer m' = Closer m"
      "w' = (case cl_conn cl of None \<Rightarrow> w | Some c \<Rightarrow> fst (sql_conn_close api c w))"
proof (cases "heap m ref")
  case None
  show ?thesis by (rule nobody [OF None]) (use assms None in \<open>auto simp: client_close_count_def\<close>)
next
  case (Some cl)
  note m = client_close_count_manager [OF assms Some]
  have w: "w' = (case cl_conn cl of None \<Rightarrow> w | Some c \<Rightarrow> fst (sql_conn_close api c w))"
    using assms Some by (cases "cl_conn cl") (auto simp: client_close_count_def Let_def split: prod.splits)
  show ?thesis by (rule counted [OF Some _ _ _ _ _ _ w]) (simp_all add: m)
qed

lemma client_close_finish_cases:
  assumes "client_close_finish api m w ref = (m', w', e)"
  obtains (nobody) "heap m ref = None" "m' = m" "w' = w"
  | (finished) cl where "heap m ref = Some cl" "m' = m\<lparr>heap := (heap m)(ref \<mapsto> cl\<lparr>cl_db := None\<rparr>)\<rparr>"
      "w' = (case cl_db cl of None \<Rightarrow> w | Some db \<Rightarrow> fst (closeDB_call api m w db (cl_ID cl)))"
proof (cases "heap m ref")
  case None
  show ?thesis by (rule nobody [OF None]) (use assms None in \<open>auto simp: client_close_finish_def\<close>)
next
  case (Some cl)
  have "w' = (case cl_db cl of None \<Rightarrow> w | Some db \<Rightarrow> fst (closeDB_call api m w db (cl_ID cl)))"
    using assms Some by (cases "cl_db cl") (auto simp: client_close_finish_def split: prod.splits)
  with Some client_close_finish_manager [OF assms Some] show ?thesis by (rule finished)
qed

lemma client_close_split:
  assumes "client_close api m w ref = (m', w', e)"
  obtains m1 w1 e1 e2 where "client_close_count api m w ref = (m1, w1, e1)"
    "client_close_finish api m1 w1 ref = (m', w', e2)"
  using assms by (auto simp: client_close_halves split: prod.splits)

lemma client_close_MaxDB:
  "client_close_count api m w ref = (m', w', e) \<Longrightarrow> MaxDB m' = MaxDB m"
  "client_close_finish api m w ref = (m', w', e) \<Longrightarrow> MaxDB m' = MaxDB m"
  by (erule client_close_count_cases, simp_all) (erule client_close_finish_cases, simp_all)

lemma cm_step_MaxDB: "cm_step api may s t \<Longrightarrow> MaxDB (mgr t) = MaxDB (mgr s)"
  by (induction rule: cm_step.induct)
    (auto simp: ConnState_def withNewClient_MaxDB client_Conn_MaxDB client_close_MaxDB
      dest: closeConn_MaxDB split: if_splits)

lemma reachable_MaxDB: "cm_reachable api may s0 s \<Longrightarrow> MaxDB (mgr s) = MaxDB (mgr s0)"
  by (induction rule: cm_reachable.induct) (auto simp: cm_step_MaxDB)

lemma reachable_init_inv:
  "cm_reachable api may (init_sys (new_manager n op cl) w) s \<Longrightarrow> cm_inv s"
  by (rule reachable_inv [OF _ init_inv])

lemma card_minus_ending:
  assumes "finite A"
  shows "card A \<le> card (A - set es) + length es"
proof -
  have "card A \<le> card ((A - set es) \<union> set es)" using assms by (intro card_mono) auto
  also have "\<dots> \<le> card (A - set es) + card (set es)" by (rule card_Un_le)
  finally show ?thesis using card_length [of es] by linarith
qed

subsection \<open>Only a pending close frees a database\<close>

lemma client_Conn_keeps_db:
  "client_Conn api m w ref' = (m', w', r) \<Longrightarrow> has_db m ref \<Longrightarrow> has_db m' ref"
  by (elim client_Conn_cases) (auto simp: has_db_def)

lemma client_close_count_has_db:
  "client_close_count api m w ref = (m', w', e) \<Longrightarrow> has_db m' r \<longleftrightarrow> has_db m r"
  by (erule client_close_count_cases) (auto simp: has_db_def)

lemma client_close_finish_has_db:
  "client_close_finish api m w ref = (m', w', e) \<Longrightarrow> has_db m' r \<longleftrightarrow> has_db m r \<and> r \<noteq> ref"
  by (erule client_close_finish_cases) (auto simp: has_db_def)

lemma client_close_has_db:
  "client_close api m w ref = (m', w', e) \<Longrightarrow> has_db m' r \<longleftrightarrow> has_db m r \<and> r \<noteq> ref"
  by (erule client_close_split) (simp add: client_close_count_has_db client_close_finish_has_db)

lemma client_close_count_tables:
  "client_close_count api m w ref = (m', w', e) \<Longrightarrow> clients m' = clients m \<and> connToID m' = connToID m"
  by (erule client_close_count_cases) simp_all

lemma client_close_finish_tables:
  "client_close_finish api m w ref = (m', w', e) \<Longrightarrow> clients m' = clients m \<and> connToID m' = connToID m"
  by (erule client_close_finish_cases) simp_all

lemma closeConn_frame:
  assumes "closeConn m c = (m', spawned, unknown)"
  shows "heap m' = heap m" and "registered_client m' x \<Longrightarrow> registered_client m x"
    and "spawned = Some ref \<Longrightarrow> registered_client m ref"
    and "Opener m' = Opener m" and "Closer m' = Closer m"
  using assms
  by (auto elim!: closeConn_cases simp: registered_client_def store_laws split: if_splits)

lemma client_Conn_result:
  assumes "client_Conn api m w ref = (m', w', Inr (Some conn))"
  shows "\<exists>cl. heap m' ref = Some cl \<and> cl_conn cl = Some conn"
proof (cases rule: client_Conn_cases [OF assms])
  case 1
  from assms obtain cl where cl: "heap m ref = Some cl" by (cases "heap m ref") (auto simp: client_Conn_def)
  have "cl_conn cl = Some conn"
  proof (rule ccontr)
    assume n: "cl_conn cl \<noteq> Some conn"
    with assms cl have c: "cl_conn cl = None" "cl_db cl = None"
      by (auto simp: client_Conn_def split: if_splits)
    show False
      using assms cl c 1
      by (cases rule: openDB_cases [of m api w "cl_ctx cl" "cl_ID cl"])
        (auto simp: client_Conn_def dest!: arg_cong [where f = dbCount])
  qed
  with cl 1 show ?thesis by simp
next
  case (2 cl db c)
  then show ?thesis by simp
qed

lemma client_Conn_tables:
  "client_Conn api m w ref = (m', w', r) \<Longrightarrow> clients m' = clients m \<and> connToID m' = connToID m"
  by (elim client_Conn_cases) auto

text \<open>A database is leaked when its client is neither registered nor being closed, nor about to be.\<close>

definition leaked :: "('e, 'w) cm_sys \<Rightarrow> nat \<Rightarrow> bool" where
  "leaked s ref \<longleftrightarrow> has_db (mgr s) ref \<and> \<not> registered_client (mgr s) ref \<and> ref \<notin> set (pend s @ ending s)"

lemma cm_step_leaked:
  assumes "cm_step api may s t" and "cm_inv s" and "leaked s ref"
  shows "leaked t ref"
  using assms
proof (induction rule: cm_step.induct)
  case (accept s c ctx draws m r rest)
  then obtain i where r: "r = next_ref (mgr s)" and m: "m = (mgr s)\<lparr>clients := Store (clients (mgr s)) i r,
       connToID := Store (connToID (mgr s)) c i,
       heap := (heap (mgr s))(r \<mapsto>
         \<lparr>cl_ctx = with_conn_id ctx i, cl_ID = i, cl_db = None, cl_conn = None\<rparr>),
       next_ref := Suc r\<rparr>"
    by (elim withNewClient_Some)
  have "ref \<noteq> r"
    using accept.prems r by (auto simp: cm_inv_def heap_ok_def leaked_def has_db_def)
  then show ?case
    using accept.prems(2) by (auto simp: m leaked_def has_db_def registered_client_def store_laws split: if_splits)
next
  case (conn s r m w res)
  then show ?case
    using client_Conn_keeps_db [OF conn.hyps(3)] client_Conn_tables [OF conn.hyps(3)]
    by (simp add: leaked_def registered_client_def)
next
  case (state_change s c st m spawned unknown)
  show ?case
  proof (cases "st = StateClosed")
    case False
    with state_change show ?thesis by (auto simp: ConnState_def leaked_def)
  next
    case True
    with state_change.hyps have "closeConn (mgr s) c = (m, spawned, unknown)" by (simp add: ConnState_def)
    note frame = closeConn_frame [OF this]
    have "ref \<notin> set (case spawned of None \<Rightarrow> pend s | Some r \<Rightarrow> r # pend s)"
      using state_change.prems(2) frame(3) by (cases spawned) (auto simp: leaked_def)
    with state_change.prems(2) frame(1,2) show ?thesis by (auto simp: leaked_def has_db_def)
  qed
next
  case (close_count r s m w err)
  have "ref \<noteq> r" using close_count.hyps(1) close_count.prems(2) by (auto simp: leaked_def)
  then show ?case
    using close_count.prems(2) client_close_count_has_db [OF close_count.hyps(2)]
      client_close_count_tables [OF close_count.hyps(2)]
    by (auto simp: leaked_def registered_client_def dest: subsetD [OF set_remove1_subset])
next
  case (close_finish r s m w err)
  have "ref \<noteq> r" using close_finish.hyps(1) close_finish.prems(2) by (auto simp: leaked_def)
  then show ?case
    using close_finish.prems(2) client_close_finish_has_db [OF close_finish.hyps(2)]
      client_close_finish_tables [OF close_finish.hyps(2)]
    by (auto simp: leaked_def registered_client_def dest: subsetD [OF set_remove1_subset])
qed

lemma reachable_leaked:
  "cm_reachable api may s t \<Longrightarrow> cm_inv s \<Longrightarrow> leaked s ref \<Longrightarrow> leaked t ref"
  by (induction rule: cm_reachable.induct) (auto intro: cm_step_leaked reachable_inv)

subsection \<open>HTTP/1: handlers use registered clients only\<close>

text \<open>The invariant that needs the discipline: an open database has an owner.\<close>

definition owned :: "('e, 'w) cm_sys \<Rightarrow> bool" where
  "owned s \<longleftrightarrow>
     (\<forall>ref. has_db (mgr s) ref \<longrightarrow> registered_client (mgr s) ref \<or> ref \<in> set (pend s @ ending s)) \<and>
     (\<forall>i. Load (clients (mgr s)) i \<noteq> None \<longrightarrow> (\<exists>c. Load (connToID (mgr s)) c = Some i))"

lemma client_Conn_has_db:
  "client_Conn api m w ref = (m', w', r) \<Longrightarrow> has_db m' x \<Longrightarrow> has_db m x \<or> x = ref"
  by (elim client_Conn_cases) (auto simp: has_db_def split: if_splits)

lemma cm_step_owned:
  assumes "cm_step api registered_client s t" and "cm_inv s" and "owned s"
  shows "owned t"
  using assms
proof (induction rule: cm_step.induct)
  case (accept s c ctx draws m r rest)
  then obtain i where i: "Load (clients (mgr s)) i = None"
    and m: "m = (mgr s)\<lparr>clients := Store (clients (mgr s)) i r,
       connToID := Store (connToID (mgr s)) c i,
       heap := (heap (mgr s))(r \<mapsto>
         \<lparr>cl_ctx = with_conn_id ctx i, cl_ID = i, cl_db = None, cl_conn = None\<rparr>),
       next_ref := Suc r\<rparr>"
    by (elim withNewClient_Some)
  have reg: "registered_client m x" if "registered_client (mgr s) x" for x
  proof -
    from that obtain j where "Load (clients (mgr s)) j = Some x" by (auto simp: registered_client_def)
    moreover from this i have "j \<noteq> i" by auto
    ultimately have "Load (clients m) j = Some x" by (simp add: m store_laws)
    then show ?thesis by (auto simp: registered_client_def)
  qed
  have "has_db m x \<Longrightarrow> has_db (mgr s) x" for x
    by (auto simp: m has_db_def split: if_splits)
  moreover have "\<exists>c'. Load (connToID m) c' = Some j" if "Load (clients m) j \<noteq> None" for j
  proof (cases "j = i")
    case True
    then show ?thesis by (auto simp: m store_laws)
  next
    case False
    with that have "Load (clients (mgr s)) j \<noteq> None" by (simp add: m store_laws)
    then obtain c' where "Load (connToID (mgr s)) c' = Some j" using accept.prems(2) by (auto simp: owned_def)
    moreover from this accept.hyps(1) have "c' \<noteq> c" by auto
    ultimately show ?thesis by (auto simp: m store_laws)
  qed
  ultimately show ?case using accept.prems(2) reg unfolding owned_def
    by simp blast
next
  case (conn s r m w res)
  note tables = client_Conn_tables [OF conn.hyps(3)]
  then have reg: "registered_client m = registered_client (mgr s)"
    by (simp add: registered_client_def fun_eq_iff)
  have "registered_client m x \<or> x \<in> set (pend s @ ending s)" if "has_db m x" for x
    using client_Conn_has_db [OF conn.hyps(3) that] conn.hyps(1) conn.prems(2) tables
    by (auto simp: owned_def registered_client_def)
  with conn.prems(2) tables show ?case by (simp add: owned_def)
next
  case (state_change s c st m spawned unknown)
  show ?case
  proof (cases "st = StateClosed")
    case False
    with state_change show ?thesis by (auto simp: ConnState_def owned_def)
  next
    case True
    with state_change.hyps have "closeConn (mgr s) c = (m, spawned, unknown)" by (simp add: ConnState_def)
    then show ?thesis
    proof (cases rule: closeConn_cases)
      case unknown
      have "Load (connToID m) = Load (connToID (mgr s))"
        using unknown(1,3) by (auto simp: store_laws fun_eq_iff)
      then show ?thesis using state_change.prems(2) unknown
        by (auto simp: owned_def has_db_def registered_client_def)
    next
      case (nobody i)
      with state_change.prems(1) have False unfolding cm_inv_def tables_ok_def by metis
      then show ?thesis ..
    next
      case (closing i ref)
      have "registered_client m x \<or> x = ref" if "registered_client (mgr s) x" for x
      proof (cases "x = ref")
        case False
        from that obtain j where j: "Load (clients (mgr s)) j = Some x"
          by (auto simp: registered_client_def)
        with closing(2) False have "j \<noteq> i" by auto
        with j closing(4) have "Load (clients m) j = Some x" by (simp add: store_laws)
        then show ?thesis by (auto simp: registered_client_def)
      qed simp
      moreover have "has_db m x \<Longrightarrow> has_db (mgr s) x" for x
        using closing(4) by (simp add: has_db_def)
      moreover have "\<exists>c'. Load (connToID m) c' = Some j" if "Load (clients m) j \<noteq> None" for j
      proof -
        from that closing(4) have j: "j \<noteq> i" "Load (clients (mgr s)) j \<noteq> None"
          by (auto simp: store_laws split: if_splits)
        then obtain c' where c': "Load (connToID (mgr s)) c' = Some j"
          using state_change.prems(2) by (auto simp: owned_def)
        with closing(1) j(1) have "c' \<noteq> c" by auto
        with c' closing(4) show ?thesis by (auto simp: store_laws)
      qed
      ultimately show ?thesis
        using state_change.prems(2) closing(3) unfolding owned_def by simp blast
    qed
  qed
next
  case (close_count r s m w err)
  note tables = client_close_count_tables [OF close_count.hyps(2)]
  have "registered_client m x \<or> x \<in> set (remove1 r (pend s) @ r # ending s)" if "has_db m x" for x
    using client_close_count_has_db [OF close_count.hyps(2), of x] that close_count.prems(2) tables
    by (auto simp: owned_def registered_client_def in_set_remove1)
  with close_count.prems(2) tables show ?case by (simp add: owned_def)
next
  case (close_finish r s m w err)
  note tables = client_close_finish_tables [OF close_finish.hyps(2)]
  have "registered_client m x \<or> x \<in> set (pend s @ remove1 r (ending s))" if "has_db m x" for x
    using client_close_finish_has_db [OF close_finish.hyps(2), of x] that close_finish.prems(2) tables
    by (auto simp: owned_def registered_client_def in_set_remove1)
  with close_finish.prems(2) tables show ?case by (simp add: owned_def)
qed

lemma reachable_owned:
  assumes "cm_reachable api registered_client (init_sys (new_manager n op cl) w) s"
  shows "owned s"
  using assms
proof (induction rule: cm_reachable.induct)
  case start
  show ?case by (simp add: owned_def init_sys_def new_manager_def has_db_def store_laws)
next
  case (step s t)
  from step.hyps(1) have "cm_inv s" by (rule reachable_init_inv)
  with step.hyps(2) show ?case using step.IH by (rule cm_step_owned)
qed

text \<open>Letting the close goroutines finish: those that are closing their database, then those that have not
  begun.\<close>

fun finish_all :: "'w sqlapi \<Rightarrow> ('e, 'w) manager \<Rightarrow> 'w \<Rightarrow> nat list \<Rightarrow> ('e, 'w) manager \<times> 'w" where
  "finish_all api m w [] = (m, w)"
| "finish_all api m w (ref # refs) = (let (m1, w1, err) = client_close_finish api m w ref in finish_all api m1 w1 refs)"

fun drain :: "'w sqlapi \<Rightarrow> ('e, 'w) manager \<Rightarrow> 'w \<Rightarrow> nat list \<Rightarrow> ('e, 'w) manager \<times> 'w" where
  "drain api m w [] = (m, w)"
| "drain api m w (ref # refs) = (let (m1, w1, err) = client_close api m w ref in drain api m1 w1 refs)"

definition drained :: "'w sqlapi \<Rightarrow> ('e, 'w) cm_sys \<Rightarrow> ('e, 'w) manager" where
  "drained api s = (let (m, w) = finish_all api (mgr s) (wld s) (ending s) in fst (drain api m w (pend s)))"

lemma finish_all_has_db: "has_db (fst (finish_all api m w refs)) x \<longleftrightarrow> has_db m x \<and> x \<notin> set refs"
proof (induction refs arbitrary: m w)
  case Nil
  then show ?case by simp
next
  case (Cons ref refs)
  obtain m1 w1 e where c: "client_close_finish api m w ref = (m1, w1, e)" by (metis prod_cases3)
  show ?case using Cons.IH [of m1 w1] client_close_finish_has_db [OF c, of x] by (auto simp: c)
qed

lemma drain_has_db: "has_db (fst (drain api m w refs)) x \<longleftrightarrow> has_db m x \<and> x \<notin> set refs"
proof (induction refs arbitrary: m w)
  case Nil
  then show ?case by simp
next
  case (Cons ref refs)
  obtain m1 w1 e where c: "client_close api m w ref = (m1, w1, e)" by (metis prod_cases3)
  show ?case using Cons.IH [of m1 w1] client_close_has_db [OF c, of x] by (auto simp: c)
qed

lemma drained_has_db: "has_db (drained api s) x \<longleftrightarrow> has_db (mgr s) x \<and> x \<notin> set (pend s @ ending s)"
  using finish_all_has_db [of api "mgr s" "wld s" "ending s" x]
  by (auto simp: drained_def split_beta drain_has_db)

lemma client_close_finish_count_ok:
  assumes "client_close_finish api m w ref = (m', w', e)" and "count_ok m C" and "ref \<in> C"
  shows "count_ok m' (C - {ref})"
  using assms(1)
proof (cases rule: client_close_finish_cases)
  case nobody
  then have "open_dbs m - (C - {ref}) = open_dbs m - C" by (auto simp: open_dbs_None_iff)
  with assms(2) nobody show ?thesis by (simp add: count_ok_def)
next
  case (finished cl)
  show ?thesis unfolding finished(2) using assms(2,3) by (rule count_ok_finish)
qed

lemma client_close_count_ok:
  assumes "client_close api m w ref = (m', w', e)" and "count_ok m {}"
  shows "count_ok m' {}"
proof (cases "heap m ref")
  case None
  with assms show ?thesis by (simp add: client_close_def)
next
  case (Some cl)
  from assms(1) show ?thesis
  proof (rule client_close_split)
    fix m1 w1 e1 e2
    assume halves: "client_close_count api m w ref = (m1, w1, e1)" "client_close_finish api m1 w1 ref = (m', w', e2)"
    have "count_ok m1 {ref}"
      unfolding client_close_count_manager [OF halves(1) Some] using count_ok_count [OF assms(2) Some] by simp
    then show ?thesis using client_close_finish_count_ok [OF halves(2)] by fastforce
  qed
qed

lemma finish_all_count_ok:
  "count_ok m C \<Longrightarrow> distinct refs \<Longrightarrow> set refs \<subseteq> C \<Longrightarrow> count_ok (fst (finish_all api m w refs)) (C - set refs)"
proof (induction refs arbitrary: m w C)
  case Nil
  then show ?case by simp
next
  case (Cons ref refs)
  obtain m1 w1 e where c: "client_close_finish api m w ref = (m1, w1, e)" by (metis prod_cases3)
  have "count_ok m1 (C - {ref})" using client_close_finish_count_ok [OF c Cons.prems(1)] Cons.prems(3) by simp
  then have "count_ok (fst (finish_all api m1 w1 refs)) (C - {ref} - set refs)"
    using Cons.prems(2,3) by (intro Cons.IH) auto
  then show ?case by (simp add: c Diff_insert2 [symmetric])
qed

lemma drain_count_ok: "count_ok m {} \<Longrightarrow> count_ok (fst (drain api m w refs)) {}"
proof (induction refs arbitrary: m w)
  case Nil
  then show ?case by simp
next
  case (Cons ref refs)
  obtain m1 w1 e where c: "client_close api m w ref = (m1, w1, e)" by (metis prod_cases3)
  show ?case using Cons.IH [of m1 w1] client_close_count_ok [OF c Cons.prems] by (simp add: c)
qed

lemma drained_count_ok: "cm_inv s \<Longrightarrow> count_ok (drained api s) {}"
  using finish_all_count_ok [of "mgr s" "set (ending s)" "ending s" api "wld s"] pend_okD(6) [of s]
  by (simp add: cm_inv_def drained_def split_beta drain_count_ok)

subsection \<open>The contract of the opener: each database is a new one\<close>

text \<open>\<open>used w\<close> are the database handles that were ever given out up to the world \<open>w\<close>.\<close>

locale db_provider =
  fixes api :: "'w sqlapi" and op :: "('e, 'w) opener" and cls :: "('e, 'w) closer"
    and used :: "'w \<Rightarrow> nat set"
  assumes open_fresh: "op ctx w = (w', Inr (db, conn)) \<Longrightarrow> db \<notin> used w \<and> insert db (used w) \<subseteq> used w'"
    and open_fail: "op ctx w = (w', Inl err) \<Longrightarrow> used w \<subseteq> used w'"
    and idle_used: "used w \<subseteq> used (sql_set_max_idle api db n w)"
    and close_used: "used w \<subseteq> used (fst (cls ctx db w))"
    and conn_close_used: "used w \<subseteq> used (fst (sql_conn_close api conn w))"
begin

text \<open>No two clients share a database.\<close>

definition dbs_ok :: "('e, 'w) cm_sys \<Rightarrow> bool" where
  "dbs_ok s \<longleftrightarrow> Opener (mgr s) = Some op \<and> Closer (mgr s) = Some cls \<and>
     (\<forall>ref cl db. heap (mgr s) ref = Some cl \<longrightarrow> cl_db cl = Some db \<longrightarrow> db \<in> used (wld s)) \<and>
     (\<forall>r1 r2 c1 c2 db. heap (mgr s) r1 = Some c1 \<longrightarrow> heap (mgr s) r2 = Some c2 \<longrightarrow>
        cl_db c1 = Some db \<longrightarrow> cl_db c2 = Some db \<longrightarrow> r1 = r2)"

text \<open>A step keeps this when no client gets a database.\<close>

lemma dbs_ok_shrink:
  assumes ok: "dbs_ok s"
    and sub: "\<And>r c db. heap (mgr t) r = Some c \<Longrightarrow> cl_db c = Some db \<Longrightarrow> \<exists>c'. heap (mgr s) r = Some c' \<and> cl_db c' = Some db"
    and "Opener (mgr t) = Opener (mgr s)" and "Closer (mgr t) = Closer (mgr s)"
    and w: "used (wld s) \<subseteq> used (wld t)"
  shows "dbs_ok t"
  unfolding dbs_ok_def
proof (intro conjI allI impI)
  fix ref cl db assume "heap (mgr t) ref = Some cl" "cl_db cl = Some db"
  from sub [OF this] ok w show "db \<in> used (wld t)" unfolding dbs_ok_def by blast
next
  fix r1 r2 c1 c2 db
  assume "heap (mgr t) r1 = Some c1" "heap (mgr t) r2 = Some c2" "cl_db c1 = Some db" "cl_db c2 = Some db"
  with sub [of r1 c1] sub [of r2 c2] obtain c1' c2' where "heap (mgr s) r1 = Some c1'" "cl_db c1' = Some db"
    "heap (mgr s) r2 = Some c2'" "cl_db c2' = Some db" by blast
  with ok show "r1 = r2" unfolding dbs_ok_def by blast
qed (use assms in \<open>auto simp: dbs_ok_def\<close>)

lemma close_count_dbs_ok:
  assumes ok: "dbs_ok s" and close: "client_close_count api (mgr s) (wld s) ref = (m, w, e)"
    and t: "mgr t = m" "wld t = w"
  shows "dbs_ok t"
  using close
proof (cases rule: client_close_count_cases)
  case nobody
  with t show ?thesis by (intro dbs_ok_shrink [OF ok]) auto
next
  case (counted cl)
  have "used (wld s) \<subseteq> used w" using conn_close_used unfolding counted(8) by (simp split: option.split)
  with t counted show ?thesis by (intro dbs_ok_shrink [OF ok]) (auto split: if_splits)
qed

lemma close_finish_dbs_ok:
  assumes ok: "dbs_ok s" and close: "client_close_finish api (mgr s) (wld s) ref = (m, w, e)"
    and t: "mgr t = m" "wld t = w"
  shows "dbs_ok t"
  using close
proof (cases rule: client_close_finish_cases)
  case nobody
  with t show ?thesis by (intro dbs_ok_shrink [OF ok]) auto
next
  case (finished cl)
  have "Closer (mgr s) = Some cls" using ok by (simp add: dbs_ok_def)
  then have "used (wld s) \<subseteq> used w"
    using close_used unfolding finished(3) by (simp add: closeDB_call_def split: option.split)
  with t finished show ?thesis by (intro dbs_ok_shrink [OF ok]) (auto split: if_splits)
qed

lemma client_Conn_used:
  assumes "client_Conn api m w ref = (m', w', r)" and "Opener m = Some op"
  obtains (same) "m' = m" "used w \<subseteq> used w'"
  | (opened) cl db conn where "heap m ref = Some cl" "cl_db cl = None" "db \<notin> used w"
      "insert db (used w) \<subseteq> used w'"
      "m' = m\<lparr>dbCount := dbCount m + 1,
               heap := (heap m)(ref \<mapsto> cl\<lparr>cl_db := Some db, cl_conn := Some conn\<rparr>)\<rparr>"
proof (cases "heap m ref")
  case None
  with assms same show ?thesis by (simp add: client_Conn_def)
next
  case (Some cl)
  show ?thesis
  proof (cases "cl_conn cl = None \<and> cl_db cl = None \<and> dbCount m < MaxDB m")
    case False
    with Some assms same show ?thesis by (auto simp: client_Conn_def openDB_def split: if_splits)
  next
    case True
    obtain w1 res where o: "op (with_conn_id (cl_ctx cl) (cl_ID cl)) w = (w1, res)" by fastforce
    show ?thesis
    proof (cases res)
      case (Inl err)
      with o open_fail have "used w \<subseteq> used w1" by blast
      with Some True assms o Inl same show ?thesis by (simp add: client_Conn_def openDB_def)
    next
      case (Inr h)
      obtain db conn where h: "h = (db, conn)" by fastforce
      with o Inr open_fresh have db: "db \<notin> used w" "insert db (used w) \<subseteq> used w1" by blast+
      have "client_Conn api m w ref = (m\<lparr>dbCount := dbCount m + 1,
               heap := (heap m)(ref \<mapsto> cl\<lparr>cl_db := Some db, cl_conn := Some conn\<rparr>)\<rparr>,
             sql_set_max_idle api db 0 w1, Inr (Some conn))"
        using Some True assms(2) o Inr h by (simp add: client_Conn_def openDB_def)
      with assms(1) have m': "m' = m\<lparr>dbCount := dbCount m + 1,
               heap := (heap m)(ref \<mapsto> cl\<lparr>cl_db := Some db, cl_conn := Some conn\<rparr>)\<rparr>"
        and w': "w' = sql_set_max_idle api db 0 w1" by simp_all
      show ?thesis
      proof (rule opened [OF Some _ db(1) _ m'])
        show "cl_db cl = None" using True by simp
        show "insert db (used w) \<subseteq> used w'" using db(2) idle_used unfolding w' by (rule subset_trans)
      qed
    qed
  qed
qed

lemma step_dbs_ok:
  assumes "cm_step api may s t" and "cm_inv s" and "dbs_ok s"
  shows "dbs_ok t"
  using assms
proof (induction rule: cm_step.induct)
  case (accept s c ctx draws m r rest)
  then obtain i where m: "m = (mgr s)\<lparr>clients := Store (clients (mgr s)) i r,
       connToID := Store (connToID (mgr s)) c i,
       heap := (heap (mgr s))(r \<mapsto>
         \<lparr>cl_ctx = with_conn_id ctx i, cl_ID = i, cl_db = None, cl_conn = None\<rparr>),
       next_ref := Suc r\<rparr>"
    by (elim withNewClient_Some)
  show ?case by (rule dbs_ok_shrink [OF accept.prems(2)]) (auto simp: m split: if_splits)
next
  case (conn s r m w res)
  have "Opener (mgr s) = Some op" using conn.prems(2) by (simp add: dbs_ok_def)
  with conn.hyps(3) show ?case
  proof (cases rule: client_Conn_used)
    case same
    with conn.prems(2) show ?thesis by (auto simp: dbs_ok_def)
  next
    case (opened cl db cn)
    have old: "db' \<in> used (wld s) \<and> db' \<noteq> db" if "heap (mgr s) x = Some c'" "cl_db c' = Some db'" for x c' db'
      using that conn.prems(2) opened(3) unfolding dbs_ok_def by blast
    have uniq: "r1 = r2" if "heap (mgr s) r1 = Some c1" "heap (mgr s) r2 = Some c2"
        "cl_db c1 = Some d" "cl_db c2 = Some d" for r1 r2 c1 c2 d
      using that conn.prems(2) unfolding dbs_ok_def by blast
    show ?thesis
      using conn.prems(2) opened(4,5) old uniq by (auto simp: dbs_ok_def)
  qed
next
  case (state_change s c st m spawned unknown)
  have "heap m = heap (mgr s) \<and> Opener m = Opener (mgr s) \<and> Closer m = Closer (mgr s)"
    using state_change.hyps closeConn_frame(1,4,5) [of "mgr s" c m spawned unknown]
    by (auto simp: ConnState_def split: if_splits)
  with state_change.prems(2) show ?case by (auto simp: dbs_ok_def)
next
  case (close_count r s m w err)
  show ?case by (rule close_count_dbs_ok [OF close_count.prems(2) close_count.hyps(2)]) simp_all
next
  case (close_finish r s m w err)
  show ?case by (rule close_finish_dbs_ok [OF close_finish.prems(2) close_finish.hyps(2)]) simp_all
qed

lemma reachable_dbs_ok:
  assumes "cm_reachable api may (init_sys (new_manager n (Some op) (Some cls)) w) s"
  shows "dbs_ok s"
  using assms
proof (induction rule: cm_reachable.induct)
  case start
  show ?case by (simp add: dbs_ok_def init_sys_def new_manager_def)
next
  case (step s t)
  from step.hyps(1) have "cm_inv s" by (rule reachable_init_inv)
  with step.hyps(2) show ?case using step.IH by (rule step_dbs_ok)
qed

text \<open>Two different connections have different databases.\<close>

lemma isolation:
  assumes reach: "cm_reachable api may (init_sys (new_manager n (Some op) (Some cls)) w) s"
    and c: "Load (connToID (mgr s)) c = Some i" "Load (connToID (mgr s)) d = Some j" "c \<noteq> d"
    and r: "Load (clients (mgr s)) i = Some r1" "Load (clients (mgr s)) j = Some r2"
    and h: "heap (mgr s) r1 = Some c1" "heap (mgr s) r2 = Some c2"
    and db: "cl_db c1 = Some db1" "cl_db c2 = Some db2"
  shows "i \<noteq> j \<and> r1 \<noteq> r2 \<and> db1 \<noteq> db2"
proof -
  have tables: "tables_ok (mgr s)" using reachable_init_inv [OF reach] by (simp add: cm_inv_def)
  with c have ij: "i \<noteq> j" unfolding tables_ok_def by metis
  moreover have "r1 \<noteq> r2"
    using tables_okD [OF tables r(1) h(1)] tables_okD [OF tables r(2) h(2)] h ij by auto
  moreover have "db1 \<noteq> db2"
    using reachable_dbs_ok [OF reach] h db \<open>r1 \<noteq> r2\<close> unfolding dbs_ok_def by blast
  ultimately show ?thesis by blast
qed

end

subsection \<open>A small instance, on which the properties are exercised\<close>

text \<open>The world counts the databases opened so far; a handle is that number.\<close>

definition demo_api :: "nat sqlapi" where
  "demo_api = \<lparr>sql_db_close = (\<lambda>db w. (w, None)), sql_conn_close = (\<lambda>conn w. (w, None)),
     sql_set_max_idle = (\<lambda>db n w. w)\<rparr>"

definition demo_open :: "(unit, nat) opener" where
  "demo_open = (\<lambda>ctx w. (Suc w, Inr (w, w)))"

definition demo_close :: "(unit, nat) closer" where
  "demo_close = (\<lambda>ctx db w. (w, None))"

definition demo_mgr :: "(unit, nat) manager" where
  "demo_mgr = new_manager 1 (Some demo_open) (Some demo_close)"

definition demo_client :: "unit client" where
  "demo_client = \<lparr>cl_ctx = with_conn_id background 5, cl_ID = 5, cl_db = None, cl_conn = None\<rparr>"

definition demo_accepted :: "(unit, nat) manager" where
  "demo_accepted = demo_mgr\<lparr>clients := Store sm_zero 5 0, connToID := Store sm_zero 7 5,
     heap := Map.empty(0 \<mapsto> demo_client), next_ref := 1\<rparr>"

definition demo_connected :: "(unit, nat) manager" where
  "demo_connected = demo_accepted\<lparr>dbCount := 1,
     heap := (heap demo_accepted)(0 \<mapsto> demo_client\<lparr>cl_db := Some 0, cl_conn := Some 0\<rparr>)\<rparr>"

lemmas demo_defs = demo_api_def demo_open_def demo_close_def demo_mgr_def demo_client_def
  demo_accepted_def demo_connected_def new_manager_def

lemma demo_accept: "withNewClient demo_mgr background 7 [5] = Some (demo_accepted, 0, [])"
  by (simp add: withNewClient_def demo_defs new_id_loop_eq store_laws)

lemma demo_conn: "client_Conn demo_api demo_accepted 0 0 = (demo_connected, 1, Inr (Some 0))"
  by (simp add: client_Conn_def openDB_def demo_defs)

lemma demo_reach_accepted:
  "cm_reachable demo_api may (init_sys demo_mgr 0) (init_sys demo_accepted 0)"
proof -
  have "cm_step demo_api may (init_sys demo_mgr 0) ((init_sys demo_mgr 0)\<lparr>mgr := demo_accepted\<rparr>)"
    by (rule cm_step.accept [where c = 7 and ctx = background and draws = "[5]" and ref = 0 and rest = "[]"])
      (simp_all add: init_sys_def demo_accept, simp add: demo_defs store_laws)
  then show ?thesis
    using cm_reachable.step [OF cm_reachable.start] by (fastforce simp: init_sys_def)
qed

lemma demo_registered: "registered_client demo_accepted 0"
  by (auto simp: registered_client_def demo_defs store_laws)

lemma demo_reach_connected:
  assumes "may demo_accepted 0"
  shows "cm_reachable demo_api may (init_sys demo_mgr 0) (init_sys demo_connected 1)"
proof -
  have "cm_step demo_api may (init_sys demo_accepted 0)
      ((init_sys demo_accepted 0)\<lparr>mgr := demo_connected, wld := 1\<rparr>)"
    by (rule cm_step.conn [where ref = 0 and r = "Inr (Some 0)"])
      (simp_all add: init_sys_def demo_conn assms)
  then show ?thesis
    using cm_reachable.step [OF demo_reach_accepted] by (fastforce simp: init_sys_def)
qed

definition demo_closed :: "(unit, nat) cm_sys" where
  "demo_closed = \<lparr>mgr = demo_connected\<lparr>connToID := Delete (Store sm_zero 7 5) 7,
     clients := Delete (Store sm_zero 5 0) 5\<rparr>, wld = 1, pend = [0], ending = []\<rparr>"

lemma demo_reach_closed:
  assumes "may demo_accepted 0"
  shows "cm_reachable demo_api may (init_sys demo_mgr 0) demo_closed"
proof -
  have "ConnState demo_connected 7 StateClosed = (mgr demo_closed, Some 0, False)"
    by (simp add: ConnState_def closeConn_def smap.take_out_eq demo_closed_def demo_defs store_laws)
  then have "cm_step demo_api may (init_sys demo_connected 1)
      ((init_sys demo_connected 1)\<lparr>mgr := mgr demo_closed,
        pend := (case Some 0 of None \<Rightarrow> [] | Some r \<Rightarrow> r # [])\<rparr>)"
    using cm_step.state_change [of "init_sys demo_connected 1" 7 StateClosed "mgr demo_closed" "Some 0" False
        demo_api may]
    by (simp add: init_sys_def)
  then show ?thesis
    using cm_reachable.step [where ?s0.0 = "init_sys demo_mgr 0", 
        OF demo_reach_connected [where may = may, OF assms]]
    by (fastforce simp: init_sys_def demo_closed_def)
qed

text \<open>The goroutine of the closed connection has counted down and is closing its database; a second
  connection opens one meanwhile.\<close>

definition demo_counted :: "(unit, nat) cm_sys" where
  "demo_counted = \<lparr>mgr = (mgr demo_closed)\<lparr>dbCount := 0,
     heap := Map.empty(0 \<mapsto> demo_client\<lparr>cl_db := Some 0\<rparr>)\<rparr>, wld = 1, pend = [], ending = [0]\<rparr>"

definition demo_client2 :: "unit client" where
  "demo_client2 = \<lparr>cl_ctx = with_conn_id background 6, cl_ID = 6, cl_db = None, cl_conn = None\<rparr>"

definition demo_second :: "(unit, nat) cm_sys" where
  "demo_second = demo_counted\<lparr>mgr := (mgr demo_counted)\<lparr>
     clients := Store (Delete (Store sm_zero 5 0) 5) 6 1, connToID := Store (Delete (Store sm_zero 7 5) 7) 8 6,
     heap := (heap (mgr demo_counted))(1 \<mapsto> demo_client2), next_ref := 2\<rparr>\<rparr>"

definition demo_over :: "(unit, nat) cm_sys" where
  "demo_over = demo_second\<lparr>mgr := (mgr demo_second)\<lparr>dbCount := 1,
     heap := (heap (mgr demo_second))(1 \<mapsto> demo_client2\<lparr>cl_db := Some 1, cl_conn := Some 1\<rparr>)\<rparr>, wld := 2\<rparr>"

definition demo_late :: "(unit, nat) cm_sys" where
  "demo_late = \<lparr>mgr = (mgr demo_closed)\<lparr>dbCount := 0, heap := Map.empty(0 \<mapsto> demo_client)\<rparr>,
     wld = 1, pend = [], ending = []\<rparr>"

lemmas demo_sys_defs = demo_closed_def demo_counted_def demo_second_def demo_over_def demo_late_def demo_client2_def demo_defs

lemma demo_step_counted: "cm_step demo_api may demo_closed demo_counted"
proof -
  have "client_close_count demo_api (mgr demo_closed) 1 0 = (mgr demo_counted, 1, None)"
    by (simp add: client_close_count_def closeDB_count_def demo_sys_defs Let_def)
  then have "cm_step demo_api may demo_closed (demo_closed\<lparr>mgr := mgr demo_counted, wld := 1,
      pend := remove1 0 (pend demo_closed), ending := 0 # ending demo_closed\<rparr>)"
    by (intro cm_step.close_count) (auto simp: demo_closed_def)
  then show ?thesis by (simp add: demo_closed_def demo_counted_def)
qed

lemma demo_step_second: "cm_step demo_api may demo_counted demo_second"
proof -
  have "withNewClient (mgr demo_counted) background 8 [6] = Some (mgr demo_second, 1, [])"
    by (simp add: withNewClient_def demo_sys_defs new_id_loop_eq store_laws)
  then have "cm_step demo_api may demo_counted (demo_counted\<lparr>mgr := mgr demo_second\<rparr>)"
    by (intro cm_step.accept [where c = 8 and ctx = background and draws = "[6]"])
      (simp_all add: demo_sys_defs store_laws)
  then show ?thesis by (simp add: demo_second_def)
qed

lemma demo_step_over:
  assumes "may (mgr demo_second) 1"
  shows "cm_step demo_api may demo_second demo_over"
proof -
  have "client_Conn demo_api (mgr demo_second) (wld demo_second) 1 = (mgr demo_over, 2, Inr (Some 1))"
    by (simp add: client_Conn_def openDB_def demo_sys_defs numeral_2_eq_2)
  then have "cm_step demo_api may demo_second (demo_second\<lparr>mgr := mgr demo_over, wld := 2\<rparr>)"
    using assms by (intro cm_step.conn [where ref = 1]) (simp_all add: demo_second_def demo_counted_def)
  then show ?thesis by (simp add: demo_over_def)
qed

lemma demo_reach_counted:
  "may demo_accepted 0 \<Longrightarrow> cm_reachable demo_api may (init_sys demo_mgr 0) demo_counted"
  by (rule cm_reachable.step [OF demo_reach_closed demo_step_counted])

lemma demo_reach_over:
  assumes "may demo_accepted 0" and "may (mgr demo_second) 1"
  shows "cm_reachable demo_api may (init_sys demo_mgr 0) demo_over"
  using cm_reachable.step [OF cm_reachable.step [OF demo_reach_counted [where may = may, OF assms(1)]
    demo_step_second [where may = may]] demo_step_over [where may = may, OF assms(2)]] .

lemma demo_second_registered: "registered_client (mgr demo_second) 1"
  unfolding registered_client_def by (rule exI [where x = 6]) (simp add: demo_sys_defs store_laws)

lemma demo_reach_late:
  assumes "may demo_accepted 0"
  shows "cm_reachable demo_api may (init_sys demo_mgr 0) demo_late"
proof -
  have "client_close_finish demo_api (mgr demo_counted) 1 0 = (mgr demo_late, 1, None)"
    by (simp add: client_close_finish_def closeDB_call_def demo_sys_defs Let_def)
  then have "cm_step demo_api may demo_counted (demo_counted\<lparr>mgr := mgr demo_late, wld := 1, ending := remove1 0 (ending demo_counted)\<rparr>)"
    by (intro cm_step.close_finish) (auto simp: demo_counted_def)
  then have "cm_step demo_api may demo_counted demo_late" by (simp add: demo_counted_def demo_late_def)
  with demo_reach_counted [where may = may, OF assms] show ?thesis by (rule cm_reachable.step)
qed

subsection \<open>The properties\<close>

text \<open>
  C1. Accounting. In every state the manager can reach, whatever clients the handlers use and
  however the steps interleave, its counter is the number of clients that have a database open and are
  not just closing it, and never above \<open>MaxDB\<close>; so at most \<open>MaxDB\<close> databases are open and one for every
  goroutine that is closing its own. In the tables every connection has its own identifier and
  every identifier its own client, which knows it; every client has a connection exactly when it has a
  database that it is not closing; and the clients being closed, each once, are registered no more.
\<close>

theorem manager_accounting:
  assumes "0 \<le> n" and "cm_reachable api may (init_sys (new_manager n op cl) w) s"
  shows "dbCount (mgr s) = int (card (open_dbs (mgr s) - set (ending s))) \<and> dbCount (mgr s) \<le> n \<and>
    finite (open_dbs (mgr s)) \<and> int (card (open_dbs (mgr s))) \<le> n + int (length (ending s)) \<and>
    tables_ok (mgr s) \<and> heap_ok (mgr s) (set (ending s)) \<and> pend_ok s"
proof -
  have max: "MaxDB (mgr s) = n"
    using reachable_MaxDB [OF assms(2)] by (simp add: init_sys_def new_manager_def)
  have inv: "cm_inv s" using assms(2) by (rule reachable_init_inv)
  then have fin: "finite (open_dbs (mgr s))" by (simp add: cm_inv_def count_ok_def)
  then have "card (open_dbs (mgr s)) \<le> card (open_dbs (mgr s) - set (ending s)) + length (ending s)"
    by (rule card_minus_ending)
  with inv fin max assms(1) show ?thesis by (simp add: cm_inv_def count_ok_def)
qed

theorem manager_accounting_witness:
  "cm_reachable demo_api any_client (init_sys demo_mgr 0) demo_over \<and> ending demo_over = [0] \<and>
   open_dbs (mgr demo_over) = {0, 1} \<and> dbCount (mgr demo_over) = 1 \<and> MaxDB (mgr demo_over) = 1 \<and>
   card (open_dbs (mgr demo_over) - set (ending demo_over)) = 1"
proof -
  have r: "cm_reachable demo_api any_client (init_sys demo_mgr 0) demo_over"
    by (rule demo_reach_over) (simp_all add: any_client_def demo_sys_defs)
  have "dbCount (mgr demo_over) = int (card (open_dbs (mgr demo_over) - set (ending demo_over)))"
    using manager_accounting [OF _ r [unfolded demo_mgr_def]] by simp
  moreover have "open_dbs (mgr demo_over) = {0, 1}" by (auto simp: open_dbs_None_iff demo_sys_defs split: if_splits)
  moreover have "dbCount (mgr demo_over) = 1" "MaxDB (mgr demo_over) = 1" "ending demo_over = [0]"
    by (simp_all add: demo_sys_defs)
  ultimately show ?thesis using r by simp
qed

text \<open>At the limit a client that has no database gets \<open>ErrMaxDB\<close>, and nothing changes.\<close>

lemma client_Conn_full:
  assumes "heap m ref = Some cl" and "MaxDB m \<le> dbCount m"
  shows "client_Conn api m w ref =
    (m, w, if cl_conn cl = None \<and> cl_db cl = None then Inl ErrMaxDB else Inr (cl_conn cl))"
  using assms by (simp add: client_Conn_def openDB_def)

text \<open>
  C10. No leak under HTTP/1. When handlers use the clients of open connections only, then once every
  connection is closed and the close goroutines have run to their end, the ones that are closing their
  database and the ones that have not begun, no database is open and the counter is zero.
\<close>

theorem shutdown_drains:
  assumes reach: "cm_reachable api registered_client (init_sys (new_manager n op cl) w) s"
    and closed: "\<And>c. Load (connToID (mgr s)) c = None"
  shows "open_dbs (drained api s) = {} \<and> dbCount (drained api s) = 0"
proof -
  have own: "owned s" using reach by (rule reachable_owned)
  with closed have "\<not> registered_client (mgr s) ref" for ref
    by (auto simp: owned_def registered_client_def)
  with own have "open_dbs (drained api s) = {}" by (auto simp: open_dbs_def drained_has_db owned_def)
  moreover have "count_ok (drained api s) {}" using reachable_init_inv [OF reach] by (rule drained_count_ok)
  ultimately show ?thesis by (simp add: count_ok_def)
qed

theorem shutdown_drains_witness:
  "dbCount (mgr demo_closed) = 1 \<and> dbCount (drained demo_api demo_closed) = 0"
proof -
  have r: "cm_reachable demo_api registered_client (init_sys demo_mgr 0) demo_closed"
    using demo_registered by (rule demo_reach_closed)
  have c: "Load (connToID (mgr demo_closed)) c = None" for c
    by (simp add: demo_closed_def store_laws)
  show ?thesis
    using shutdown_drains [OF r [unfolded demo_mgr_def] c] by (simp add: demo_closed_def demo_defs)
qed

text \<open>
  C31. A late \<open>Conn\<close> leaks for ever. If a handler that still holds the client of a closed connection
  asks it for the database after the close goroutine has run, the client opens a new database, and
  nothing the manager does later ever closes it: the slot stays taken in every later state.
\<close>

theorem late_conn_leaks:
  assumes reach: "cm_reachable api may (init_sys (new_manager n op cl) w) s"
    and late: "\<not> registered_client (mgr s) ref" "ref \<notin> set (pend s @ ending s)" "may (mgr s) ref"
    and conn: "client_Conn api (mgr s) (wld s) ref = (m, w', Inr (Some c))"
    and later: "cm_reachable api may (s\<lparr>mgr := m, wld := w'\<rparr>) t"
  shows "has_db (mgr t) ref \<and> 1 \<le> dbCount (mgr t)"
proof -
  have inv: "cm_inv s" using reach by (rule reachable_init_inv)
  have inv': "cm_inv (s\<lparr>mgr := m, wld := w'\<rparr>)" using inv _ conn by (rule conn_inv) (use late(2) in simp)
  obtain cl' where cl': "heap m ref = Some cl'" "cl_conn cl' = Some c"
    using client_Conn_result [OF conn] by blast
  then have "cl_db cl' \<noteq> None" using inv' by (force simp: cm_inv_def heap_ok_def)
  with cl'(1) have "has_db m ref" by (auto simp: has_db_def)
  moreover have "\<not> registered_client m ref"
    using late(1) client_Conn_tables [OF conn] by (simp add: registered_client_def)
  ultimately have "leaked (s\<lparr>mgr := m, wld := w'\<rparr>) ref" using late(2) by (simp add: leaked_def)
  with later inv' have "leaked t ref" by (rule reachable_leaked)
  then have "ref \<in> open_dbs (mgr t)" by (simp add: leaked_def open_dbs_def)
  moreover have "ref \<notin> set (ending t)" using \<open>leaked t ref\<close> by (simp add: leaked_def)
  moreover have "count_ok (mgr t) (set (ending t))" using reachable_inv [OF later inv'] by (simp add: cm_inv_def)
  ultimately show ?thesis using open_dbs_card_pos by (fastforce simp: open_dbs_def)
qed

theorem late_conn_leaks_witness:
  "\<exists>m. client_Conn demo_api (mgr demo_late) (wld demo_late) 0 = (m, 2, Inr (Some 1)) \<and>
     has_db m 0 \<and> 1 \<le> dbCount m"
proof -
  have a: "any_client demo_accepted 0" by (simp add: any_client_def demo_defs)
  have r: "cm_reachable demo_api any_client (init_sys demo_mgr 0) demo_late"
    using a by (rule demo_reach_late)
  obtain m where c: "client_Conn demo_api (mgr demo_late) (wld demo_late) 0 = (m, 2, Inr (Some 1))"
    by (simp add: client_Conn_def openDB_def demo_late_def demo_closed_def demo_defs numeral_2_eq_2)
  have l: "\<not> registered_client (mgr demo_late) 0" "0 \<notin> set (pend demo_late @ ending demo_late)" "any_client (mgr demo_late) 0"
    by (simp_all add: registered_client_def any_client_def demo_late_def demo_closed_def demo_defs store_laws)
  show ?thesis
    using late_conn_leaks [OF r [unfolded demo_mgr_def] l c cm_reachable.start] c by simp
qed

text \<open>
  C24. Accepting returns. The loop that draws an identifier ends as soon as one draw is not taken,
  and the connection then has a new client under that identifier, registered and without a database.
\<close>

theorem accept_returns:
  assumes "d \<in> set draws" and "Load (clients m) d = None"
  shows "\<exists>m' ref rest i. withNewClient m ctx c draws = Some (m', ref, rest) \<and>
    Load (clients m) i = None \<and> Load (clients m') i = Some ref \<and> Load (connToID m') c = Some i \<and>
    heap m' ref = Some \<lparr>cl_ctx = with_conn_id ctx i, cl_ID = i, cl_db = None, cl_conn = None\<rparr>"
proof -
  obtain i rest where "id_loop_draw (clients m) draws = Some (i, rest)"
    using calloc.alloc_returns assms by blast
  moreover from this have "Load (clients m) i = None" using calloc.alloc_fresh by blast
  ultimately show ?thesis by (auto simp: withNewClient_def new_id_loop_draw store_laws Let_def)
qed

theorem accept_returns_witness:
  "\<exists>m' ref rest i. withNewClient demo_accepted background 8 [5, 5, 6] = Some (m', ref, rest) \<and>
     Load (clients m') i = Some ref"
proof -
  have "6 \<in> set [5, 5, 6 :: u32]" "Load (clients demo_accepted) 6 = None"
    by (simp_all add: demo_defs store_laws)
  from accept_returns [OF this, of background 8] show ?thesis by blast
qed

end
