(* ===== verification/Httperror.thy ===== *)
theory Httperror
  imports Writer
begin

section \<open>internal/httperror: errors that are HTTP responses\<close>

text \<open>
  \<open>internal/httperror/httperror.go\<close>. A handler returns a Go \<open>error\<close>: a \<open>*httperror.Error\<close>, which
  has a status, a format and its arguments, or any other error, of which only the text is seen.
\<close>

record http_error =
  he_status :: nat
  he_format :: gostr
  he_args :: "gostr list"

datatype goerr = HttpErr http_error | OtherErr gostr

text \<open>\<open>http.StatusText\<close>; the empty string for a status without a name.\<close>

definition status_text :: "nat \<Rightarrow> gostr" where
  "status_text code = (case map_of
     [(100, ''Continue''), (101, ''Switching Protocols''), (102, ''Processing''), (103, ''Early Hints''),
      (200, ''OK''), (201, ''Created''), (202, ''Accepted''), (203, ''Non-Authoritative Information''),
      (204, ''No Content''), (205, ''Reset Content''), (206, ''Partial Content''),
      (207, ''Multi-Status''), (208, ''Already Reported''), (226, ''IM Used''),
      (300, ''Multiple Choices''), (301, ''Moved Permanently''), (302, ''Found''), (303, ''See Other''),
      (304, ''Not Modified''), (305, ''Use Proxy''), (307, ''Temporary Redirect''),
      (308, ''Permanent Redirect''), (400, ''Bad Request''), (401, ''Unauthorized''),
      (402, ''Payment Required''), (403, ''Forbidden''), (404, ''Not Found''),
      (405, ''Method Not Allowed''), (406, ''Not Acceptable''),
      (407, ''Proxy Authentication Required''), (408, ''Request Timeout''), (409, ''Conflict''),
      (410, ''Gone''), (411, ''Length Required''), (412, ''Precondition Failed''),
      (413, ''Request Entity Too Large''), (414, ''Request URI Too Long''),
      (415, ''Unsupported Media Type''), (416, ''Requested Range Not Satisfiable''),
      (417, ''Expectation Failed''), (418, ''I'' @ [CHR 0x27] @ ''m a teapot''),
      (421, ''Misdirected Request''), (422, ''Unprocessable Entity''), (423, ''Locked''),
      (424, ''Failed Dependency''), (425, ''Too Early''), (426, ''Upgrade Required''),
      (428, ''Precondition Required''), (429, ''Too Many Requests''),
      (431, ''Request Header Fields Too Large''), (451, ''Unavailable For Legal Reasons''),
      (500, ''Internal Server Error''), (501, ''Not Implemented''), (502, ''Bad Gateway''),
      (503, ''Service Unavailable''), (504, ''Gateway Timeout''),
      (505, ''HTTP Version Not Supported''), (506, ''Variant Also Negotiates''),
      (507, ''Insufficient Storage''), (508, ''Loop Detected''), (510, ''Not Extended''),
      (511, ''Network Authentication Required'')] code of None \<Rightarrow> [] | Some t \<Rightarrow> t)"

definition httperror_Newf :: "nat \<Rightarrow> gostr \<Rightarrow> gostr list \<Rightarrow> goerr" where
  "httperror_Newf status fmt args = HttpErr \<lparr>he_status = status, he_format = fmt, he_args = args\<rparr>"

definition httperror_New :: "nat \<Rightarrow> goerr" where
  "httperror_New status = httperror_Newf status (status_text status) []"

definition http_error_text :: "(gostr \<Rightarrow> gostr list \<Rightarrow> gostr) \<Rightarrow> http_error \<Rightarrow> gostr" where
  "http_error_text fx e = sprintf fx (he_format e) (he_args e)"

definition http_error_Code :: "http_error \<Rightarrow> nat" where
  "http_error_Code e = he_status e"

text \<open>\<open>http.Error\<close> of the standard library: it resets the content headers, sends the status, and
  prints the message and a newline.\<close>

definition w_del_header :: "writer \<Rightarrow> gostr \<Rightarrow> writer" where
  "w_del_header w k = (case w of
     Plain r \<Rightarrow> Plain (r\<lparr>rs_header := (rs_header r)(k := None)\<rparr>)
   | Wrapped ww \<Rightarrow> Wrapped (ww\<lparr>ww_base := (ww_base ww)\<lparr>rs_header := (rs_header (ww_base ww))(k := None)\<rparr>\<rparr>))"

definition http_Error :: "writer \<Rightarrow> gostr \<Rightarrow> nat \<Rightarrow> writer" where
  "http_Error w msg code =
     (let w1 = w_del_header w ''Content-Length'';
          w2 = w_set w1 ''Content-Type'' ''text/plain; charset=utf-8'';
          w3 = w_set w2 ''X-Content-Type-Options'' ''nosniff'';
          w4 = w_write_header w3 code in
      fst (w_write w4 (msg @ [CHR 0x0A])))"

definition httperror_Write :: "(gostr \<Rightarrow> gostr list \<Rightarrow> gostr) \<Rightarrow> writer \<Rightarrow> goerr \<Rightarrow> writer" where
  "httperror_Write fx w err = (case err of
     OtherErr text \<Rightarrow> http_Error w text 500
   | HttpErr e \<Rightarrow> http_Error w (http_error_text fx e) (http_error_Code e))"

text \<open>The status an error asks for, and the message it prints.\<close>

definition err_code :: "goerr \<Rightarrow> nat" where
  "err_code err = (case err of OtherErr text \<Rightarrow> 500 | HttpErr e \<Rightarrow> he_status e)"

definition err_text :: "(gostr \<Rightarrow> gostr list \<Rightarrow> gostr) \<Rightarrow> goerr \<Rightarrow> gostr" where
  "err_text fx err = (case err of OtherErr text \<Rightarrow> text | HttpErr e \<Rightarrow> http_error_text fx e)"

lemma httperror_Write_eq:
  "httperror_Write fx w err = http_Error w (err_text fx err) (err_code err)"
  by (simp add: httperror_Write_def err_text_def err_code_def http_error_Code_def split: goerr.split)

lemma err_code_Newf [simp]: "err_code (httperror_Newf c f args) = c"
  by (simp add: httperror_Newf_def err_code_def)

lemma err_code_New [simp]: "err_code (httperror_New c) = c"
  by (simp add: httperror_New_def)

lemma w_del_header_resp [simp]:
  "w_resp (w_del_header w k) = (w_resp w)\<lparr>rs_header := (rs_header (w_resp w))(k := None)\<rparr>"
  by (cases w) (auto simp: w_del_header_def)

lemma http_Error_resp:
  "w_resp (http_Error w msg code) =
     fst (rs_write (rs_write_header
       (rs_set (rs_set ((w_resp w)\<lparr>rs_header := (rs_header (w_resp w))(''Content-Length'' := None)\<rparr>)
         ''Content-Type'' ''text/plain; charset=utf-8'') ''X-Content-Type-Options'' ''nosniff'') code)
       (msg @ [CHR 0x0A]))"
  by (simp add: http_Error_def Let_def w_write_resp)

text \<open>An error status is sent only if nothing was sent before; otherwise the text is appended to the
  body that is under way.\<close>

lemma http_Error_status:
  "\<not> informational code \<Longrightarrow>
   w_status (http_Error w msg code) = (case w_status w of None \<Rightarrow> Some code | Some s \<Rightarrow> Some s)"
  by (auto simp: http_Error_resp rs_write_status rs_write_header_def rs_set_def split: option.split)

lemma http_Error_fresh_body:
  assumes "w_status w = None" and "\<not> informational code" and "body_allowed code"
    and "rs_alive (w_resp w)"
  shows "rs_body (w_resp (http_Error w msg code)) = rs_body (w_resp w) @ msg @ [CHR 0x0A]"
  using assms by (simp add: http_Error_resp rs_defs Let_def)

lemma http_Error_late_body:
  assumes "w_status w = Some s" and "body_allowed s" and "rs_alive (w_resp w)"
  shows "rs_body (w_resp (http_Error w msg code)) = rs_body (w_resp w) @ msg @ [CHR 0x0A]"
  using assms by (simp add: http_Error_resp rs_defs Let_def)

end
