(* ===== verification/Authn.thy ===== *)
theory Authn
  imports Httperror
begin

section \<open>internal/authn: authentication of requests\<close>

text \<open>
  \<open>internal/authn/authn.go\<close>: the entries of the credential file, their validation, the reverse
  index from \<open>Authorization\<close> header values to entries, and the middleware that binds the entry of a
  request to its context. The JSON decoder and the file system are parameters; base64 is modelled.
\<close>

subsection \<open>base64.StdEncoding\<close>

definition b64_alphabet :: gostr where
  "b64_alphabet = ''ABCDEFGHIJKLMNOPQRSTUVWXYZabcdefghijklmnopqrstuvwxyz0123456789+/''"

definition b64_char :: "nat \<Rightarrow> char" where
  "b64_char n = b64_alphabet ! n"

definition chr :: "char \<Rightarrow> nat" where
  "chr c = of_char c"

fun base64 :: "gostr \<Rightarrow> gostr" where
  "base64 [] = []"
| "base64 [a] = [b64_char (chr a div 4), b64_char (chr a mod 4 * 16), CHR ''='', CHR ''='']"
| "base64 [a, b] =
     [b64_char (chr a div 4), b64_char (chr a mod 4 * 16 + chr b div 16),
      b64_char (chr b mod 16 * 4), CHR ''='']"
| "base64 (a # b # c # s) =
     b64_char (chr a div 4) # b64_char (chr a mod 4 * 16 + chr b div 16) #
     b64_char (chr b mod 16 * 4 + chr c div 64) # b64_char (chr c mod 64) # base64 s"

lemma chr_lt [simp]: "chr c < 256"
  using of_char_of [of "of_char c :: nat"] by (simp add: chr_def)

lemma chr_inject [simp]: "chr a = chr b \<longleftrightarrow> a = b"
  by (simp add: chr_def)

lemma b64_char_inject: "m < 64 \<Longrightarrow> n < 64 \<Longrightarrow> b64_char m = b64_char n \<longleftrightarrow> m = n"
proof -
  have "distinct b64_alphabet" "length b64_alphabet = 64" by code_simp+
  moreover assume "m < 64" "n < 64"
  ultimately show ?thesis by (simp add: b64_char_def nth_eq_iff_index_eq)
qed

lemma b64_char_not_pad: "n < 64 \<Longrightarrow> b64_char n \<noteq> CHR ''=''"
proof -
  assume "n < 64"
  moreover have "length b64_alphabet = 64" by code_simp
  ultimately have "b64_char n \<in> set b64_alphabet" by (simp add: b64_char_def)
  moreover have "CHR ''='' \<notin> set b64_alphabet" by code_simp
  ultimately show ?thesis by metis
qed

lemma b64_bounds [simp]:
  "chr a div 4 < 64" "chr a mod 4 * 16 < 64" "chr a mod 4 * 16 + chr b div 16 < 64"
  "chr b mod 16 * 4 < 64" "chr b mod 16 * 4 + chr c div 64 < 64" "chr c mod 64 < 64"
  using chr_lt [of a] chr_lt [of b] chr_lt [of c] by linarith+

lemma b64_first_eq:
  assumes "b64_char (chr a div 4) = b64_char (chr a' div 4)"
    and "b64_char (chr a mod 4 * 16 + chr b div 16) = b64_char (chr a' mod 4 * 16 + chr b' div 16)"
  shows "a = a' \<and> chr b div 16 = chr b' div 16"
proof -
  have h: "chr a div 4 = chr a' div 4"
    "chr a mod 4 * 16 + chr b div 16 = chr a' mod 4 * 16 + chr b' div 16"
    using assms by (simp_all add: b64_char_inject)
  moreover have "chr b div 16 < 16" "chr b' div 16 < 16"
    using chr_lt [of b] chr_lt [of b'] by linarith+
  ultimately have "chr a mod 4 = chr a' mod 4" "chr b div 16 = chr b' div 16"
    using radix_eq [OF h(2)] by blast+
  with h(1) have "chr a = chr a'" by (metis div_mult_mod_eq)
  then have "a = a'" by simp
  then show ?thesis using \<open>chr b div 16 = chr b' div 16\<close> by (rule conjI)
qed

lemma b64_last_eq:
  assumes "b64_char (chr a div 4) = b64_char (chr a' div 4)"
    and "b64_char (chr a mod 4 * 16) = b64_char (chr a' mod 4 * 16)"
  shows "a = a'"
proof -
  have "chr a div 4 = chr a' div 4" "chr a mod 4 * 16 = chr a' mod 4 * 16"
    using assms by (simp_all add: b64_char_inject)
  then have "chr a = chr a'" by (metis div_mult_mod_eq mult_right_cancel zero_neq_numeral)
  then show ?thesis by simp
qed

lemma b64_second_eq:
  assumes "b64_char (chr b mod 16 * 4 + chr c div 64) = b64_char (chr b' mod 16 * 4 + chr c' div 64)"
    and "chr b div 16 = chr b' div 16"
  shows "b = b' \<and> chr c div 64 = chr c' div 64"
proof -
  have h: "chr b mod 16 * 4 + chr c div 64 = chr b' mod 16 * 4 + chr c' div 64"
    using assms(1) by (simp add: b64_char_inject)
  moreover have "chr c div 64 < 4" "chr c' div 64 < 4"
    using chr_lt [of c] chr_lt [of c'] by linarith+
  ultimately have m: "chr b mod 16 = chr b' mod 16" and "chr c div 64 = chr c' div 64"
    using radix_eq [OF h] by blast+
  from m assms(2) have "chr b = chr b'" by (metis div_mult_mod_eq)
  then have "b = b'" by simp
  then show ?thesis using \<open>chr c div 64 = chr c' div 64\<close> by (rule conjI)
qed

lemma b64_second_last_eq:
  assumes "b64_char (chr b mod 16 * 4) = b64_char (chr b' mod 16 * 4)"
    and "chr b div 16 = chr b' div 16"
  shows "b = b'"
proof -
  have "chr b mod 16 = chr b' mod 16" using assms(1) by (simp add: b64_char_inject)
  with assms(2) have "chr b = chr b'" by (metis div_mult_mod_eq)
  then show ?thesis by simp
qed

lemma b64_third_eq:
  assumes "b64_char (chr c mod 64) = b64_char (chr c' mod 64)" and "chr c div 64 = chr c' div 64"
  shows "c = c'"
proof -
  have "chr c mod 64 = chr c' mod 64" using assms(1) by (simp add: b64_char_inject)
  with assms(2) have "chr c = chr c'" by (metis div_mult_mod_eq)
  then show ?thesis by simp
qed

lemma b64_not_pad [simp]:
  "b64_char (chr b mod 16 * 4) \<noteq> CHR ''=''" "b64_char (chr b mod 16 * 4 + chr c div 64) \<noteq> CHR ''=''"
  "b64_char (chr c mod 64) \<noteq> CHR ''=''"
  "CHR ''='' \<noteq> b64_char (chr b mod 16 * 4)" "CHR ''='' \<noteq> b64_char (chr b mod 16 * 4 + chr c div 64)"
  "CHR ''='' \<noteq> b64_char (chr c mod 64)"
  using b64_char_not_pad [OF b64_bounds(4)] b64_char_not_pad [OF b64_bounds(5)]
    b64_char_not_pad [OF b64_bounds(6)] by metis+

text \<open>base64 loses nothing: two byte strings with the same encoding are equal.\<close>

lemma base64_inject: "base64 s = base64 t \<longleftrightarrow> s = t"
proof
  show "base64 s = base64 t \<Longrightarrow> s = t"
  proof (induction s arbitrary: t rule: base64.induct)
    case 1
    then show ?case by (cases t rule: base64.cases) auto
  next
    case (2 a)
    then show ?case by (cases t rule: base64.cases) (auto dest: b64_last_eq)
  next
    case (3 a b)
    then show ?case
      by (cases t rule: base64.cases) (auto dest: b64_first_eq b64_second_last_eq)
  next
    case (4 a b c s)
    show ?case
    proof (cases t rule: base64.cases)
      case (4 a' b' c' s')
      with "4.prems" have eqs: "b64_char (chr a div 4) = b64_char (chr a' div 4)"
        "b64_char (chr a mod 4 * 16 + chr b div 16) = b64_char (chr a' mod 4 * 16 + chr b' div 16)"
        "b64_char (chr b mod 16 * 4 + chr c div 64) = b64_char (chr b' mod 16 * 4 + chr c' div 64)"
        "b64_char (chr c mod 64) = b64_char (chr c' mod 64)" "base64 s = base64 s'"
        by simp_all
      from b64_first_eq [OF eqs(1,2)] have "a = a'" "chr b div 16 = chr b' div 16" by simp_all
      with b64_second_eq [OF eqs(3)] have "b = b'" "chr c div 64 = chr c' div 64" by simp_all
      with b64_third_eq [OF eqs(4)] have "c = c'" by simp
      moreover from "4.IH" [OF eqs(5)] have "s = s'" .
      ultimately show ?thesis using \<open>a = a'\<close> \<open>b = b'\<close> "4" by simp
    qed (use "4.prems" in auto)
  qed
qed simp

subsection \<open>Entries and their validation\<close>

record user =
  user_Name :: gostr
  user_Password :: gostr

record entry =
  entry_ID :: gostr
  entry_Type :: gostr
  entry_User :: "user option"
  entry_Token :: "gostr option"
  entry_InitQuery :: gostr

definition type_Basic :: gostr where "type_Basic = ''basic''"

definition type_Bearer :: gostr where "type_Bearer = ''bearer''"

definition headerValue :: "entry \<Rightarrow> gostr" where
  "headerValue e =
     (if entry_Type e = type_Basic then
        (case entry_User e of
           Some u \<Rightarrow> ''Basic '' @ base64 (user_Name u @ '':'' @ user_Password u)
         | None \<Rightarrow> [])
      else if entry_Type e = type_Bearer then
        (case entry_Token e of Some t \<Rightarrow> ''Bearer '' @ trim_space t | None \<Rightarrow> [])
      else [])"

text \<open>\<open>validate\<close> returns \<open>None\<close> for a nil error.\<close>

definition validate :: "entry \<Rightarrow> gostr option" where
  "validate e =
     (if entry_Type e = type_Basic then
        (case entry_User e of
           None \<Rightarrow> Some ''required \"user\" property for \"basic\" type''
         | Some u \<Rightarrow>
             if user_Name u = [] then Some ''required \"user.name\" property for \"basic\" type''
             else if user_Password u = [] then
               Some ''required \"user.password\" property for \"basic\" type''
             else None)
      else if entry_Type e = type_Bearer then
        (case entry_Token e of
           None \<Rightarrow> Some ''required \"token\" property for \"bearer\" type''
         | Some t \<Rightarrow> if t = [] then Some ''required non-empty \"token\" for \"bearer\" type'' else None)
      else None)"

lemmas entry_type_defs = type_Basic_def type_Bearer_def

lemma headerValue_not_both:
  "headerValue e = ''Basic '' @ x \<Longrightarrow> entry_Type e = type_Basic"
  by (auto simp: headerValue_def entry_type_defs split: if_splits option.splits)

subsection \<open>The authenticator\<close>

record authenticator =
  a_entries :: "entry list"
  a_index :: "gostr \<rightharpoonup> entry"

text \<open>The loop of \<open>readAuthenticator\<close>: duplicate IDs, then validation, then the reverse index, into
  which an entry with an empty header value is not put, and a later entry replaces an earlier one.\<close>

fun index_loop :: "gostr set \<Rightarrow> (gostr \<rightharpoonup> entry) \<Rightarrow> entry list \<Rightarrow> gostr + (gostr \<rightharpoonup> entry)" where
  "index_loop idmap index [] = Inr index"
| "index_loop idmap index (e # es) =
     (if entry_ID e \<in> idmap then Inl (''duplicated ID: '' @ entry_ID e)
      else (case validate e of
          Some err \<Rightarrow> Inl err
        | None \<Rightarrow>
            (let x = headerValue e in
             if x = [] then index_loop (insert (entry_ID e) idmap) index es
             else index_loop (insert (entry_ID e) idmap) (index(x \<mapsto> e)) es)))"

definition readAuthenticator :: "gostr + entry list \<Rightarrow> gostr + authenticator" where
  "readAuthenticator decoded =
     (case decoded of
        Inl err \<Rightarrow> Inl err
      | Inr es \<Rightarrow>
          (case index_loop {} Map.empty es of
             Inl err \<Rightarrow> Inl err
           | Inr index \<Rightarrow> Inr \<lparr>a_entries = es, a_index = index\<rparr>))"

definition LoadFile ::
  "(gostr \<Rightarrow> gostr + gostr) \<Rightarrow> (gostr \<Rightarrow> gostr + entry list) \<Rightarrow> gostr \<Rightarrow> gostr + authenticator" where
  "LoadFile open_file decode name =
     (case open_file name of Inl err \<Rightarrow> Inl err | Inr content \<Rightarrow> readAuthenticator (decode content))"

text \<open>The package variable \<open>Default\<close>: \<open>ReadFile\<close> sets it, to nil on an error too.\<close>

definition authn_ReadFile ::
  "(gostr \<Rightarrow> gostr + gostr) \<Rightarrow> (gostr \<Rightarrow> gostr + entry list) \<Rightarrow> gostr
   \<Rightarrow> authenticator option \<times> gostr option" where
  "authn_ReadFile open_file decode name =
     (case LoadFile open_file decode name of
        Inl err \<Rightarrow> (None, Some err)
      | Inr a \<Rightarrow> (Some a, None))"

definition authn_Enable :: "authenticator option \<Rightarrow> bool" where
  "authn_Enable dflt \<longleftrightarrow> dflt \<noteq> None"

definition extractEntry :: "authenticator option \<Rightarrow> entry request \<Rightarrow> entry option" where
  "extractEntry a r =
     (case a of None \<Rightarrow> None | Some auth \<Rightarrow> a_index auth (get_first (rq_header r) ''Authorization''))"

definition withEntry :: "entry ctx \<Rightarrow> entry \<Rightarrow> entry ctx" where
  "withEntry c e = c\<lparr>ctx_entry := Some e\<rparr>"

definition AuthnEntry :: "entry ctx \<Rightarrow> entry option" where
  "AuthnEntry c = ctx_entry c"

definition AuthnID :: "entry ctx \<Rightarrow> gostr option" where
  "AuthnID c = map_option entry_ID (AuthnEntry c)"

text \<open>The middleware: it hands the request on, with the entry in its context if there is one.\<close>

definition AuthenticateHandler ::
  "authenticator option \<Rightarrow> (entry request \<Rightarrow> 'r) \<Rightarrow> entry request \<Rightarrow> 'r" where
  "AuthenticateHandler a h r =
     (case extractEntry a r of
        None \<Rightarrow> h r
      | Some e \<Rightarrow> h (r\<lparr>rq_ctx := withEntry (rq_ctx r) e\<rparr>))"

definition authn_WrapHandler ::
  "authenticator option \<Rightarrow> (entry request \<Rightarrow> 'r) \<Rightarrow> entry request \<Rightarrow> 'r" where
  "authn_WrapHandler dflt h r =
     (case extractEntry dflt r of
        None \<Rightarrow> h r
      | Some e \<Rightarrow> h (r\<lparr>rq_ctx := withEntry (rq_ctx r) e\<rparr>))"

subsection \<open>What loading a credential file establishes\<close>

text \<open>The index a list of entries stands for: the last entry of each non-empty header value.\<close>

definition header_index :: "entry list \<Rightarrow> (gostr \<rightharpoonup> entry)" where
  "header_index es =
     map_of (rev (filter (\<lambda>(x, e). x \<noteq> []) (map (\<lambda>e. (headerValue e, e)) es)))"

lemma header_index_Nil [simp]: "header_index [] = Map.empty"
  by (simp add: header_index_def)

lemma header_index_append:
  "header_index (es @ [e]) =
     (if headerValue e = [] then header_index es else (header_index es)(headerValue e \<mapsto> e))"
  by (auto simp: header_index_def fun_eq_iff)

lemma index_loop_Inr_iff:
  "index_loop ids (header_index pre) es = Inr ix \<longleftrightarrow>
     distinct (map entry_ID es) \<and> ids \<inter> entry_ID ` set es = {} \<and>
     (\<forall>e \<in> set es. validate e = None) \<and> ix = header_index (pre @ es)"
proof (induction es arbitrary: ids pre)
  case Nil
  then show ?case by auto
next
  case (Cons e es)
  have step: "index_loop (insert (entry_ID e) ids) (header_index (pre @ [e])) es = Inr ix \<longleftrightarrow>
     distinct (map entry_ID es) \<and> insert (entry_ID e) ids \<inter> entry_ID ` set es = {} \<and>
     (\<forall>e \<in> set es. validate e = None) \<and> ix = header_index ((pre @ [e]) @ es)"
    by (rule Cons.IH)
  have upd: "index_loop ids (header_index pre) (e # es) = Inr ix \<longleftrightarrow>
     entry_ID e \<notin> ids \<and> validate e = None \<and>
     index_loop (insert (entry_ID e) ids) (header_index (pre @ [e])) es = Inr ix"
    by (auto simp: header_index_append Let_def split: option.splits)
  show ?case unfolding upd step by auto
qed

lemma readAuthenticator_Inr_iff:
  "readAuthenticator (Inr es) = Inr a \<longleftrightarrow>
     distinct (map entry_ID es) \<and> (\<forall>e \<in> set es. validate e = None) \<and>
     a = \<lparr>a_entries = es, a_index = header_index es\<rparr>"
proof -
  have "index_loop {} Map.empty es = Inr ix \<longleftrightarrow>
     distinct (map entry_ID es) \<and> (\<forall>e \<in> set es. validate e = None) \<and> ix = header_index es" for ix
    using index_loop_Inr_iff [of "{}" "[]" es ix] by simp
  moreover have "readAuthenticator (Inr es) = Inr a \<longleftrightarrow>
      (\<exists>ix. index_loop {} Map.empty es = Inr ix \<and> a = \<lparr>a_entries = es, a_index = ix\<rparr>)"
  proof (cases "index_loop {} Map.empty es")
    case (Inl err)
    then show ?thesis by (simp add: readAuthenticator_def)
  next
    case (Inr ix)
    then show ?thesis by (auto simp: readAuthenticator_def)
  qed
  ultimately show ?thesis by blast
qed

lemma header_index_Some:
  "header_index es h = Some e \<Longrightarrow> e \<in> set es \<and> headerValue e = h \<and> h \<noteq> []"
  by (auto simp: header_index_def dest: map_of_SomeD)

lemma header_index_defined:
  "e \<in> set es \<Longrightarrow> headerValue e \<noteq> [] \<Longrightarrow> \<exists>e'. header_index es (headerValue e) = Some e'"
proof -
  assume "e \<in> set es" "headerValue e \<noteq> []"
  then have "(headerValue e, e) \<in>
      set (rev (filter (\<lambda>(x, e). x \<noteq> []) (map (\<lambda>e. (headerValue e, e)) es)))" by auto
  then show ?thesis unfolding header_index_def by (rule weak_map_of_SomeI)
qed

lemma header_index_no_empty [simp]: "header_index es [] = None"
  by (cases "header_index es []") (auto dest: header_index_Some)

lemma headerValue_Basic_eq:
  assumes "entry_Type d = type_Basic" "entry_Type e = type_Basic"
    and "entry_User d = Some u" "entry_User e = Some v"
  shows "headerValue d = headerValue e \<longleftrightarrow>
    user_Name u @ '':'' @ user_Password u = user_Name v @ '':'' @ user_Password v"
  using assms by (simp add: headerValue_def base64_inject)

lemma colon_split:
  fixes a a' b b' :: gostr
  assumes "c \<notin> set a" and "c \<notin> set a'" and "a @ [c] @ b = a' @ [c] @ b'"
  shows "a = a' \<and> b = b'"
proof -
  have "split2_chr c (a @ c # b) = [a, b]" using assms(1) by (rule split2_chr_append_sep)
  moreover have "split2_chr c (a' @ c # b') = [a', b']" using assms(2) by (rule split2_chr_append_sep)
  moreover have "a @ c # b = a' @ c # b'" using assms(3) by simp
  ultimately have "[a, b] = [a', b']" by metis
  then show ?thesis by simp
qed

lemma AuthnEntry_withEntry [simp]: "AuthnEntry (withEntry c e) = Some e"
  by (simp add: AuthnEntry_def withEntry_def)

lemma AuthnID_withEntry [simp]: "AuthnID (withEntry c e) = Some (entry_ID e)"
  by (simp add: AuthnID_def)

lemma extractEntry_None [simp]: "extractEntry None r = None"
  by (simp add: extractEntry_def)

text \<open>The request the middleware hands on.\<close>

definition authenticated :: "authenticator option \<Rightarrow> entry request \<Rightarrow> entry request" where
  "authenticated a r = (case extractEntry a r of
     None \<Rightarrow> r | Some e \<Rightarrow> r\<lparr>rq_ctx := withEntry (rq_ctx r) e\<rparr>)"

lemma AuthenticateHandler_eq: "AuthenticateHandler a h r = h (authenticated a r)"
  by (simp add: AuthenticateHandler_def authenticated_def split: option.split)

lemma authn_WrapHandler_eq: "authn_WrapHandler d h = AuthenticateHandler d h"
  by (simp add: fun_eq_iff authn_WrapHandler_def AuthenticateHandler_def)

end
