(* ===== verification/Duckdbinit.thy ===== *)
theory Duckdbinit
  imports Gostd
begin

section \<open>internal/duckdbinit: opening and configuring a DuckDB instance\<close>

text \<open>
  \<open>internal/duckdbinit/duckdbinit.go\<close>. DuckDB, reached through \<open>database/sql\<close>, is a parameter: a
  record of functions on a world of any type \<open>'w\<close>, each of which may fail. What is modelled is which
  statements are executed, in which order, and what happens to the handles and the errors.
\<close>

datatype sqlval = VInt int | VStr gostr | VBool bool | VStrs "gostr list"

record stmt =
  st_sql :: gostr
  st_args :: "sqlval list"

record 'w duck =
  dk_open :: "gostr \<Rightarrow> 'w \<Rightarrow> 'w \<times> (gostr + nat)"
  dk_conn :: "nat \<Rightarrow> 'w \<Rightarrow> 'w \<times> (gostr + nat)"
  dk_exec :: "nat \<Rightarrow> stmt \<Rightarrow> 'w \<Rightarrow> 'w \<times> gostr option"
  dk_conn_close :: "nat \<Rightarrow> 'w \<Rightarrow> 'w \<times> gostr option"
  dk_db_close :: "nat \<Rightarrow> 'w \<Rightarrow> 'w \<times> gostr option"

subsection \<open>url.Values.Encode\<close>

definition hex_upper :: "nat \<Rightarrow> char" where
  "hex_upper d = ''0123456789ABCDEF'' ! d"

definition url_unreserved :: "char \<Rightarrow> bool" where
  "url_unreserved c = (let n = of_char c :: nat in
     48 \<le> n \<and> n \<le> 57 \<or> 65 \<le> n \<and> n \<le> 90 \<or> 97 \<le> n \<and> n \<le> 122 \<or> c \<in> set ''-_.~'')"

definition query_escape :: "gostr \<Rightarrow> gostr" where
  "query_escape s = concat (map (\<lambda>c.
     if url_unreserved c then [c]
     else if c = CHR '' '' then ''+''
     else (let n = of_char c :: nat in [CHR ''%'', hex_upper (n div 16), hex_upper (n mod 16)])) s)"

text \<open>\<open>Encode\<close> for the one parameter that is added.\<close>

definition dsn :: "gostr \<Rightarrow> gostr" where
  "dsn home = ''?'' @ query_escape ''home_directory'' @ ''='' @ query_escape home"

subsection \<open>Settings\<close>

record settings =
  HomeDir :: gostr
  Threads :: int
  MemoryLimit :: gostr
  ExtensionDir :: gostr
  SecretDir :: gostr
  TempDir :: gostr
  MaxTempDirSize :: gostr
  AllowedDirectories :: "gostr list"
  EnableExternalAccess :: bool
  LockConfig :: bool

text \<open>\<open>execContext\<close>: the world and the first error; after an error nothing more is executed.\<close>

type_synonym 'w exec_ctx = "'w \<times> gostr option"

definition set_global :: "gostr \<Rightarrow> sqlval \<Rightarrow> stmt" where
  "set_global name v = \<lparr>st_sql = ''SET GLOBAL '' @ name @ '' = ?'', st_args = [v]\<rparr>"

fun is_zero :: "sqlval \<Rightarrow> bool" where
  "is_zero (VInt n) \<longleftrightarrow> n = 0"
| "is_zero (VStr s) \<longleftrightarrow> s = []"
| "is_zero (VBool b) \<longleftrightarrow> \<not> b"
| "is_zero (VStrs l) \<longleftrightarrow> l = []"

definition set_setting :: "'w duck \<Rightarrow> nat \<Rightarrow> gostr \<Rightarrow> sqlval \<Rightarrow> 'w exec_ctx \<Rightarrow> 'w exec_ctx" where
  "set_setting dk conn name v ex =
     (case ex of
        (w, Some err) \<Rightarrow> (w, Some err)
      | (w, None) \<Rightarrow> if is_zero v then (w, None) else dk_exec dk conn (set_global name v) w)"

definition setNoCheck :: "'w duck \<Rightarrow> nat \<Rightarrow> gostr \<Rightarrow> sqlval \<Rightarrow> 'w exec_ctx \<Rightarrow> 'w exec_ctx" where
  "setNoCheck dk conn name v ex =
     (case ex of
        (w, Some err) \<Rightarrow> (w, Some err)
      | (w, None) \<Rightarrow> dk_exec dk conn (set_global name v) w)"

definition settings_apply :: "'w duck \<Rightarrow> settings \<Rightarrow> nat \<Rightarrow> 'w \<Rightarrow> 'w \<times> gostr option" where
  "settings_apply dk s conn w =
     (let ex1 = set_setting dk conn ''threads'' (VInt (Threads s)) (w, None);
          ex2 = set_setting dk conn ''memory_limit'' (VStr (MemoryLimit s)) ex1;
          ex3 = set_setting dk conn ''extension_directory'' (VStr (ExtensionDir s)) ex2;
          ex4 = set_setting dk conn ''secret_directory'' (VStr (SecretDir s)) ex3;
          ex5 = set_setting dk conn ''temp_directory'' (VStr (TempDir s)) ex4;
          ex6 = set_setting dk conn ''max_temp_directory_size'' (VStr (MaxTempDirSize s)) ex5 in
      if AllowedDirectories s \<noteq> []
      then setNoCheck dk conn ''allowed_directories'' (VStrs (AllowedDirectories s)) ex6
      else ex6)"

text \<open>The loop over the initialisation queries; an empty one is skipped.\<close>

fun init_queries :: "'w duck \<Rightarrow> nat \<Rightarrow> gostr list \<Rightarrow> 'w \<Rightarrow> 'w \<times> gostr option" where
  "init_queries dk conn [] w = (w, None)"
| "init_queries dk conn (q # qs) w =
     (if q \<noteq> [] then
        (case dk_exec dk conn \<lparr>st_sql = q, st_args = []\<rparr> w of
           (w1, Some err) \<Rightarrow> (w1, Some err)
         | (w1, None) \<Rightarrow> init_queries dk conn qs w1)
      else init_queries dk conn qs w)"

text \<open>\<open>init\<close> ends with the two switches that close the instance; the error of their \<open>execContext\<close> is
  not looked at.\<close>

definition settings_init :: "'w duck \<Rightarrow> settings \<Rightarrow> nat \<Rightarrow> gostr list \<Rightarrow> 'w \<Rightarrow> 'w \<times> gostr option" where
  "settings_init dk s conn initQueries w =
     (case settings_apply dk s conn w of
        (w1, Some err) \<Rightarrow> (w1, Some err)
      | (w1, None) \<Rightarrow>
          (case init_queries dk conn initQueries w1 of
             (w2, Some err) \<Rightarrow> (w2, Some err)
           | (w2, None) \<Rightarrow>
               (let ex = (w2, None);
                    ex1 = (if \<not> EnableExternalAccess s
                           then setNoCheck dk conn ''enable_external_access'' (VBool False) ex else ex);
                    ex2 = (if LockConfig s
                           then setNoCheck dk conn ''lock_configuration'' (VBool True) ex1 else ex1) in
                (fst ex2, None))))"

definition duckdbinit_Open ::
  "'w duck \<Rightarrow> settings \<Rightarrow> gostr list \<Rightarrow> 'w \<Rightarrow> 'w \<times> (gostr + nat \<times> nat)" where
  "duckdbinit_Open dk s initQueries w =
     (case dk_open dk (dsn (HomeDir s)) w of
        (w1, Inl err) \<Rightarrow> (w1, Inl err)
      | (w1, Inr db) \<Rightarrow>
          (case dk_conn dk db w1 of
             (w2, Inl err) \<Rightarrow> (fst (dk_db_close dk db w2), Inl err)
           | (w2, Inr conn) \<Rightarrow>
               (case settings_init dk s conn initQueries w2 of
                  (w3, Some err) \<Rightarrow>
                    (let w4 = fst (dk_conn_close dk conn w3) in (fst (dk_db_close dk db w4), Inl err))
                | (w3, None) \<Rightarrow> (w3, Inr (db, conn)))))"

subsection \<open>The statements, as a list\<close>

text \<open>What \<open>init\<close> means to execute: a list of statements, run until the first failure.\<close>

fun run_stmts :: "'w duck \<Rightarrow> nat \<Rightarrow> stmt list \<Rightarrow> 'w \<Rightarrow> 'w \<times> gostr option" where
  "run_stmts dk conn [] w = (w, None)"
| "run_stmts dk conn (st # sts) w =
     (case dk_exec dk conn st w of
        (w1, Some err) \<Rightarrow> (w1, Some err)
      | (w1, None) \<Rightarrow> run_stmts dk conn sts w1)"

definition setting_values :: "settings \<Rightarrow> (gostr \<times> sqlval) list" where
  "setting_values s =
     [(''threads'', VInt (Threads s)), (''memory_limit'', VStr (MemoryLimit s)),
      (''extension_directory'', VStr (ExtensionDir s)), (''secret_directory'', VStr (SecretDir s)),
      (''temp_directory'', VStr (TempDir s)), (''max_temp_directory_size'', VStr (MaxTempDirSize s)),
      (''allowed_directories'', VStrs (AllowedDirectories s))]"

definition apply_stmts :: "settings \<Rightarrow> stmt list" where
  "apply_stmts s = map (\<lambda>(name, v). set_global name v) (filter (\<lambda>(name, v). \<not> is_zero v) (setting_values s))"

definition query_stmts :: "gostr list \<Rightarrow> stmt list" where
  "query_stmts qs = map (\<lambda>q. \<lparr>st_sql = q, st_args = []\<rparr>) (filter (\<lambda>q. q \<noteq> []) qs)"

definition lock_stmts :: "settings \<Rightarrow> stmt list" where
  "lock_stmts s =
     (if EnableExternalAccess s then [] else [set_global ''enable_external_access'' (VBool False)]) @
     (if LockConfig s then [set_global ''lock_configuration'' (VBool True)] else [])"

text \<open>Running in an \<open>execContext\<close>: nothing after an error.\<close>

definition run_ctx :: "'w duck \<Rightarrow> nat \<Rightarrow> stmt list \<Rightarrow> 'w exec_ctx \<Rightarrow> 'w exec_ctx" where
  "run_ctx dk conn sts ex = (case ex of (w, Some err) \<Rightarrow> (w, Some err) | (w, None) \<Rightarrow> run_stmts dk conn sts w)"

lemma run_ctx_None [simp]: "run_ctx dk conn sts (w, None) = run_stmts dk conn sts w"
  by (simp add: run_ctx_def)

lemma run_ctx_Nil [simp]: "run_ctx dk conn [] ex = ex"
  by (auto simp: run_ctx_def split: prod.split option.split)

lemma run_stmts_append:
  "run_stmts dk conn (xs @ ys) w = run_ctx dk conn ys (run_stmts dk conn xs w)"
  by (induction xs arbitrary: w) (auto simp: run_ctx_def split: prod.split option.split)

lemma run_ctx_append: "run_ctx dk conn ys (run_ctx dk conn xs ex) = run_ctx dk conn (xs @ ys) ex"
  by (auto simp: run_ctx_def run_stmts_append split: prod.split option.split)

lemma set_setting_run: "set_setting dk conn name v ex =
    run_ctx dk conn (map (\<lambda>(n, v). set_global n v) (filter (\<lambda>(n, v). \<not> is_zero v) [(name, v)])) ex"
  by (auto simp: set_setting_def run_ctx_def split: prod.split option.split)

lemma setNoCheck_run: "setNoCheck dk conn name v ex = run_ctx dk conn [set_global name v] ex"
  by (auto simp: setNoCheck_def run_ctx_def split: prod.split option.split)

lemma settings_apply_run: "settings_apply dk s conn w = run_stmts dk conn (apply_stmts s) w"
proof -
  have eq: "settings_apply dk s conn w = run_ctx dk conn (apply_stmts s) (w, None)"
    unfolding settings_apply_def Let_def set_setting_run setNoCheck_run run_ctx_append
      apply_stmts_def setting_values_def
    by (simp del: run_ctx_None)
  then show ?thesis by simp
qed

lemma init_queries_run: "init_queries dk conn qs w = run_stmts dk conn (query_stmts qs) w"
  by (induction qs arbitrary: w) (auto simp: query_stmts_def split: prod.split option.split)

lemma settings_init_run:
  "settings_init dk s conn qs w =
     (case run_stmts dk conn (apply_stmts s @ query_stmts qs) w of
        (w1, Some err) \<Rightarrow> (w1, Some err)
      | (w1, None) \<Rightarrow> (fst (run_stmts dk conn (lock_stmts s) w1), None))"
proof -
  have lock: "(let ex = (w2, None);
          ex1 = (if \<not> EnableExternalAccess s
                 then setNoCheck dk conn ''enable_external_access'' (VBool False) ex else ex);
          ex2 = (if LockConfig s
                 then setNoCheck dk conn ''lock_configuration'' (VBool True) ex1 else ex1) in
      (fst ex2, None)) = (fst (run_stmts dk conn (lock_stmts s) w2), None :: gostr option)" for w2
    unfolding Let_def setNoCheck_run lock_stmts_def
    by (simp add: run_ctx_append del: run_ctx_None flip: run_ctx_None)
  show ?thesis
    unfolding settings_init_def lock settings_apply_run init_queries_run run_stmts_append
    by (auto simp: run_ctx_def split: prod.split option.split)
qed

text \<open>The two switches: the second is only tried when the first did not fail.\<close>

lemma run_lock_stmts:
  "run_stmts dk conn (lock_stmts s) w =
     (let (w1, err) = (if EnableExternalAccess s then (w, None)
          else dk_exec dk conn (set_global ''enable_external_access'' (VBool False)) w) in
      if err = None \<and> LockConfig s then dk_exec dk conn (set_global ''lock_configuration'' (VBool True)) w1
      else (w1, err))"
  by (auto simp: lock_stmts_def split: prod.split option.split)

subsection \<open>The properties\<close>

text \<open>A backend that logs the statements it is given and fails on some of them.\<close>

definition log_duck :: "(stmt \<Rightarrow> bool) \<Rightarrow> stmt list duck" where
  "log_duck fails = \<lparr>dk_open = (\<lambda>d w. (w, Inr 0)), dk_conn = (\<lambda>db w. (w, Inr 0)),
     dk_exec = (\<lambda>c st w. (w @ [st], if fails st then Some ''failed'' else None)),
     dk_conn_close = (\<lambda>c w. (w, None)), dk_db_close = (\<lambda>db w. (w, None))\<rparr>"

definition demo_settings :: settings where
  "demo_settings = \<lparr>HomeDir = ''/h'', Threads = 1, MemoryLimit = ''1GiB'', ExtensionDir = [],
     SecretDir = [], TempDir = [], MaxTempDirSize = [], AllowedDirectories = [],
     EnableExternalAccess = False, LockConfig = True\<rparr>"

lemma run_log_ok:
  "(\<And>st. st \<in> set sts \<Longrightarrow> \<not> fails st) \<Longrightarrow> run_stmts (log_duck fails) conn sts w = (w @ sts, None)"
  by (induction sts arbitrary: w) (auto simp: log_duck_def)

text \<open>
  C21. Order. \<open>init\<close> executes the non-zero settings in the code's order, then the non-empty
  initialisation queries in their order, stopping at the first failure, and only then the switches
  for external access and the configuration lock, which therefore cannot get in the way of either.
\<close>

theorem init_executes_in_order:
  "settings_init dk s conn qs w =
     (case run_stmts dk conn
        (map (\<lambda>(name, v). set_global name v) (filter (\<lambda>(name, v). \<not> is_zero v) (setting_values s)) @
         map (\<lambda>q. \<lparr>st_sql = q, st_args = []\<rparr>) (filter (\<lambda>q. q \<noteq> []) qs)) w of
        (w1, Some err) \<Rightarrow> (w1, Some err)
      | (w1, None) \<Rightarrow> (fst (run_stmts dk conn (lock_stmts s) w1), None))"
  using settings_init_run [of dk s conn qs w] by (simp add: apply_stmts_def query_stmts_def)

text \<open>
  No handle is left behind. When \<open>Open\<close> fails after DuckDB was opened, it has closed the
  database, and the connection before it if there was one.
\<close>

lemma open_failure_closes:
  assumes "duckdbinit_Open dk s qs w = (w', Inl err)" and "dk_open dk (dsn (HomeDir s)) w = (w1, Inr db)"
  shows "(\<exists>w2. dk_conn dk db w1 = (w2, Inl err) \<and> w' = fst (dk_db_close dk db w2)) \<or>
    (\<exists>w2 conn w3. dk_conn dk db w1 = (w2, Inr conn) \<and> settings_init dk s conn qs w2 = (w3, Some err) \<and>
       w' = fst (dk_db_close dk db (fst (dk_conn_close dk conn w3))))"
  using assms by (auto simp: duckdbinit_Open_def Let_def split: prod.splits sum.splits option.splits)

text \<open>
  C34. A switch that fails is not reported. If the statement that disables external access fails
  (for instance because an initialisation query has already locked the configuration), \<open>init\<close>
  returns no error, external access stays as it was and the lock statement is not even tried. If the
  statement that locks the configuration fails, \<open>init\<close> returns no error either, and the configuration
  stays open. In both cases \<open>Open\<close> hands out the database.
\<close>

theorem failed_switch_is_silent:
  assumes "run_stmts dk conn (apply_stmts s @ query_stmts qs) w = (w1, None)"
  shows "(\<not> EnableExternalAccess s \<and>
      dk_exec dk conn (set_global ''enable_external_access'' (VBool False)) w1 = (w2, Some err)
      \<longrightarrow> settings_init dk s conn qs w = (w2, None)) \<and>
    ((if EnableExternalAccess s then w2 = w1
      else dk_exec dk conn (set_global ''enable_external_access'' (VBool False)) w1 = (w2, None)) \<and>
      LockConfig s \<and> dk_exec dk conn (set_global ''lock_configuration'' (VBool True)) w2 = (w3, Some err)
      \<longrightarrow> settings_init dk s conn qs w = (w3, None)) \<and>
    (dk_open dk (dsn (HomeDir s)) v = (v1, Inr db) \<and> dk_conn dk db v1 = (w, Inr conn)
      \<longrightarrow> (\<exists>w4. duckdbinit_Open dk s qs v = (w4, Inr (db, conn))))"
  using assms by (auto simp: settings_init_run run_lock_stmts duckdbinit_Open_def split: if_splits)

definition locks_config :: "stmt \<Rightarrow> bool" where
  "locks_config st \<longleftrightarrow> st_sql st = ''SET GLOBAL enable_external_access = ?''"

text \<open>A locked configuration, and a backend that cannot lock it.\<close>

theorem failed_switch_is_silent_witness:
  "\<exists>w2. duckdbinit_Open (log_duck locks_config) demo_settings [''SET lock_configuration = true''] [] = (w2, Inr (0, 0)) \<and>
     settings_init (log_duck locks_config) demo_settings 0 [''SET lock_configuration = true''] [] = (w2, None) \<and>
     set_global ''lock_configuration'' (VBool True) \<notin> set w2 \<and>
   (\<exists>w3. settings_init (log_duck (\<lambda>st. st_sql st = ''SET GLOBAL lock_configuration = ?'')) demo_settings 0 [] [] = (w3, None))"
proof -
  let ?dk = "log_duck locks_config" and ?qs = "[''SET lock_configuration = true'']"
  let ?ext = "set_global ''enable_external_access'' (VBool False)" and ?lock = "set_global ''lock_configuration'' (VBool True)"
  let ?sts = "apply_stmts demo_settings @ query_stmts ?qs"
  have ok: "\<not> locks_config st" if "st \<in> set ?sts" for st
    using that
    by (auto simp: apply_stmts_def query_stmts_def setting_values_def demo_settings_def locks_config_def
        set_global_def)
  have run: "run_stmts ?dk 0 ?sts [] = (?sts, None)"
    using run_log_ok [OF ok, where conn = 0 and w = "[]"] by (simp only: append_Nil)
  have fails: "dk_exec ?dk 0 ?ext ?sts = (?sts @ [?ext], Some ''failed'')"
    by (simp add: log_duck_def locks_config_def set_global_def)
  have ext: "\<not> EnableExternalAccess demo_settings" "LockConfig demo_settings" by (simp_all add: demo_settings_def)
  have dk: "dk_open ?dk d v = (v, Inr 0)" "dk_conn ?dk 0 v = (v, Inr 0)" for d v by (simp_all add: log_duck_def)
  have init: "settings_init ?dk demo_settings 0 ?qs [] = (?sts @ [?ext], None)"
    using failed_switch_is_silent [OF run] ext(1) fails by blast
  then have "duckdbinit_Open ?dk demo_settings ?qs [] = (?sts @ [?ext], Inr (0, 0))" by (simp add: duckdbinit_Open_def dk)
  moreover have "?lock \<notin> set (?sts @ [?ext])"
    by (simp add: apply_stmts_def query_stmts_def setting_values_def demo_settings_def set_global_def)
  ultimately have one: "\<exists>w2. duckdbinit_Open ?dk demo_settings ?qs [] = (w2, Inr (0, 0)) \<and>
     settings_init ?dk demo_settings 0 ?qs [] = (w2, None) \<and> ?lock \<notin> set w2" using init by blast
  let ?dk2 = "log_duck (\<lambda>st. st_sql st = ''SET GLOBAL lock_configuration = ?'')" and ?sts2 = "apply_stmts demo_settings @ query_stmts []"
  have ok2: "st_sql st \<noteq> ''SET GLOBAL lock_configuration = ?''" if "st \<in> set ?sts2" for st
    using that by (auto simp: apply_stmts_def query_stmts_def setting_values_def demo_settings_def set_global_def)
  have run2: "run_stmts ?dk2 0 ?sts2 [] = (?sts2, None)"
    using run_log_ok [of ?sts2 "\<lambda>st. st_sql st = ''SET GLOBAL lock_configuration = ?''" 0 "[]"] ok2 by simp
  have e2: "dk_exec ?dk2 0 ?ext ?sts2 = (?sts2 @ [?ext], None)"
    "dk_exec ?dk2 0 ?lock (?sts2 @ [?ext]) = (?sts2 @ [?ext, ?lock], Some ''failed'')"
    by (simp_all add: log_duck_def set_global_def)
  have "settings_init ?dk2 demo_settings 0 [] [] = (?sts2 @ [?ext, ?lock], None)"
    using failed_switch_is_silent [OF run2] ext e2 by metis
  then show ?thesis using one by blast
qed

end
