(* ===== verification/Gohttp.thy ===== *)
theory Gohttp
  imports Httperror
begin

section \<open>The Go standard library: paths and HTTP replies\<close>

text \<open>
  \<open>path.Clean\<close>, \<open>path.Base\<close>, \<open>path.Split\<close> and \<open>filepath.Join\<close> (on Unix, where \<open>filepath\<close> and \<open>path\<close>
  agree), and the replies of \<open>net/http\<close> that the program uses: \<open>NotFound\<close>, \<open>Redirect\<close>, \<open>ServeFile\<close> and
  \<open>StripPrefix\<close>.
\<close>

subsection \<open>Paths\<close>

definition dotdot :: gostr where
  "dotdot = ''..''"

text \<open>The elements of a path, without empty ones and dots; then each \<open>..\<close> takes the element before it
  away, and is kept only at the front of a path that is not rooted.\<close>

definition path_elems :: "gostr \<Rightarrow> gostr list" where
  "path_elems s = filter (\<lambda>c. c \<noteq> [] \<and> c \<noteq> ''.'') (split_chr CHR ''/'' s)"

fun clean_elems :: "bool \<Rightarrow> gostr list \<Rightarrow> gostr list \<Rightarrow> gostr list" where
  "clean_elems rooted stack [] = rev stack"
| "clean_elems rooted stack (c # cs) =
     (if c = dotdot then
        (case stack of
           [] \<Rightarrow> clean_elems rooted (if rooted then [] else [dotdot]) cs
         | prev # below \<Rightarrow>
             if prev = dotdot then clean_elems rooted (dotdot # stack) cs
             else clean_elems rooted below cs)
      else clean_elems rooted (c # stack) cs)"

definition is_rooted :: "gostr \<Rightarrow> bool" where
  "is_rooted s = has_prefix s ''/''"

definition clean_comps :: "gostr \<Rightarrow> gostr list" where
  "clean_comps s = clean_elems (is_rooted s) [] (path_elems s)"

definition path_str :: "bool \<Rightarrow> gostr list \<Rightarrow> gostr" where
  "path_str rooted cs =
     (if rooted then ''/'' @ join_with ''/'' cs else if cs = [] then ''.'' else join_with ''/'' cs)"

definition path_Clean :: "gostr \<Rightarrow> gostr" where
  "path_Clean s = path_str (is_rooted s) (clean_comps s)"

definition path_Base :: "gostr \<Rightarrow> gostr" where
  "path_Base s =
     (if s = [] then ''.''
      else (let t = rev (dropWhile (\<lambda>c. c = CHR ''/'') (rev s)) in
            if t = [] then ''/'' else last (split_chr CHR ''/'' t)))"

text \<open>\<open>path.Split\<close>: the directory, with its final slash.\<close>

definition path_dir :: "gostr \<Rightarrow> gostr" where
  "path_dir s = rev (dropWhile (\<lambda>c. c \<noteq> CHR ''/'') (rev s))"

definition filepath_Join :: "gostr list \<Rightarrow> gostr" where
  "filepath_Join elems =
     (case dropWhile (\<lambda>e. e = []) elems of [] \<Rightarrow> [] | es \<Rightarrow> path_Clean (join_with ''/'' es))"

subsection \<open>What cleaning does\<close>

definition plain_elem :: "gostr \<Rightarrow> bool" where
  "plain_elem c \<longleftrightarrow> c \<noteq> [] \<and> c \<noteq> ''.'' \<and> c \<noteq> dotdot \<and> CHR ''/'' \<notin> set c"

lemma path_elems_member: "c \<in> set (path_elems s) \<Longrightarrow> c \<noteq> [] \<and> c \<noteq> ''.'' \<and> CHR ''/'' \<notin> set c"
  by (auto simp: path_elems_def dest: split_chr_pieces)

lemma clean_rooted_plain:
  "list_all plain_elem stack \<Longrightarrow> (\<And>c. c \<in> set cs \<Longrightarrow> c = dotdot \<or> plain_elem c) \<Longrightarrow>
   list_all plain_elem (clean_elems True stack cs)"
proof (induction True stack cs rule: clean_elems.induct)
  case (1 stack)
  then show ?case by simp
next
  case (2 stack c cs)
  show ?case
  proof (cases "c = dotdot")
    case True
    with "2.prems"(1) "2.hyps"(1,3) "2.prems"(2) show ?thesis
      by (cases stack) (auto simp: plain_elem_def [of dotdot])
  next
    case False
    with "2.prems" "2.hyps"(4) show ?thesis by auto
  qed
qed

lemma clean_comps_rooted: "is_rooted s \<Longrightarrow> list_all plain_elem (clean_comps s)"
  unfolding clean_comps_def
  by (simp, rule clean_rooted_plain) (auto simp: plain_elem_def dest: path_elems_member)

lemma clean_elems_append_plain:
  "list_all plain_elem ds \<Longrightarrow> clean_elems rooted stack (cs @ ds) = clean_elems rooted stack cs @ ds"
proof (induction rooted stack cs rule: clean_elems.induct)
  case (1 rooted stack)
  then show ?case
  proof (induction ds arbitrary: stack)
    case Nil
    then show ?case by simp
  next
    case (Cons d ds)
    have "clean_elems rooted (d # stack) ds = rev (d # stack) @ ds"
      using Cons.IH [of "d # stack"] Cons.prems by simp
    with Cons.prems show ?case by (simp add: plain_elem_def)
  qed
next
  case (2 rooted stack c cs)
  then show ?case by (auto split: list.split)
qed

lemma split_chr_cat: "split_chr c (s @ c # t) = split_chr c s @ split_chr c t"
proof (induction s)
  case Nil
  then show ?case by simp
next
  case (Cons x s)
  show ?case
  proof (cases "split_chr c s")
    case Nil
    then show ?thesis by simp
  next
    case (Cons y ys)
    with Cons.IH show ?thesis by simp
  qed
qed

lemma path_elems_cat: "path_elems (s @ CHR ''/'' # t) = path_elems s @ path_elems t"
  by (simp add: path_elems_def split_chr_cat)

lemma path_elems_join: "list_all plain_elem cs \<Longrightarrow> path_elems (join_with ''/'' cs) = cs"
proof (cases "cs = []")
  case True
  then show ?thesis by (simp add: path_elems_def)
next
  case False
  assume a: "list_all plain_elem cs"
  then have "split_chr CHR ''/'' (join_with ''/'' cs) = cs"
    using False by (intro split_chr_join) (auto simp: list_all_iff plain_elem_def)
  with a show ?thesis by (auto simp: path_elems_def list_all_iff plain_elem_def filter_id_conv)
qed

lemma join_with_append:
  "xs \<noteq> [] \<Longrightarrow> ys \<noteq> [] \<Longrightarrow> join_with sep (xs @ ys) = join_with sep xs @ sep @ join_with sep ys"
proof (induction sep xs rule: join_with.induct)
  case (2 sep s)
  then show ?case by (cases ys) auto
qed simp_all

lemma join_slash: "join_with ''/'' (c # cs) = c @ concat (map (Cons CHR ''/'') cs)"
  by (induction cs arbitrary: c) simp_all

lemma path_str_append:
  "xs \<noteq> [] \<Longrightarrow> path_str rooted (xs @ ys) = path_str rooted xs @ concat (map (Cons CHR ''/'') ys)"
proof (cases xs)
  case (Cons x xs')
  then show ?thesis by (simp add: path_str_def join_slash)
qed simp

lemma trim_slash_path: "trim_prefix (path_str True cs) ''/'' = join_with ''/'' cs"
  by (simp add: path_str_def trim_prefix_def has_prefix_def)

text \<open>Joining a directory and a clean relative path appends the elements.\<close>

lemma filepath_Join_plain:
  assumes "root \<noteq> []" and "list_all plain_elem cs"
  shows "filepath_Join [root, join_with ''/'' cs] = path_str (is_rooted root) (clean_comps root @ cs)"
proof -
  have rooted: "is_rooted (root @ CHR ''/'' # t) = is_rooted root" for t
    using assms(1) by (cases root) (auto simp: is_rooted_def)
  have "path_elems (root @ CHR ''/'' # join_with ''/'' cs) = path_elems root @ cs"
    by (simp add: path_elems_cat path_elems_join assms(2))
  then have "clean_comps (root @ CHR ''/'' # join_with ''/'' cs) = clean_comps root @ cs"
    by (simp add: clean_comps_def rooted clean_elems_append_plain assms(2))
  then show ?thesis
    using assms(1) by (simp add: filepath_Join_def path_Clean_def rooted)
qed

subsection \<open>Replies\<close>

definition http_NotFound :: "writer \<Rightarrow> writer" where
  "http_NotFound w = http_Error w ''404 page not found'' 404"

definition has_header :: "writer \<Rightarrow> gostr \<Rightarrow> bool" where
  "has_header w k \<longleftrightarrow> rs_header (w_resp w) k \<noteq> None"

definition hexEscapeNonASCII :: "gostr \<Rightarrow> gostr" where
  "hexEscapeNonASCII s = concat (map (\<lambda>c. if (of_char c :: nat) < 128 then [c]
     else CHR ''%'' # nat_hex (of_char c)) s)"

definition htmlEscape :: "gostr \<Rightarrow> gostr" where
  "htmlEscape s = concat (map (\<lambda>c.
     if c = CHR ''&'' then ''&amp;'' else if c = CHR ''<'' then ''&lt;'' else if c = CHR ''>'' then ''&gt;''
     else if c = CHR 0x22 then ''&#34;'' else if c = CHR 0x27 then ''&#39;'' else [c]) s)"

text \<open>The target that \<open>Redirect\<close> sends: a URL without a scheme and a host is made absolute against
  the path of the request and cleaned. \<open>rel\<close> says whether \<open>url.Parse\<close> finds it to be of that kind.\<close>

definition redirect_target :: "(gostr \<Rightarrow> bool) \<Rightarrow> gostr \<Rightarrow> gostr \<Rightarrow> gostr" where
  "redirect_target rel rpath url =
     (if \<not> rel url then url
      else
        (let oldpath = (if rpath = [] then ''/'' else rpath);
             url1 = (if \<not> has_prefix url ''/'' then path_dir oldpath @ url else url);
             upath = takeWhile (\<lambda>c. c \<noteq> CHR ''?'') url1;
             query = dropWhile (\<lambda>c. c \<noteq> CHR ''?'') url1;
             cleaned = path_Clean upath in
         (if has_suffix upath ''/'' \<and> \<not> has_suffix cleaned ''/'' then cleaned @ ''/'' else cleaned) @ query))"

definition http_Redirect :: "(gostr \<Rightarrow> bool) \<Rightarrow> writer \<Rightarrow> 'e request \<Rightarrow> gostr \<Rightarrow> nat \<Rightarrow> writer" where
  "http_Redirect rel w r url code =
     (let target = redirect_target rel (rq_path r) url;
          hadCT = has_header w ''Content-Type'';
          w1 = w_set w ''Location'' (hexEscapeNonASCII target);
          w2 = (if \<not> hadCT \<and> (rq_method r = ''GET'' \<or> rq_method r = ''HEAD'')
                then w_set w1 ''Content-Type'' ''text/html; charset=utf-8'' else w1);
          w3 = w_write_header w2 code in
      if \<not> hadCT \<and> rq_method r = ''GET'' then
        fst (w_write w3 (''<a href='' @ [CHR 0x22] @ htmlEscape target @ [CHR 0x22] @ ''>'' @
          status_text code @ ''</a>.'' @ [CHR 0x0A, CHR 0x0A]))
      else w3)"

text \<open>\<open>ServeFile\<close> refuses a request path with a \<open>..\<close> element and redirects one that ends in
  \<open>/index.html\<close>; \<open>serve\<close> sends the content of the file.\<close>

definition containsDotDot :: "gostr \<Rightarrow> bool" where
  "containsDotDot v \<longleftrightarrow>
     list_ex (\<lambda>e. e = dotdot) (split_chr CHR ''/'' (map (\<lambda>c. if c = CHR 0x5C then CHR ''/'' else c) v))"

definition localRedirect :: "writer \<Rightarrow> 'e request \<Rightarrow> gostr \<Rightarrow> writer" where
  "localRedirect w r newPath =
     (let q = rq_raw_query r; target = (if q \<noteq> [] then newPath @ ''?'' @ q else newPath) in
      w_write_header (w_set w ''Location'' target) 301)"

definition serveError :: "writer \<Rightarrow> gostr \<Rightarrow> nat \<Rightarrow> writer" where
  "serveError w text code =
     http_Error (foldl w_del_header w [''Cache-Control'', ''Content-Encoding'', ''Etag'', ''Last-Modified''])
       text code"

definition http_ServeFile ::
  "(gostr \<Rightarrow> writer \<Rightarrow> 'e request \<Rightarrow> writer) \<Rightarrow> writer \<Rightarrow> 'e request \<Rightarrow> gostr \<Rightarrow> writer" where
  "http_ServeFile serve w r name =
     (if containsDotDot (rq_path r) then serveError w ''invalid URL path'' 400
      else if has_suffix (rq_path r) ''/index.html'' then localRedirect w r ''./''
      else serve name w r)"

text \<open>\<open>http.StripPrefix\<close>, for a path that is its own escaped form.\<close>

definition http_StripPrefix :: "gostr \<Rightarrow> (writer \<Rightarrow> 'e request \<Rightarrow> 'r) \<Rightarrow> (writer \<Rightarrow> 'r) \<Rightarrow> writer \<Rightarrow> 'e request \<Rightarrow> 'r" where
  "http_StripPrefix prefix h notfound w r =
     (let p = trim_prefix (rq_path r) prefix in
      if length p < length (rq_path r) then h w (r\<lparr>rq_path := p\<rparr>) else notfound (http_NotFound w))"

end
