(* ===== verification/Duckserver_Db.thy ===== *)
theory Duckserver_Db
  imports Conndb_Props Authn Duckdbinit Gohttp
begin

section \<open>duckserver: configuration and the databases of connections\<close>

text \<open>
  The part of \<open>duckserver/duckserver.go\<close> below HTTP: the configuration and what \<open>New\<close> makes of it, how a
  database is opened for a connection (\<open>connectDuckDB\<close>, \<open>getPrivateDir\<close>) and closed
  (\<open>closeDuckDB\<close>), and \<open>checkDB\<close>. The operating system and DuckDB are functions on a world \<open>'w\<close>.
\<close>

subsection \<open>Configuration\<close>

text \<open>The file system with the resources of the UI: a directory, or the files built into the program.\<close>

datatype ui_fs = UIDir gostr | UIEmbedded

record config =
  cf_EnableDebugLog :: bool
  cf_EnablePprof :: bool
  cf_Address :: gostr
  cf_MaxBodySize :: int
  cf_MaxDB :: int
  cf_PIDFile :: gostr
  cf_AccessLogFile :: gostr
  cf_AccessLogFormat :: gostr
  cf_AuthnFile :: gostr
  cf_NoAuthz :: bool
  cf_DBHomeDir :: gostr
  cf_DBThreads :: int
  cf_DBMemoryLimit :: gostr
  cf_DBMaxTempDirSize :: gostr
  cf_DBExternalAccess :: bool
  cf_DBLockConfig :: bool
  cf_DBInitQuery :: gostr
  cf_UIResourceFS :: "ui_fs option"

text \<open>\<open>getwd\<close> returns the empty string on an error.\<close>

definition getwd :: "gostr + gostr \<Rightarrow> gostr" where
  "getwd wd = (case wd of Inl err \<Rightarrow> [] | Inr d \<Rightarrow> d)"

definition DefaultConfig :: "gostr + gostr \<Rightarrow> config" where
  "DefaultConfig wd =
     \<lparr>cf_EnableDebugLog = False, cf_EnablePprof = False, cf_Address = ''localhost:9281'',
      cf_MaxBodySize = 1048576, cf_MaxDB = 20, cf_PIDFile = [], cf_AccessLogFile = [],
      cf_AccessLogFormat = ''text'', cf_AuthnFile = [], cf_NoAuthz = False,
      cf_DBHomeDir = filepath_Join [getwd wd, ''.duckpop''], cf_DBThreads = 1, cf_DBMemoryLimit = ''1GiB'',
      cf_DBMaxTempDirSize = ''10GiB'', cf_DBExternalAccess = True, cf_DBLockConfig = True,
      cf_DBInitQuery = [], cf_UIResourceFS = None\<rparr>"

datatype logFormat = TextLog | JsonLog

definition parseLogFormat :: "(gostr \<Rightarrow> gostr) \<Rightarrow> (gostr \<Rightarrow> gostr) \<Rightarrow> gostr \<Rightarrow> gostr + logFormat" where
  "parseLogFormat ul quote s =
     (let l = to_lower ul s in
      if l = ''text'' then Inr TextLog
      else if l = ''json'' then Inr JsonLog
      else Inl (''unsupported log format: '' @ quote s))"

record server =
  sv_config :: config
  sv_address :: gostr
  sv_pidFile :: gostr
  sv_accessLogFile :: gostr
  sv_accessLogFormat :: logFormat
  sv_authenticator :: "authenticator option"
  sv_withoutAuthz :: bool
  sv_dbSharedDir :: gostr
  sv_dbPrivateRoot :: gostr
  sv_dbSettings :: settings
  sv_dbInitQuery :: gostr

text \<open>\<open>New\<close>; \<open>abspath\<close> is \<open>filepath.Abs\<close> and \<open>load\<close> is \<open>authn.LoadFile\<close>.\<close>

definition Server_New ::
  "(gostr \<Rightarrow> gostr) \<Rightarrow> (gostr \<Rightarrow> gostr) \<Rightarrow> (gostr \<Rightarrow> gostr + gostr) \<Rightarrow> (gostr \<Rightarrow> gostr + authenticator)
   \<Rightarrow> config \<Rightarrow> gostr + server" where
  "Server_New ul quote abspath load c =
     (case abspath (cf_DBHomeDir c) of
        Inl err \<Rightarrow> Inl (''failed to determine DBHomeDir: '' @ err)
      | Inr homedir \<Rightarrow>
          (case parseLogFormat ul quote (cf_AccessLogFormat c) of
             Inl err \<Rightarrow> Inl err
           | Inr lf \<Rightarrow>
               (case (if cf_AuthnFile c \<noteq> [] then map_sum id Some (load (cf_AuthnFile c)) else Inr None) of
                  Inl err \<Rightarrow> Inl err
                | Inr a \<Rightarrow>
                    Inr \<lparr>sv_config = c, sv_address = cf_Address c, sv_pidFile = cf_PIDFile c,
                      sv_accessLogFile = cf_AccessLogFile c, sv_accessLogFormat = lf, sv_authenticator = a,
                      sv_withoutAuthz = cf_NoAuthz c,
                      sv_dbSharedDir = filepath_Join [homedir, ''shared''],
                      sv_dbPrivateRoot = filepath_Join [homedir, ''private''],
                      sv_dbSettings =
                        \<lparr>HomeDir = homedir, Threads = cf_DBThreads c, MemoryLimit = cf_DBMemoryLimit c,
                         ExtensionDir = filepath_Join [homedir, ''extensions''],
                         SecretDir = filepath_Join [homedir, ''stored_secrets''],
                         TempDir = filepath_Join [homedir, ''tmp''],
                         MaxTempDirSize = cf_DBMaxTempDirSize c, AllowedDirectories = [],
                         EnableExternalAccess = cf_DBExternalAccess c, LockConfig = cf_DBLockConfig c\<rparr>,
                      sv_dbInitQuery = cf_DBInitQuery c\<rparr>)))"

subsection \<open>The world of the databases\<close>

text \<open>\<open>os.MkdirAll\<close> with the permission bits, \<open>os.RemoveAll\<close>, DuckDB, \<open>PingContext\<close> and
  \<open>SetMaxIdleConns\<close>.\<close>

record 'w dbenv =
  db_mkdir :: "gostr \<Rightarrow> nat \<Rightarrow> 'w \<Rightarrow> 'w \<times> gostr option"
  db_remove_all :: "gostr \<Rightarrow> 'w \<Rightarrow> 'w \<times> gostr option"
  db_duck :: "'w duck"
  db_ping :: "nat \<Rightarrow> 'w \<Rightarrow> 'w \<times> gostr option"
  db_set_max_idle :: "nat \<Rightarrow> nat \<Rightarrow> 'w \<Rightarrow> 'w"

definition sqlapi_of :: "'w dbenv \<Rightarrow> 'w sqlapi" where
  "sqlapi_of env = \<lparr>sql_db_close = dk_db_close (db_duck env), sql_conn_close = dk_conn_close (db_duck env),
     sql_set_max_idle = db_set_max_idle env\<rparr>"

definition private_dir :: "server \<Rightarrow> u32 \<Rightarrow> gostr" where
  "private_dir srv i = filepath_Join [sv_dbPrivateRoot srv, cid_String i]"

definition getPrivateDir :: "'w dbenv \<Rightarrow> server \<Rightarrow> entry ctx \<Rightarrow> bool \<Rightarrow> 'w \<Rightarrow> 'w \<times> (gostr + gostr)" where
  "getPrivateDir env srv ctx makeDir w =
     (if sv_dbPrivateRoot srv = [] then (w, Inr [])
      else (case GetID ctx of
          None \<Rightarrow> (w, Inr [])
        | Some connID \<Rightarrow>
            (let privateDir = private_dir srv connID in
             if makeDir then
               (case db_mkdir env privateDir 448 w of
                  (w1, Some err) \<Rightarrow> (w1, Inl err)
                | (w1, None) \<Rightarrow> (w1, Inr privateDir))
             else (w, Inr privateDir))))"

definition macro_query :: "gostr \<Rightarrow> gostr \<Rightarrow> gostr" where
  "macro_query name dir =
     ''CREATE MACRO '' @ name @ ''(name) AS concat('' @ [CHR 0x27] @ dir @ [CHR 0x27] @ '', '' @
     [CHR 0x27] @ ''/'' @ [CHR 0x27] @ '', name)''"

text \<open>The initialisation queries that \<open>connectDuckDB\<close> prepares, and the directories it allows.\<close>

definition conn_queries :: "server \<Rightarrow> entry ctx \<Rightarrow> gostr \<Rightarrow> gostr list" where
  "conn_queries srv ctx privateDir =
     (if sv_dbSharedDir srv \<noteq> [] then [macro_query ''public_dir'' (sv_dbSharedDir srv)] else []) @
     (if privateDir \<noteq> [] then [macro_query ''private_dir'' privateDir] else []) @
     (if sv_dbInitQuery srv \<noteq> [] then [sv_dbInitQuery srv] else []) @
     (case AuthnEntry ctx of
        Some entry \<Rightarrow> if entry_InitQuery entry \<noteq> [] then [entry_InitQuery entry] else []
      | None \<Rightarrow> [])"

definition allowed_dirs :: "server \<Rightarrow> gostr \<Rightarrow> gostr list" where
  "allowed_dirs srv privateDir =
     AllowedDirectories (sv_dbSettings srv) @
     (if sv_dbSharedDir srv \<noteq> [] then [sv_dbSharedDir srv] else []) @
     (if privateDir \<noteq> [] then [privateDir] else [])"

definition connectDuckDB :: "'w dbenv \<Rightarrow> server \<Rightarrow> (entry, 'w) opener" where
  "connectDuckDB env srv ctx w =
     (case (if sv_dbSharedDir srv \<noteq> [] then db_mkdir env (sv_dbSharedDir srv) 488 w else (w, None)) of
        (w1, Some err) \<Rightarrow> (w1, Inl err)
      | (w1, None) \<Rightarrow>
          (case getPrivateDir env srv ctx True w1 of
             (w2, Inl err) \<Rightarrow> (w2, Inl err)
           | (w2, Inr privateDir) \<Rightarrow>
               (let settings = (sv_dbSettings srv)\<lparr>AllowedDirectories := allowed_dirs srv privateDir\<rparr> in
                duckdbinit_Open (db_duck env) settings (conn_queries srv ctx privateDir) w2)))"

definition closeDuckDB :: "'w dbenv \<Rightarrow> server \<Rightarrow> (entry, 'w) closer" where
  "closeDuckDB env srv ctx db w =
     (let (w1, r) = getPrivateDir env srv ctx False w;
          privateDir = (case r of Inl err \<Rightarrow> [] | Inr d \<Rightarrow> d);
          w2 = (if privateDir \<noteq> [] then fst (db_remove_all env privateDir w1) else w1) in
      dk_db_close (db_duck env) db w2)"

text \<open>\<open>checkDB\<close>: the deferred closes run in reverse order.\<close>

definition checkDB :: "'w dbenv \<Rightarrow> server \<Rightarrow> 'w \<Rightarrow> 'w \<times> gostr option" where
  "checkDB env srv w =
     (case connectDuckDB env srv background w of
        (w1, Inl err) \<Rightarrow> (w1, Some err)
      | (w1, Inr (db, conn)) \<Rightarrow>
          (let (w2, err) = db_ping env conn w1;
               w3 = fst (dk_db_close (db_duck env) db w2);
               w4 = fst (dk_conn_close (db_duck env) conn w3) in
           (w4, err)))"

text \<open>The accessors that the tests use.\<close>

definition SharedDir :: "server \<Rightarrow> gostr" where
  "SharedDir srv = sv_dbSharedDir srv"

definition PrivateRoot :: "server \<Rightarrow> gostr" where
  "PrivateRoot srv = sv_dbPrivateRoot srv"

text \<open>The connection manager that \<open>New\<close> sets up.\<close>

definition server_manager :: "'w dbenv \<Rightarrow> server \<Rightarrow> (entry, 'w) manager" where
  "server_manager env srv =
     new_manager (cf_MaxDB (sv_config srv)) (Some (connectDuckDB env srv)) (Some (closeDuckDB env srv))"

subsection \<open>The opener keeps the contract of the connection manager\<close>

text \<open>What is asked of DuckDB and the operating system: opening a database yields a handle that was not
  there before, and nothing else changes which handles there are.\<close>

locale fresh_duck =
  fixes env :: "'w dbenv" and used :: "'w \<Rightarrow> nat set"
  assumes duck_open: "dk_open (db_duck env) d w = (w', Inr db) \<Longrightarrow> db \<notin> used w \<and> insert db (used w) \<subseteq> used w'"
    and duck_open_fail: "dk_open (db_duck env) d w = (w', Inl err) \<Longrightarrow> used w \<subseteq> used w'"
    and duck_close: "used w \<subseteq> used (fst (dk_db_close (db_duck env) db w))"
    and duck_conn: "used w \<subseteq> used (fst (dk_conn (db_duck env) db w))"
    and duck_exec: "used w \<subseteq> used (fst (dk_exec (db_duck env) conn st w))"
    and duck_conn_close: "used w \<subseteq> used (fst (dk_conn_close (db_duck env) conn w))"
    and mkdir_used: "used w \<subseteq> used (fst (db_mkdir env d k w))"
    and remove_used: "used w \<subseteq> used (fst (db_remove_all env d w))"
    and max_idle_used: "used w \<subseteq> used (db_set_max_idle env db n w)"
begin

lemma run_stmts_used: "used w \<subseteq> used (fst (run_stmts (db_duck env) conn sts w))"
proof (induction sts arbitrary: w)
  case Nil
  then show ?case by simp
next
  case (Cons st sts)
  obtain w1 e where x: "dk_exec (db_duck env) conn st w = (w1, e)" by fastforce
  then have "used w \<subseteq> used w1" using duck_exec [of w conn st] by simp
  with x Cons.IH [of w1] show ?case by (cases e) auto
qed

lemma settings_init_used: "used w \<subseteq> used (fst (settings_init (db_duck env) s conn qs w))"
proof -
  obtain w1 e where r: "run_stmts (db_duck env) conn (apply_stmts s @ query_stmts qs) w = (w1, e)" by fastforce
  then have "used w \<subseteq> used w1" using run_stmts_used [of w conn] by (metis fst_conv)
  with r run_stmts_used [of w1 conn "lock_stmts s"] show ?thesis
    by (cases e) (auto simp: settings_init_run)
qed

text \<open>\<open>duckdbinit.Open\<close>: a database it returns is new, and an attempt that fails gives none back.\<close>

lemma Open_used:
  assumes "duckdbinit_Open (db_duck env) s qs w = (w', r)"
  shows "used w \<subseteq> used w' \<and> (\<forall>db conn. r = Inr (db, conn) \<longrightarrow> db \<notin> used w \<and> db \<in> used w')"
proof -
  obtain w1 h where op: "dk_open (db_duck env) (dsn (HomeDir s)) w = (w1, h)" by fastforce
  show ?thesis
  proof (cases h)
    case (Inl err)
    with op assms duck_open_fail show ?thesis by (auto simp: duckdbinit_Open_def)
  next
    case (Inr db)
    with op duck_open have db: "db \<notin> used w" "insert db (used w) \<subseteq> used w1" by blast+
    obtain w2 c where c: "dk_conn (db_duck env) db w1 = (w2, c)" by fastforce
    then have w2: "used w1 \<subseteq> used w2" using duck_conn [of w1 db] by simp
    show ?thesis
    proof (cases c)
      case (Inl err)
      then have "w' = fst (dk_db_close (db_duck env) db w2)" "r = Inl err"
        using assms op Inr c by (auto simp: duckdbinit_Open_def)
      with db w2 duck_close [of w2 db] show ?thesis by auto
    next
      case (Inr conn)
      obtain w3 e where i: "settings_init (db_duck env) s conn qs w2 = (w3, e)" by fastforce
      then have w3: "used w2 \<subseteq> used w3" using settings_init_used [of w2 s conn qs] by simp
      show ?thesis
      proof (cases e)
        case None
        then have "w' = w3" "r = Inr (db, conn)"
          using assms op \<open>h = Inr db\<close> c Inr i by (auto simp: duckdbinit_Open_def)
        with db w2 w3 show ?thesis by auto
      next
        case (Some err)
        let ?w4 = "fst (dk_conn_close (db_duck env) conn w3)"
        from Some have w': "w' = fst (dk_db_close (db_duck env) db ?w4)" and r: "r = Inl err"
          using assms op \<open>h = Inr db\<close> c Inr i by (auto simp: duckdbinit_Open_def Let_def)
        have "used w \<subseteq> used w1" using db(2) by simp
        also note w2
        also note w3
        also have "used w3 \<subseteq> used ?w4" by (rule duck_conn_close)
        also have "used ?w4 \<subseteq> used w'" unfolding w' by (rule duck_close)
        finally show ?thesis using r by simp
      qed
    qed
  qed
qed

lemma getPrivateDir_used: "used w \<subseteq> used (fst (getPrivateDir env srv ctx b w))"
proof (cases "GetID ctx")
  case None
  then show ?thesis by (simp add: getPrivateDir_def)
next
  case (Some i)
  obtain w1 e where m: "db_mkdir env (private_dir srv i) 448 w = (w1, e)" by fastforce
  then have "used w \<subseteq> used w1" using mkdir_used [of w "private_dir srv i" 448] by simp
  with Some m show ?thesis by (cases e) (auto simp: getPrivateDir_def Let_def)
qed

lemma connectDuckDB_used:
  assumes "connectDuckDB env srv ctx w = (w', r)"
  shows "used w \<subseteq> used w' \<and> (\<forall>db conn. r = Inr (db, conn) \<longrightarrow> db \<notin> used w \<and> db \<in> used w')"
proof -
  obtain w1 e1 where m: "(if sv_dbSharedDir srv \<noteq> [] then db_mkdir env (sv_dbSharedDir srv) 488 w else (w, None)) = (w1, e1)"
    by fastforce
  then have w1: "used w \<subseteq> used w1"
    using mkdir_used [of w "sv_dbSharedDir srv" 488] by (auto split: if_splits)
  obtain w2 p where g: "getPrivateDir env srv ctx True w1 = (w2, p)" by fastforce
  then have w2: "used w1 \<subseteq> used w2" using getPrivateDir_used [of w1 srv ctx True] by simp
  consider (mk) err where "e1 = Some err" | (priv) err where "e1 = None" "p = Inl err" | (ok) d where "e1 = None" "p = Inr d"
    by (cases e1; cases p) auto
  then show ?thesis
  proof cases
    case mk
    with assms m w1 show ?thesis by (auto simp: connectDuckDB_def)
  next
    case priv
    with assms m g w1 w2 show ?thesis by (auto simp: connectDuckDB_def)
  next
    case ok
    with assms m g have "duckdbinit_Open (db_duck env) ((sv_dbSettings srv)\<lparr>AllowedDirectories := allowed_dirs srv d\<rparr>)
        (conn_queries srv ctx d) w2 = (w', r)" by (simp add: connectDuckDB_def Let_def)
    from Open_used [OF this] w1 w2 show ?thesis by blast
  qed
qed

lemma closeDuckDB_used: "used w \<subseteq> used (fst (closeDuckDB env srv ctx db w))"
proof -
  obtain w1 r where g: "getPrivateDir env srv ctx False w = (w1, r)" by fastforce
  let ?d = "case r of Inl err \<Rightarrow> [] | Inr d \<Rightarrow> d"
  let ?w2 = "if ?d \<noteq> [] then fst (db_remove_all env ?d w1) else w1"
  have "used w \<subseteq> used w1" using g getPrivateDir_used [of w srv ctx False] by simp
  also have "used w1 \<subseteq> used ?w2" using remove_used by simp
  also have "used ?w2 \<subseteq> used (fst (dk_db_close (db_duck env) db ?w2))" by (rule duck_close)
  finally show ?thesis using g by (simp add: closeDuckDB_def Let_def)
qed

end

sublocale fresh_duck \<subseteq> db_provider "sqlapi_of env" "connectDuckDB env srv" "closeDuckDB env srv" used
proof (unfold_locales, goal_cases)
  case (1 ctx w w' db conn)
  from connectDuckDB_used [OF this] show ?case by blast
next
  case (2 ctx w w' err)
  from connectDuckDB_used [OF this] show ?case by blast
next
  case (3 w db n)
  show ?case using max_idle_used by (simp add: sqlapi_of_def)
next
  case (4 w ctx db)
  show ?case by (rule closeDuckDB_used)
next
  case (5 w conn)
  show ?case using duck_conn_close by (simp add: sqlapi_of_def)
qed

end
