(* ===== verification/Querydb.thy ===== *)
theory Querydb
  imports Conndb
begin

section \<open>internal/querydb: the running queries\<close>

text \<open>
  \<open>internal/querydb/querydb.go\<close>: query identifiers with their printed form and parser, the
  database of running queries, and the cancellable contexts its queries run under.
\<close>

subsection \<open>Identifiers\<close>

definition qid_String :: "u32 \<Rightarrow> gostr" where
  "qid_String i = ''Q_'' @ hex8 i"

interpretation qid: tagged_id qid_String "''Q_''"
  by unfold_locales (simp add: qid_String_def)

text \<open>\<open>ParseID\<close>: the error is the one of the missing tag, or the one of \<open>strconv.ParseUint\<close> on the rest.\<close>

datatype parse_id_error = NoTag | NumError num_error gostr

definition ParseID :: "gostr \<Rightarrow> parse_id_error + u32" where
  "ParseID s =
     (if \<not> has_prefix s ''Q_'' then Inl NoTag
      else (case parse_uint_hex32 (drop 2 s) of
          Inl err \<Rightarrow> Inl (NumError err (drop 2 s))
        | Inr n \<Rightarrow> Inr n))"

text \<open>The text of the error; \<open>quote\<close> is \<open>strconv.Quote\<close>.\<close>

fun parse_id_text :: "(gostr \<Rightarrow> gostr) \<Rightarrow> parse_id_error \<Rightarrow> gostr" where
  "parse_id_text quote NoTag = ''query ID should start with \"Q_\"''"
| "parse_id_text quote (NumError err s) =
     ''strconv.ParseUint: parsing '' @ quote s @ '': '' @
     (case err of ErrSyntax \<Rightarrow> ''invalid syntax'' | ErrRange \<Rightarrow> ''value out of range'')"

lemma ParseID_Inr_iff:
  "ParseID s = Inr i \<longleftrightarrow>
     (\<exists>h. s = ''Q_'' @ h \<and> h \<noteq> [] \<and> hex_num 0 h = Some (unat i))"
proof
  assume a: "ParseID s = Inr i"
  then have p: "has_prefix s ''Q_''" by (auto simp: ParseID_def split: if_splits)
  then obtain h where h: "s = ''Q_'' @ h" unfolding has_prefix_iff by blast
  with a have "parse_uint_hex32 h = Inr i" by (auto simp: ParseID_def split: sum.splits)
  with h show "\<exists>h. s = ''Q_'' @ h \<and> h \<noteq> [] \<and> hex_num 0 h = Some (unat i)"
    by (auto simp: parse_uint_hex32_Inr_iff)
next
  assume "\<exists>h. s = ''Q_'' @ h \<and> h \<noteq> [] \<and> hex_num 0 h = Some (unat i)"
  then obtain h where h: "s = ''Q_'' @ h" "parse_uint_hex32 h = Inr i"
    by (auto simp: parse_uint_hex32_Inr_iff)
  then show "ParseID s = Inr i" by (simp add: ParseID_def)
qed

subsection \<open>Cancellable contexts\<close>

text \<open>
  \<open>context.WithCancel\<close>: contexts are numbered; a query's context is a child of its request's context,
  and is done when it or its parent has been cancelled.
\<close>

record ctxstore =
  cs_next :: nat
  cs_parent :: "(nat \<times> nat) list"
  cs_cancelled :: "nat set"

definition cs_empty :: ctxstore where
  "cs_empty = \<lparr>cs_next = 0, cs_parent = [], cs_cancelled = {}\<rparr>"

definition new_root :: "ctxstore \<Rightarrow> ctxstore \<times> nat" where
  "new_root cs = (cs\<lparr>cs_next := Suc (cs_next cs)\<rparr>, cs_next cs)"

definition WithCancel :: "ctxstore \<Rightarrow> nat \<Rightarrow> ctxstore \<times> nat" where
  "WithCancel cs parent =
     (cs\<lparr>cs_next := Suc (cs_next cs), cs_parent := (cs_next cs, parent) # cs_parent cs\<rparr>, cs_next cs)"

definition cancel :: "ctxstore \<Rightarrow> nat \<Rightarrow> ctxstore" where
  "cancel cs i = cs\<lparr>cs_cancelled := insert i (cs_cancelled cs)\<rparr>"

definition ctx_done :: "ctxstore \<Rightarrow> nat \<Rightarrow> bool" where
  "ctx_done cs i \<longleftrightarrow> i \<in> cs_cancelled cs \<or>
     (case map_of (cs_parent cs) i of None \<Rightarrow> False | Some p \<Rightarrow> p \<in> cs_cancelled cs)"

subsection \<open>The database\<close>

record query =
  q_ID :: u32
  q_ConnID :: u32
  q_Query :: gostr
  q_Start :: int
  q_ctx :: nat

text \<open>The context that a query runs under.\<close>

definition query_Context :: "query \<Rightarrow> nat" where
  [simp]: "query_Context q = q_ctx q"

record querydb =
  qd_queries :: "(u32 \<rightharpoonup> query) option"

definition qd_zero :: querydb where
  "qd_zero = \<lparr>qd_queries = None\<rparr>"

text \<open>Reading \<open>db.queries\<close>: a nil map has no entries.\<close>

definition qd_map :: "querydb \<Rightarrow> u32 \<Rightarrow> query option" where
  "qd_map db = (case qd_queries db of None \<Rightarrow> Map.empty | Some m \<Rightarrow> m)"

fun newID :: "querydb \<Rightarrow> u32 list \<Rightarrow> (u32 \<times> u32 list) option" where
  "newID db [] = None"
| "newID db (i # ds) = (if qd_map db i \<noteq> None then newID db ds else Some (i, ds))"

definition Add ::
  "querydb \<Rightarrow> ctxstore \<Rightarrow> nat \<Rightarrow> u32 \<Rightarrow> gostr \<Rightarrow> int \<Rightarrow> u32 list
   \<Rightarrow> (querydb \<times> ctxstore \<times> query \<times> u32 list) option" where
  "Add db cs ctx connID query now draws =
     (let (cs1, qctx) = WithCancel cs ctx;
          db1 = (if qd_queries db = None then db\<lparr>qd_queries := Some Map.empty\<rparr> else db) in
      case newID db1 draws of
        None \<Rightarrow> None
      | Some (i, rest) \<Rightarrow>
          (let q = \<lparr>q_ID = i, q_ConnID = connID, q_Query = query, q_Start = now, q_ctx = qctx\<rparr> in
           Some (db1\<lparr>qd_queries := Some ((qd_map db1)(i \<mapsto> q))\<rparr>, cs1, q, rest)))"

definition qd_remove :: "querydb \<Rightarrow> u32 \<Rightarrow> querydb \<times> bool" where
  "qd_remove db i =
     (case qd_queries db of
        None \<Rightarrow> (db, False)
      | Some m \<Rightarrow> if m i = None then (db, False) else (db\<lparr>qd_queries := Some (m(i := None))\<rparr>, True))"

definition Queries :: "querydb \<Rightarrow> u32 list \<Rightarrow> query list" where
  "Queries db order = List.map_filter (qd_map db) order"

definition Query :: "querydb \<Rightarrow> u32 \<Rightarrow> query option" where
  "Query db i = qd_map db i"

definition q_Close :: "querydb \<Rightarrow> ctxstore \<Rightarrow> query \<Rightarrow> querydb \<times> ctxstore" where
  "q_Close db cs q =
     (let (db1, removed) = qd_remove db (q_ID q) in
      if \<not> removed then (db1, cs) else (db1, cancel cs (q_ctx q)))"

record query_stats =
  qs_ID :: gostr
  qs_ConnID :: gostr
  qs_Query :: gostr
  qs_Start :: gostr
  qs_Duration :: gostr

text \<open>\<open>rfc3339\<close> is the formatting of a time stamp, which depends on the local time zone.\<close>

definition q_Stats :: "(int \<Rightarrow> gostr) \<Rightarrow> query \<Rightarrow> int \<Rightarrow> query_stats" where
  "q_Stats rfc3339 q now =
     \<lparr>qs_ID = qid_String (q_ID q), qs_ConnID = cid_String (q_ConnID q), qs_Query = q_Query q,
      qs_Start = rfc3339 (q_Start q), qs_Duration = dur_str (now - q_Start q)\<rparr>"

interpretation qalloc: id_alloc "\<lambda>db i. qd_map db i \<noteq> None" newID
  by unfold_locales auto

subsection \<open>What the operations do to the map\<close>

lemma qd_map_zero [simp]: "qd_map qd_zero = Map.empty"
  by (simp add: qd_map_def qd_zero_def)

lemma qd_map_init: "qd_map (if qd_queries db = None then db\<lparr>qd_queries := Some Map.empty\<rparr> else db) = qd_map db"
  by (simp add: qd_map_def)

lemma newID_init:
  "newID (if qd_queries db = None then db\<lparr>qd_queries := Some Map.empty\<rparr> else db) ds = newID db ds"
proof -
  have "qd_map db1 = qd_map db2 \<Longrightarrow> newID db1 ds = newID db2 ds" for db1 db2
    by (induction ds) simp_all
  then show ?thesis using qd_map_init by blast
qed

lemma qd_queries_update [simp]: "db\<lparr>qd_queries := x\<rparr> = \<lparr>qd_queries = x\<rparr>" for db :: querydb
  by (cases db) simp

lemma Add_Some_iff:
  "Add db cs ctx cid sql now ds = Some (db', cs', q, rest) \<longleftrightarrow>
     (\<exists>i. newID db ds = Some (i, rest) \<and>
       q = \<lparr>q_ID = i, q_ConnID = cid, q_Query = sql, q_Start = now, q_ctx = cs_next cs\<rparr> \<and>
       db' = \<lparr>qd_queries = Some ((qd_map db)(i \<mapsto> q))\<rparr> \<and> cs' = fst (WithCancel cs ctx))"
proof -
  have "Add db cs ctx cid sql now ds = (case newID db ds of None \<Rightarrow> None
    | Some (i, rest) \<Rightarrow>
        (let q = \<lparr>q_ID = i, q_ConnID = cid, q_Query = sql, q_Start = now, q_ctx = cs_next cs\<rparr> in
         Some (\<lparr>qd_queries = Some ((qd_map db)(i \<mapsto> q))\<rparr>, fst (WithCancel cs ctx), q, rest)))"
    unfolding Add_def Let_def WithCancel_def split_beta newID_init qd_map_init
    unfolding qd_queries_update
    by (auto simp: split_beta split: option.split)
  then show ?thesis by (auto simp: Let_def split: option.splits)
qed

lemma qd_map_remove: "qd_map (fst (qd_remove db i)) = (qd_map db)(i := None)"
  by (auto simp: qd_remove_def qd_map_def fun_eq_iff split: option.splits)

lemma qd_remove_removed: "snd (qd_remove db i) \<longleftrightarrow> qd_map db i \<noteq> None"
  by (auto simp: qd_remove_def qd_map_def split: option.splits)

lemma q_Close_map: "qd_map (fst (q_Close db cs q)) = (qd_map db)(q_ID q := None)"
  using qd_map_remove [of db "q_ID q"]
  by (cases "qd_remove db (q_ID q)") (auto simp: q_Close_def)

lemma q_Close_ctx:
  "snd (q_Close db cs q) = (if qd_map db (q_ID q) = None then cs else cancel cs (q_ctx q))"
  using qd_remove_removed [of db "q_ID q"]
  by (cases "qd_remove db (q_ID q)") (auto simp: q_Close_def)

lemma cancel_done: "ctx_done (cancel cs i) i"
  by (simp add: ctx_done_def cancel_def)

lemma cancel_other: "ctx_done cs j \<Longrightarrow> ctx_done (cancel cs i) j"
  by (auto simp: ctx_done_def cancel_def split: option.splits)

lemma Queries_set:
  "iter_order (qd_map db) order \<Longrightarrow> set (Queries db order) = ran (qd_map db)"
  by (force simp: Queries_def iter_order_def List.map_filter_def ran_def)

end
