(* ===== verification/Formatter.thy ===== *)
theory Formatter
  imports Gostd
begin

section \<open>internal/formatter: values as text, and the registry of formats\<close>

text \<open>
  \<open>internal/formatter/formatter.go\<close>: how the values of a result row are printed (dates, times,
  intervals, blobs), the registry of formats by case-insensitive name, and \<open>FindAndCreate\<close>, which
  reads a format with its parameters, such as \<open>csv,null:(null)\<close>. Machine integers have their width:
  \<open>us -= h * hour\<close> is the subtraction of 64-bit words. A type assertion that fails panics; a
  conversion that may panic returns an option.
\<close>

subsection \<open>Machine division\<close>

text \<open>Go's \<open>/\<close> and \<open>%\<close> on signed integers: truncation towards zero, wrapped to the width.\<close>

definition w_sdiv :: "'a::len word \<Rightarrow> 'a word \<Rightarrow> 'a word" where
  "w_sdiv a b = word_of_int (sint a sdiv sint b)"

definition w_smod :: "'a::len word \<Rightarrow> 'a word \<Rightarrow> 'a word" where
  "w_smod a b = word_of_int (sint a smod sint b)"

lemma sdiv_pos: "0 < c \<Longrightarrow> 0 \<le> a \<Longrightarrow> a sdiv c = a div c" for a c :: int
  by (cases "a = 0") (auto simp: signed_divide_int_def)

lemma sdiv_neg: "0 < c \<Longrightarrow> a < 0 \<Longrightarrow> a sdiv c = - ((- a) div c)" for a c :: int
  by (auto simp: signed_divide_int_def)

lemma smod_pos: "0 < c \<Longrightarrow> 0 \<le> a \<Longrightarrow> a smod c = a mod c" for a c :: int
  by (cases "a = 0") (auto simp: signed_modulo_int_def)

lemma smod_neg: "0 < c \<Longrightarrow> a < 0 \<Longrightarrow> a smod c = - ((- a) mod c)" for a c :: int
  by (auto simp: signed_modulo_int_def)

lemma sdiv_between: "0 < c \<Longrightarrow> min a 0 \<le> a sdiv c \<and> a sdiv c \<le> max a 0" for a c :: int
proof (cases "0 \<le> a")
  case True
  moreover assume c: "0 < c"
  moreover from True c have "a div c \<le> a" using zdiv_mono2 [of a 1 c] by simp
  ultimately show ?thesis by (simp add: sdiv_pos pos_imp_zdiv_nonneg_iff)
next
  case False
  moreover assume c: "0 < c"
  moreover from False c have "(- a) div c \<le> - a" using zdiv_mono2 [of "- a" 1 c] by simp
  ultimately show ?thesis by (simp add: sdiv_neg pos_imp_zdiv_nonneg_iff)
qed

lemma smod_between: "0 < c \<Longrightarrow> min a 0 \<le> a smod c \<and> a smod c \<le> max a 0" for a c :: int
proof (cases "0 \<le> a")
  case True
  then show "0 < c \<Longrightarrow> ?thesis" by (simp add: smod_pos zmod_le_nonneg_dividend)
next
  case False
  then show "0 < c \<Longrightarrow> ?thesis"
    using zmod_le_nonneg_dividend [of "- a" c] by (simp add: smod_neg)
qed

lemma smod_abs_lt: "0 < c \<Longrightarrow> \<bar>a smod c\<bar> < c" for a c :: int
  by (cases "0 \<le> a") (simp_all add: smod_pos smod_neg)

lemma sint_between:
  assumes "min (sint (a :: 'a::len word)) 0 \<le> x" and "x \<le> max (sint a) 0"
  shows "sint (word_of_int x :: 'a word) = x"
proof -
  have lo: "- (2 ^ (LENGTH('a) - 1)) \<le> sint a" and hi: "sint a < 2 ^ (LENGTH('a) - 1)"
    using sint_ge [of a] sint_lt [of a] by auto
  have p: "(0 :: int) < 2 ^ (LENGTH('a) - 1)" by simp
  have "- (2 ^ (LENGTH('a) - 1)) \<le> x" using assms(1) lo p by linarith
  moreover have "x < 2 ^ (LENGTH('a) - 1)" using assms(2) hi p by linarith
  ultimately show ?thesis by (simp add: sint_sbintrunc' signed_take_bit_int_eq_self)
qed

text \<open>Division by a positive number never wraps, and neither does taking the quotient back out.\<close>

lemma sint_w_sdiv: "0 < sint b \<Longrightarrow> sint (w_sdiv a b) = sint a sdiv sint b"
  unfolding w_sdiv_def using sint_between [of a] sdiv_between by blast

lemma sint_w_smod: "0 < sint b \<Longrightarrow> sint (w_smod a b) = sint a smod sint b"
  unfolding w_smod_def using sint_between [of a] smod_between by blast

lemma take_quotient_out:
  assumes "0 < sint b"
  shows "sint (a - w_sdiv a b * b) = sint a smod sint b"
proof -
  have "a - w_sdiv a b * b = word_of_int (sint a - (sint a sdiv sint b) * sint b)"
    by (simp add: w_sdiv_def)
  also have "sint a - (sint a sdiv sint b) * sint b = sint a smod sint b"
    by (rule minus_sdiv_mult_eq_smod)
  finally show ?thesis using sint_between [of a] smod_between [OF assms] by metis
qed

subsection \<open>Values\<close>

text \<open>
  The dynamic values a driver puts into a row: those the program looks into, and the rest. A
  \<open>time.Time\<close> is its civil fields; \<open>duckdb.Interval\<close> has its three machine integers.
\<close>

record civil =
  cv_year :: int
  cv_month :: nat
  cv_day :: nat
  cv_hour :: nat
  cv_minute :: nat
  cv_second :: nat

record interval =
  iv_Days :: "32 word"
  iv_Months :: "32 word"
  iv_Micros :: u64

datatype goval =
    GNil
  | GStr gostr
  | GBool bool
  | GInt int
  | GUint64 u64
  | GBigInt int
  | GBytes gostr
  | GTime civil
  | GInterval interval
  | GOther nat

text \<open>\<open>fmt.Sprint(v)\<close>; \<open>sp\<close> prints the values of the other types.\<close>

definition go_sprint :: "(goval \<Rightarrow> gostr) \<Rightarrow> goval \<Rightarrow> gostr" where
  "go_sprint sp v = (case v of
     GNil \<Rightarrow> ''<nil>''
   | GStr s \<Rightarrow> s
   | GBool b \<Rightarrow> (if b then ''true'' else ''false'')
   | GInt i \<Rightarrow> int_dec i
   | GUint64 n \<Rightarrow> nat_dec (unat n)
   | GBigInt i \<Rightarrow> int_dec i
   | GBytes bs \<Rightarrow> ''['' @ join_with '' '' (map (\<lambda>c. nat_dec (of_char c)) bs) @ '']''
   | _ \<Rightarrow> sp v)"

definition AnyToStr :: "(goval \<Rightarrow> gostr) \<Rightarrow> goval \<Rightarrow> gostr option" where
  "AnyToStr sp v = Some (go_sprint sp v)"

text \<open>The layouts of \<open>Time.Format\<close> that are used; a number is padded to its width, after the sign.\<close>

definition pad_int :: "nat \<Rightarrow> int \<Rightarrow> gostr" where
  "pad_int k i = (if i < 0 then ''-'' else []) @ pad_left k CHR ''0'' (nat_dec (nat \<bar>i\<bar>))"

definition fmt_date :: "civil \<Rightarrow> gostr" where
  "fmt_date t = pad_int 4 (cv_year t) @ ''-'' @ pad_int 2 (int (cv_month t)) @ ''-'' @ pad_int 2 (int (cv_day t))"

definition fmt_time :: "civil \<Rightarrow> gostr" where
  "fmt_time t = pad_int 2 (int (cv_hour t)) @ '':'' @ pad_int 2 (int (cv_minute t)) @ '':'' @
     pad_int 2 (int (cv_second t))"

definition DateToStr :: "goval \<Rightarrow> gostr option" where
  "DateToStr v = (case v of GTime t \<Rightarrow> Some (fmt_date t) | _ \<Rightarrow> None)"

definition TimeToStr :: "goval \<Rightarrow> gostr option" where
  "TimeToStr v = (case v of GTime t \<Rightarrow> Some (fmt_time t) | _ \<Rightarrow> None)"

definition TimestampToStr :: "goval \<Rightarrow> gostr option" where
  "TimestampToStr v = (case v of GTime t \<Rightarrow> Some (fmt_date t @ '' '' @ fmt_time t) | _ \<Rightarrow> None)"

definition BlobToStr :: "goval \<Rightarrow> gostr option" where
  "BlobToStr v = (case v of GBytes bs \<Rightarrow> Some bs | _ \<Rightarrow> None)"

subsection \<open>Intervals\<close>

datatype iunit = Microsecond | Millisecond | Second | Minute | Hour | Day | Month | Year

text \<open>The unit of microseconds is printed with a Greek letter, two bytes in UTF-8.\<close>

definition mu_sign :: gostr where
  "mu_sign = [CHR 0xCE, CHR 0xBC]"

fun unit_str :: "iunit \<Rightarrow> gostr" where
  "unit_str Year = ''y''"
| "unit_str Month = ''mo''"
| "unit_str Day = ''d''"
| "unit_str Hour = ''h''"
| "unit_str Minute = ''m''"
| "unit_str Second = ''s''"
| "unit_str Millisecond = ''ms''"
| "unit_str Microsecond = mu_sign @ ''s''"

definition if_nonzero :: "'a::len word \<Rightarrow> iunit \<Rightarrow> (int \<times> iunit) list" where
  "if_nonzero n u = (if n \<noteq> 0 then [(sint n, u)] else [])"

text \<open>The three blocks of \<open>IntervalToStr\<close>: each part is a number with its unit.\<close>

definition month_parts :: "32 word \<Rightarrow> (int \<times> iunit) list" where
  "month_parts months =
     (if months \<noteq> 0 then
        (let y = w_sdiv months 12; m = w_smod months 12 in if_nonzero y Year @ if_nonzero m Month)
      else [])"

definition micro_parts :: "u64 \<Rightarrow> (int \<times> iunit) list" where
  "micro_parts micros =
     (if micros \<noteq> 0 then
        (let us = micros;
             h = w_sdiv us 3600000000;
             us1 = (if h \<noteq> 0 then us - h * 3600000000 else us);
             m = w_sdiv us1 60000000;
             us2 = (if m \<noteq> 0 then us1 - m * 60000000 else us1);
             s = w_sdiv us2 1000000;
             us3 = (if s \<noteq> 0 then us2 - s * 1000000 else us2);
             ms = w_sdiv us3 1000;
             us4 = (if ms \<noteq> 0 then us3 - ms * 1000 else us3) in
         if_nonzero h Hour @ if_nonzero m Minute @ if_nonzero s Second @
         if_nonzero ms Millisecond @ if_nonzero us4 Microsecond)
      else [])"

definition interval_parts :: "interval \<Rightarrow> (int \<times> iunit) list" where
  "interval_parts iv =
     month_parts (iv_Months iv) @ if_nonzero (iv_Days iv) Day @ micro_parts (iv_Micros iv)"

definition part_str :: "int \<times> iunit \<Rightarrow> gostr" where
  "part_str p = int_dec (fst p) @ unit_str (snd p)"

definition IntervalToStr :: "(goval \<Rightarrow> gostr) \<Rightarrow> goval \<Rightarrow> gostr option" where
  "IntervalToStr sp v = (case v of
     GInterval iv \<Rightarrow>
       (let parts = map part_str (interval_parts iv) in
        Some (if parts = [] then ''0'' else join_with '' '' parts))
   | _ \<Rightarrow> Some (go_sprint sp v))"

text \<open>The order of the units.\<close>

fun unit_rank :: "iunit \<Rightarrow> nat" where
  "unit_rank Microsecond = 0" | "unit_rank Millisecond = 1" | "unit_rank Second = 2"
| "unit_rank Minute = 3" | "unit_rank Hour = 4" | "unit_rank Day = 5" | "unit_rank Month = 6"
| "unit_rank Year = 7"

lemma unit_rank_inject: "unit_rank u = unit_rank v \<Longrightarrow> u = v"
  by (cases u; cases v) auto

instantiation iunit :: linorder
begin

definition less_eq_iunit :: "iunit \<Rightarrow> iunit \<Rightarrow> bool" where
  "less_eq_iunit u v \<longleftrightarrow> unit_rank u \<le> unit_rank v"

definition less_iunit :: "iunit \<Rightarrow> iunit \<Rightarrow> bool" where
  "less_iunit u v \<longleftrightarrow> unit_rank u < unit_rank v"

instance
  by standard (auto simp: less_eq_iunit_def less_iunit_def intro: unit_rank_inject)

end

subsection \<open>What the parts are\<close>

lemma if_nonzero_sint: "if_nonzero n u = (if sint n = 0 then [] else [(sint n, u)])"
proof -
  have "sint n = 0 \<longleftrightarrow> n = 0" by (auto simp: signed_word_eqI)
  then show ?thesis by (simp add: if_nonzero_def)
qed

definition int_if_nonzero :: "int \<Rightarrow> iunit \<Rightarrow> (int \<times> iunit) list" where
  "int_if_nonzero n u = (if n = 0 then [] else [(n, u)])"

lemma if_nonzero_int: "if_nonzero n u = int_if_nonzero (sint n) u"
  by (simp add: if_nonzero_sint int_if_nonzero_def)

text \<open>The parts of an interval over the integers: no step of the machine computation wraps.\<close>

definition int_month_parts :: "int \<Rightarrow> (int \<times> iunit) list" where
  "int_month_parts n = int_if_nonzero (n sdiv 12) Year @ int_if_nonzero (n smod 12) Month"

definition int_micro_parts :: "int \<Rightarrow> (int \<times> iunit) list" where
  "int_micro_parts n =
     (let r1 = n smod 3600000000; r2 = r1 smod 60000000; r3 = r2 smod 1000000 in
      int_if_nonzero (n sdiv 3600000000) Hour @ int_if_nonzero (r1 sdiv 60000000) Minute @
      int_if_nonzero (r2 sdiv 1000000) Second @ int_if_nonzero (r3 sdiv 1000) Millisecond @
      int_if_nonzero (r3 smod 1000) Microsecond)"

lemma month_parts_int: "month_parts n = int_month_parts (sint n)"
proof -
  have c: "sint (12 :: 32 word) = 12" by simp
  show ?thesis
    by (auto simp: month_parts_def int_month_parts_def Let_def if_nonzero_int sint_w_sdiv sint_w_smod c
        int_if_nonzero_def)
qed

lemma remainder_word:
  assumes "0 < sint b"
  shows "sint (if w_sdiv a b \<noteq> 0 then a - w_sdiv a b * b else a) = sint a smod sint b"
proof (cases "w_sdiv a b = 0")
  case True
  with take_quotient_out [OF assms, of a] show ?thesis by simp
next
  case False
  with take_quotient_out [OF assms, of a] show ?thesis by simp
qed

lemma micro_parts_int: "micro_parts n = int_micro_parts (sint n)"
proof -
  have c: "sint (3600000000 :: u64) = 3600000000" "sint (60000000 :: u64) = 60000000"
    "sint (1000000 :: u64) = 1000000" "sint (1000 :: u64) = 1000"
    by simp_all
  have pos: "0 < sint (3600000000 :: u64)" "0 < sint (60000000 :: u64)" "0 < sint (1000000 :: u64)"
    "0 < sint (1000 :: u64)" unfolding c by simp_all
  show ?thesis
  proof (cases "n = 0")
    case True
    then show ?thesis by (simp add: micro_parts_def int_micro_parts_def int_if_nonzero_def)
  next
    case False
    then show ?thesis
      unfolding micro_parts_def int_micro_parts_def Let_def if_nonzero_int
        remainder_word [OF pos(1)] remainder_word [OF pos(2)] remainder_word [OF pos(3)]
        remainder_word [OF pos(4)]
        sint_w_sdiv [OF pos(1)] sint_w_sdiv [OF pos(2)] sint_w_sdiv [OF pos(3)] sint_w_sdiv [OF pos(4)] c
      by simp
  qed
qed

end
