(* ===== verification/Csvfmt.thy ===== *)
theory Csvfmt
  imports Formatter
begin

section \<open>internal/formatter/csv: rows as CSV\<close>

text \<open>
  \<open>internal/formatter/csv/csv.go\<close>, with the parts of the standard library it stands on: the quoting of
  \<open>encoding/csv\<close> and the buffer of \<open>bufio.Writer\<close>. What the buffer is flushed to is a sink of any type
  \<open>'w\<close> with a function \<open>put\<close> that takes bytes and says how many it took and whether it failed.
\<close>

type_synonym 'w put = "'w \<Rightarrow> gostr \<Rightarrow> 'w \<times> nat \<times> gostr option"

subsection \<open>bufio.Writer\<close>

text \<open>
  A buffer of 4096 bytes and a sticky error. A full buffer is flushed; a short count without an error
  is \<open>io.ErrShortWrite\<close>, and what was not taken stays in the buffer.
\<close>

record bufw =
  bw_buf :: gostr
  bw_err :: "gostr option"

definition bw_size :: nat where
  "bw_size = 4096"

definition bw_new :: bufw where
  "bw_new = \<lparr>bw_buf = [], bw_err = None\<rparr>"

definition bw_flush :: "'w put \<Rightarrow> bufw \<Rightarrow> 'w \<Rightarrow> bufw \<times> 'w" where
  "bw_flush put b w =
     (if bw_err b \<noteq> None then (b, w)
      else if bw_buf b = [] then (b, w)
      else (let (w1, n, err) = put w (bw_buf b);
                err1 = (if err = None \<and> n < length (bw_buf b) then Some ''short write'' else err) in
            case err1 of
              Some e \<Rightarrow> (\<lparr>bw_buf = drop n (bw_buf b), bw_err = Some e\<rparr>, w1)
            | None \<Rightarrow> (\<lparr>bw_buf = [], bw_err = None\<rparr>, w1)))"

text \<open>Writing fills the buffer and flushes it as long as there is more than fits.\<close>

fun bw_write :: "'w put \<Rightarrow> bufw \<Rightarrow> 'w \<Rightarrow> gostr \<Rightarrow> bufw \<times> 'w" where
  "bw_write put b w [] = (b, w)"
| "bw_write put b w (c # cs) =
     (if bw_err b \<noteq> None then (b, w)
      else if length (bw_buf b) < bw_size then bw_write put (b\<lparr>bw_buf := bw_buf b @ [c]\<rparr>) w cs
      else (let (b1, w1) = bw_flush put b w in
            if bw_err b1 \<noteq> None then (b1, w1)
            else bw_write put (b1\<lparr>bw_buf := bw_buf b1 @ [c]\<rparr>) w1 cs))"

subsection \<open>encoding/csv.Writer\<close>

definition fieldNeedsQuotes :: "gostr \<Rightarrow> bool" where
  "fieldNeedsQuotes field =
     (if field = [] then False
      else if field = [CHR 0x5C, CHR ''.''] then True
      else if list_ex (\<lambda>c. c = CHR 0x0A \<or> c = CHR 0x0D \<or> c = CHR 0x22 \<or> c = CHR '','') field then True
      else starts_with_space field)"

definition quote_char :: "char \<Rightarrow> gostr" where
  "quote_char c = (if c = CHR 0x22 then [c, c] else [c])"

definition csv_field :: "gostr \<Rightarrow> gostr" where
  "csv_field field =
     (if \<not> fieldNeedsQuotes field then field
      else [CHR 0x22] @ concat (map quote_char field) @ [CHR 0x22])"

definition csv_record :: "gostr list \<Rightarrow> gostr" where
  "csv_record record = join_with '','' (map csv_field record) @ [CHR 0x0A]"

text \<open>\<open>csv.Writer.Write\<close> and \<open>Flush\<close> with \<open>Error\<close>.\<close>

definition csv_Write :: "'w put \<Rightarrow> bufw \<Rightarrow> 'w \<Rightarrow> gostr list \<Rightarrow> bufw \<times> 'w \<times> gostr option" where
  "csv_Write put b w record = (let (b1, w1) = bw_write put b w (csv_record record) in (b1, w1, bw_err b1))"

definition csv_Flush :: "'w put \<Rightarrow> bufw \<Rightarrow> 'w \<Rightarrow> bufw \<times> 'w \<times> gostr option" where
  "csv_Flush put b w = (let (b1, w1) = bw_flush put b w in (b1, w1, bw_err b1))"

subsection \<open>The formatter\<close>

text \<open>A column of a result: its name and the name of its database type.\<close>

record coltype =
  ct_Name :: gostr
  ct_DatabaseTypeName :: gostr

text \<open>The errors of a formatter's writer; \<open>WPanic\<close> is a panic of the goroutine.\<close>

datatype write_error = ErrWithoutFactory | ErrNoHeaderWritten | ErrCountMismatch | WriteFailed gostr | WPanic

datatype converter = UseDate | UseInterval | UseTime | UseTimestamp | UseBlob | UseAny

record csv_writer =
  csv_w :: bufw
  csv_nullStr :: gostr
  csv_records :: "gostr list option"
  csv_converters :: "converter list"

definition csv_ContentType :: gostr where
  "csv_ContentType = ''text/csv''"

definition csv_Create :: "(gostr \<rightharpoonup> gostr) \<Rightarrow> csv_writer" where
  "csv_Create params =
     \<lparr>csv_w = bw_new,
      csv_nullStr = (case params ''null'' of Some s \<Rightarrow> s | None \<Rightarrow> ''NULL''),
      csv_records = None, csv_converters = []\<rparr>"

definition converter_of :: "gostr \<Rightarrow> converter" where
  "converter_of t =
     (if t = ''DATE'' then UseDate
      else if t = ''INTERVAL'' then UseInterval
      else if t = ''TIME'' then UseTime
      else if t = ''TIMESTAMP'' then UseTimestamp
      else if t = ''BLOB'' then UseBlob
      else UseAny)"

fun convert :: "(goval \<Rightarrow> gostr) \<Rightarrow> converter \<Rightarrow> goval \<Rightarrow> gostr option" where
  "convert sp UseDate v = DateToStr v"
| "convert sp UseInterval v = IntervalToStr sp v"
| "convert sp UseTime v = TimeToStr v"
| "convert sp UseTimestamp v = TimestampToStr v"
| "convert sp UseBlob v = BlobToStr v"
| "convert sp UseAny v = AnyToStr sp v"

definition io_result :: "gostr option \<Rightarrow> write_error option" where
  "io_result err = map_option WriteFailed err"

definition csv_WriteHeader ::
  "'w put \<Rightarrow> csv_writer \<Rightarrow> 'w \<Rightarrow> coltype list \<Rightarrow> csv_writer \<times> 'w \<times> write_error option" where
  "csv_WriteHeader put cw w columnTypes =
     (let records = map ct_Name columnTypes;
          convs = map (\<lambda>t. converter_of (ct_DatabaseTypeName t)) columnTypes;
          (b, w1, err) = csv_Write put (csv_w cw) w records in
      (cw\<lparr>csv_w := b, csv_records := Some records, csv_converters := convs\<rparr>, w1, io_result err))"

text \<open>The loop over the values: the strings for the values before the first panic, and whether there
  was one.\<close>

fun csv_row :: "(goval \<Rightarrow> gostr) \<Rightarrow> gostr \<Rightarrow> converter list \<Rightarrow> goval list \<Rightarrow> gostr list \<times> bool" where
  "csv_row sp nullStr (c # cs) (v # vs) =
     (case (if v = GNil then Some nullStr else convert sp c v) of
        None \<Rightarrow> ([], True)
      | Some s \<Rightarrow> (let (ss, panicked) = csv_row sp nullStr cs vs in (s # ss, panicked)))"
| "csv_row sp nullStr cs vs = ([], False)"

definition csv_WriteBody ::
  "(goval \<Rightarrow> gostr) \<Rightarrow> 'w put \<Rightarrow> csv_writer \<Rightarrow> 'w \<Rightarrow> goval list \<Rightarrow> csv_writer \<times> 'w \<times> write_error option" where
  "csv_WriteBody sp put cw w values =
     (case csv_records cw of
        None \<Rightarrow> (cw, w, Some ErrNoHeaderWritten)
      | Some records \<Rightarrow>
          if length records \<noteq> length values then (cw, w, Some ErrCountMismatch)
          else
            (let (row, panicked) = csv_row sp (csv_nullStr cw) (csv_converters cw) values;
                 cw1 = cw\<lparr>csv_records := Some (row @ drop (length row) records)\<rparr> in
             if panicked then (cw1, w, Some WPanic)
             else (let (b, w1, err) = csv_Write put (csv_w cw) w (row @ drop (length row) records) in
                   (cw1\<lparr>csv_w := b\<rparr>, w1, io_result err))))"

definition csv_Flush_writer :: "'w put \<Rightarrow> csv_writer \<Rightarrow> 'w \<Rightarrow> csv_writer \<times> 'w \<times> write_error option" where
  "csv_Flush_writer put cw w =
     (let (b, w1, err) = csv_Flush put (csv_w cw) w in (cw\<lparr>csv_w := b\<rparr>, w1, io_result err))"

end
