(* ===== verification/Csvfmt_Props.thy ===== *)
theory Csvfmt_Props
  imports Csvfmt Writer
begin

section \<open>What the CSV formatter guarantees\<close>

text \<open>
  The properties of \<open>internal/formatter/csv/csv.go\<close>. The locale \<open>byte_sink\<close> is the contract of
  \<open>io.Writer\<close> and \<open>formatter_writer\<close> the contract of \<open>formatter.Writer\<close>: a header first, then rows of
  its width. A reader of the CSV format shows that a result is recovered from its text.
\<close>

subsection \<open>The contract of io.Writer\<close>

locale byte_sink =
  fixes put :: "'w put" and out :: "'w \<Rightarrow> gostr"
  assumes put_takes: "put w s = (w', n, err) \<Longrightarrow> n \<le> length s \<and> out w' = out w @ take n s"
begin

lemma flush_out:
  assumes "bw_flush put b w = (b', w')"
  shows "out w' @ bw_buf b' = out w @ bw_buf b"
proof (cases "bw_err b \<noteq> None \<or> bw_buf b = []")
  case True
  with assms show ?thesis by (auto simp: bw_flush_def split: if_splits)
next
  case False
  obtain w1 n err where p: "put w (bw_buf b) = (w1, n, err)" by (metis prod_cases3)
  note t = put_takes [OF p]
  show ?thesis
  proof (cases "err = None \<and> \<not> n < length (bw_buf b)")
    case True
    with False assms p t show ?thesis by (auto simp: bw_flush_def Let_def)
  next
    case err: False
    then have "w' = w1 \<and> bw_buf b' = drop n (bw_buf b)"
      using False assms p by (auto simp: bw_flush_def Let_def split: option.splits if_splits)
    with t show ?thesis by simp
  qed
qed

lemma flush_ok_empty: "bw_flush put b w = (b', w') \<Longrightarrow> bw_err b' = None \<Longrightarrow> bw_buf b' = []"
  by (auto simp: bw_flush_def Let_def split: if_splits option.splits prod.splits)

text \<open>Without an error, what was flushed and what is buffered are everything that was written, in
  order; with one, a part of it.\<close>

lemma write_out:
  assumes "bw_write put b w s = (b', w')"
  shows "(bw_err b' = None \<longrightarrow> out w' @ bw_buf b' = out w @ bw_buf b @ s) \<and>
    (\<exists>p q. s = p @ q \<and> out w' @ bw_buf b' = out w @ bw_buf b @ p)"
  using assms
proof (induction s arbitrary: b w)
  case Nil
  then show ?case by simp
next
  case (Cons c s)
  have extend: ?case
    if rec: "bw_write put b2 w2 s = (b', w')" and start: "out w2 @ bw_buf b2 = (out w @ bw_buf b) @ [c]" for b2 w2
  proof -
    note ih = Cons.IH [OF rec]
    then obtain p q where pq: "s = p @ q" "out w' @ bw_buf b' = out w2 @ bw_buf b2 @ p" by blast
    have "c # s = (c # p) @ q" "out w' @ bw_buf b' = out w @ bw_buf b @ (c # p)"
      using pq start by (simp_all flip: append_assoc)
    moreover have "bw_err b' = None \<longrightarrow> out w' @ bw_buf b' = out w @ bw_buf b @ (c # s)"
      using ih start by (simp flip: append_assoc)
    ultimately show ?case by blast
  qed
  consider (err) "bw_err b \<noteq> None" | (room) "bw_err b = None" "length (bw_buf b) < bw_size"
    | (full) "bw_err b = None" "\<not> length (bw_buf b) < bw_size" by blast
  then show ?case
  proof cases
    case err
    with Cons.prems show ?thesis by auto
  next
    case room
    with Cons.prems have "bw_write put (b\<lparr>bw_buf := bw_buf b @ [c]\<rparr>) w s = (b', w')" by simp
    then show ?thesis by (rule extend) simp
  next
    case full
    obtain b1 w1 where f: "bw_flush put b w = (b1, w1)" by fastforce
    note fo = flush_out [OF f]
    show ?thesis
    proof (cases "bw_err b1 = None")
      case True
      with full f Cons.prems
      have "bw_write put (b1\<lparr>bw_buf := bw_buf b1 @ [c]\<rparr>) w1 s = (b', w')" by simp
      then show ?thesis by (rule extend) (simp add: fo flip: append_assoc)
    next
      case False
      with full f Cons.prems have "b' = b1" "w' = w1" by simp_all
      with fo False show ?thesis by auto
    qed
  qed
qed

lemma csv_Write_out:
  "csv_Write put b w r = (b', w', None) \<Longrightarrow>
   bw_err b' = None \<and> out w' @ bw_buf b' = out w @ bw_buf b @ csv_record r"
  using write_out [of b w "csv_record r"] by (auto simp: csv_Write_def split: prod.splits)

lemma csv_Flush_out:
  "csv_Flush put b w = (b', w', None) \<Longrightarrow> out w' = out w @ bw_buf b \<and> bw_buf b' = []"
  using flush_out [of b w] flush_ok_empty [of b w] by (auto simp: csv_Flush_def split: prod.splits)

end

text \<open>The response writers of the handlers keep that contract.\<close>

lemma rs_write_takes:
  "rs_write r s = (r', n, err) \<Longrightarrow> n \<le> length s \<and> rs_body r' = rs_body r @ take n s"
  by (auto simp: rs_write_def rs_write_header_def Let_def split: if_splits)

lemma w_write_takes:
  assumes "w_write w s = (w', n, err)"
  shows "n \<le> length s \<and> rs_body (w_resp w') = rs_body (w_resp w) @ take n s"
proof (cases w)
  case (Plain r)
  with assms rs_write_takes [of r s] show ?thesis by (auto split: prod.splits)
next
  case (Wrapped ww)
  with assms rs_write_takes [of "ww_base ww" s] show ?thesis
    by (auto simp: ww_write_def split: prod.splits)
qed

interpretation http_sink: byte_sink w_write "\<lambda>w. rs_body (w_resp w)"
  by unfold_locales (rule w_write_takes)

subsection \<open>Reading CSV back\<close>

text \<open>A reader of RFC 4180 text in which every record ends with a line feed: the state says whether
  the field has begun, is unquoted, is inside its quotes, or has just seen a closing quote.\<close>

datatype rstate = FieldStart | Unquoted | Quoted | QuoteSeen

fun read_csv :: "rstate \<Rightarrow> gostr \<Rightarrow> gostr list \<Rightarrow> gostr \<Rightarrow> gostr list list option" where
  "read_csv st f r [] = (if st = FieldStart \<and> r = [] then Some [] else None)"
| "read_csv st f r (c # cs) =
     (if st = Quoted then
        (if c = CHR 0x22 then read_csv QuoteSeen f r cs else read_csv Quoted (f @ [c]) r cs)
      else if c = CHR '','' then read_csv FieldStart [] (r @ [f]) cs
      else if c = CHR 0x0A then map_option (Cons (r @ [f])) (read_csv FieldStart [] [] cs)
      else if c = CHR 0x22 then
        (case st of FieldStart \<Rightarrow> read_csv Quoted f r cs
                  | QuoteSeen \<Rightarrow> read_csv Quoted (f @ [c]) r cs
                  | _ \<Rightarrow> None)
      else (if st = QuoteSeen then None else read_csv Unquoted (f @ [c]) r cs))"

definition parse_csv :: "gostr \<Rightarrow> gostr list list option" where
  "parse_csv s = read_csv FieldStart [] [] s"

text \<open>What follows a field: the separator or the end of the record.\<close>

definition field_end :: "gostr \<Rightarrow> gostr list \<Rightarrow> gostr \<Rightarrow> gostr list list option" where
  "field_end f r cs =
     (case cs of
        [] \<Rightarrow> None
      | c # cs' \<Rightarrow> if c = CHR '','' then read_csv FieldStart [] (r @ [f]) cs'
                   else if c = CHR 0x0A then map_option (Cons (r @ [f])) (read_csv FieldStart [] [] cs')
                   else None)"

definition ends_field :: "gostr \<Rightarrow> bool" where
  "ends_field cs \<longleftrightarrow> cs \<noteq> [] \<and> hd cs \<in> {CHR '','', CHR 0x0A}"

definition special :: "char \<Rightarrow> bool" where
  "special c \<longleftrightarrow> c = CHR 0x0A \<or> c = CHR 0x0D \<or> c = CHR 0x22 \<or> c = CHR '',''"

lemma read_unquoted:
  "\<not> list_ex special s \<Longrightarrow> ends_field cs \<Longrightarrow> st \<noteq> Quoted \<Longrightarrow> st \<noteq> QuoteSeen \<Longrightarrow>
   read_csv st f r (s @ cs) = field_end (f @ s) r cs"
proof (induction s arbitrary: st f)
  case Nil
  then show ?case by (cases cs) (auto simp: ends_field_def field_end_def)
next
  case (Cons c s)
  then have "read_csv st f r ((c # s) @ cs) = read_csv Unquoted (f @ [c]) r (s @ cs)"
    by (auto simp: special_def)
  also have "\<dots> = field_end ((f @ [c]) @ s) r cs"
    using Cons.prems by (intro Cons.IH) simp_all
  finally show ?case by simp
qed

lemma read_quoted:
  "ends_field cs \<Longrightarrow>
   read_csv Quoted f r (concat (map quote_char s) @ [CHR 0x22] @ cs) = field_end (f @ s) r cs"
proof (induction s arbitrary: f)
  case Nil
  then show ?case by (cases cs) (auto simp: ends_field_def field_end_def)
next
  case (Cons c s)
  then have "read_csv Quoted f r (concat (map quote_char (c # s)) @ [CHR 0x22] @ cs) =
      read_csv Quoted (f @ [c]) r (concat (map quote_char s) @ [CHR 0x22] @ cs)"
    by (auto simp: quote_char_def)
  also have "\<dots> = field_end ((f @ [c]) @ s) r cs" by (rule Cons.IH [OF Cons.prems])
  finally show ?case by simp
qed

lemma read_field:
  assumes "ends_field cs"
  shows "read_csv FieldStart [] r (csv_field s @ cs) = field_end s r cs"
proof (cases "fieldNeedsQuotes s")
  case True
  then show ?thesis using read_quoted [OF assms, of "[]" r s] by (simp add: csv_field_def)
next
  case False
  then have "\<not> list_ex special s"
    by (auto simp: fieldNeedsQuotes_def special_def [abs_def] split: if_splits)
  with False show ?thesis using read_unquoted [OF _ assms, of s FieldStart "[]" r] by (simp add: csv_field_def)
qed

lemma read_record:
  "row \<noteq> [] \<Longrightarrow>
   read_csv FieldStart [] r (csv_record row @ cs) =
     map_option (Cons (r @ row)) (read_csv FieldStart [] [] cs)"
proof (induction row arbitrary: r)
  case Nil
  then show ?case by simp
next
  case (Cons s row)
  show ?case
  proof (cases row)
    case Nil
    have "ends_field ([CHR 0x0A] @ cs)" by (simp add: ends_field_def)
    from read_field [OF this, of r s] Nil show ?thesis by (simp add: csv_record_def field_end_def)
  next
    case (Cons t row')
    have "csv_record (s # row) @ cs = csv_field s @ ([CHR '',''] @ csv_record row @ cs)"
      by (simp add: csv_record_def Cons)
    moreover have "ends_field ([CHR '',''] @ csv_record row @ cs)" by (simp add: ends_field_def)
    ultimately have "read_csv FieldStart [] r (csv_record (s # row) @ cs) =
        read_csv FieldStart [] (r @ [s]) (csv_record row @ cs)"
      using read_field [of "[CHR '',''] @ csv_record row @ cs" r s] by (simp add: field_end_def)
    also have "\<dots> = map_option (Cons ((r @ [s]) @ row)) (read_csv FieldStart [] [] cs)"
      using Cons by (intro Cons.IH) simp
    finally show ?thesis by simp
  qed
qed

lemma parse_csv_records: "list_all (\<lambda>r. r \<noteq> []) rows \<Longrightarrow> parse_csv (concat (map csv_record rows)) = Some rows"
  unfolding parse_csv_def by (induction rows) (auto simp: read_record)

subsection \<open>The contract of formatter.Writer\<close>

locale formatter_writer =
  fixes header :: "'s \<Rightarrow> 'w \<Rightarrow> coltype list \<Rightarrow> 's \<times> 'w \<times> write_error option"
    and body :: "'s \<Rightarrow> 'w \<Rightarrow> goval list \<Rightarrow> 's \<times> 'w \<times> write_error option"
    and columns :: "'s \<Rightarrow> nat option"
  assumes body_first: "columns s = None \<Longrightarrow> body s w vs = (s, w, Some ErrNoHeaderWritten)"
    and body_mismatch: "columns s = Some n \<Longrightarrow> length vs \<noteq> n \<Longrightarrow> body s w vs = (s, w, Some ErrCountMismatch)"
    and header_columns: "header s w ts = (s', w', None) \<Longrightarrow> columns s' = Some (length ts)"
    and body_columns: "body s w vs = (s', w', err) \<Longrightarrow> columns s' = columns s"
    and body_errors: "columns s = Some (length vs) \<Longrightarrow> body s w vs = (s', w', Some e) \<Longrightarrow>
      e \<noteq> ErrNoHeaderWritten \<and> e \<noteq> ErrCountMismatch"
begin

fun body_all :: "'s \<Rightarrow> 'w \<Rightarrow> goval list list \<Rightarrow> 's \<times> 'w \<times> write_error option" where
  "body_all s w [] = (s, w, None)"
| "body_all s w (vs # rows) =
     (case body s w vs of
        (s1, w1, Some e) \<Rightarrow> (s1, w1, Some e)
      | (s1, w1, None) \<Rightarrow> body_all s1 w1 rows)"

lemma body_all_errors:
  assumes "columns s = Some n" and "\<And>vs. vs \<in> set rows \<Longrightarrow> length vs = n"
    and "body_all s w rows = (s', w', Some e)"
  shows "e \<noteq> ErrNoHeaderWritten \<and> e \<noteq> ErrCountMismatch"
  using assms
proof (induction rows arbitrary: s w)
  case Nil
  then show ?case by simp
next
  case (Cons vs rows)
  obtain s1 w1 r where b: "body s w vs = (s1, w1, r)" by (metis prod_cases3)
  show ?case
  proof (cases r)
    case (Some e')
    with b Cons.prems have "e' = e" by simp
    with b Some body_errors [of s vs w s1 w1 e'] Cons.prems(1,2) show ?thesis by simp
  next
    case None
    with b Cons.prems(3) have "body_all s1 w1 rows = (s', w', Some e)" by simp
    moreover have "columns s1 = Some n" using body_columns [OF b] Cons.prems(1) by simp
    ultimately show ?thesis using Cons.IH Cons.prems(2) by simp
  qed
qed

text \<open>Used as it is meant to be used (the header first, rows of its width) the writer reports neither
  misuse.\<close>

lemma proper_use:
  assumes "header s w ts = (s1, w1, None)" and "\<And>vs. vs \<in> set rows \<Longrightarrow> length vs = length ts"
    and "body_all s1 w1 rows = (s', w', Some e)"
  shows "e \<noteq> ErrNoHeaderWritten \<and> e \<noteq> ErrCountMismatch"
  using body_all_errors [OF header_columns [OF assms(1)] assms(2,3)] .

end

lemma io_result_Some: "Some e = io_result err \<Longrightarrow> \<exists>t. e = WriteFailed t"
  by (cases err) (auto simp: io_result_def)

definition csv_columns :: "csv_writer \<Rightarrow> nat option" where
  "csv_columns cw = map_option length (csv_records cw)"

lemma csv_row_length: "length (fst (csv_row sp n cs vs)) \<le> length vs"
proof (induction sp n cs vs rule: csv_row.induct)
  case (1 sp n c cs v vs)
  show ?case
  proof (cases "if v = GNil then Some n else convert sp c v")
    case None
    show ?thesis unfolding csv_row.simps None by simp
  next
    case (Some s)
    obtain row p where "csv_row sp n cs vs = (row, p)" by fastforce
    with 1 [OF Some] show ?thesis unfolding csv_row.simps Some by simp
  qed
qed simp_all

lemma csv_WriteBody_cases:
  assumes "csv_WriteBody sp put cw w vs = (cw', w', r)"
  obtains (first) "csv_records cw = None" "cw' = cw" "w' = w" "r = Some ErrNoHeaderWritten"
  | (mismatch) rs where "csv_records cw = Some rs" "length rs \<noteq> length vs" "cw' = cw" "w' = w"
      "r = Some ErrCountMismatch"
  | (panic) rs row where "csv_records cw = Some rs" "length rs = length vs"
      "csv_row sp (csv_nullStr cw) (csv_converters cw) vs = (row, True)"
      "cw' = cw\<lparr>csv_records := Some (row @ drop (length row) rs)\<rparr>" "w' = w" "r = Some WPanic"
  | (written) rs row b err where "csv_records cw = Some rs" "length rs = length vs"
      "csv_row sp (csv_nullStr cw) (csv_converters cw) vs = (row, False)"
      "csv_Write put (csv_w cw) w (row @ drop (length row) rs) = (b, w', err)"
      "cw' = cw\<lparr>csv_records := Some (row @ drop (length row) rs), csv_w := b\<rparr>" "r = io_result err"
proof (cases "csv_records cw")
  case None
  with assms have "cw' = cw" "w' = w" "r = Some ErrNoHeaderWritten" by (simp_all add: csv_WriteBody_def)
  with None show ?thesis by (rule first)
next
  case (Some rs)
  show ?thesis
  proof (cases "length rs = length vs")
    case False
    with assms Some have "cw' = cw" "w' = w" "r = Some ErrCountMismatch"
      by (simp_all add: csv_WriteBody_def)
    with Some False show ?thesis by (rule mismatch)
  next
    case len: True
    obtain row p where row: "csv_row sp (csv_nullStr cw) (csv_converters cw) vs = (row, p)" by fastforce
    show ?thesis
    proof (cases p)
      case True
      with assms Some len row
      have "cw' = cw\<lparr>csv_records := Some (row @ drop (length row) rs)\<rparr>" "w' = w" "r = Some WPanic"
        by (simp_all add: csv_WriteBody_def)
      moreover from row True have "csv_row sp (csv_nullStr cw) (csv_converters cw) vs = (row, True)" by simp
      ultimately show ?thesis using panic [OF Some len] by blast
    next
      case False
      obtain b w1 err where wr: "csv_Write put (csv_w cw) w (row @ drop (length row) rs) = (b, w1, err)"
        by (metis prod_cases3)
      have "cw' = cw\<lparr>csv_records := Some (row @ drop (length row) rs), csv_w := b\<rparr>" "w' = w1" "r = io_result err"
        using assms Some len row False wr by (simp_all add: csv_WriteBody_def)
      moreover from row False have "csv_row sp (csv_nullStr cw) (csv_converters cw) vs = (row, False)" by simp
      ultimately show ?thesis using written [OF Some len] wr by blast
    qed
  qed
qed

lemma csv_WriteHeader_ok:
  "csv_WriteHeader put cw w ts = (cw', w', r) \<Longrightarrow>
   csv_records cw' = Some (map ct_Name ts) \<and> csv_nullStr cw' = csv_nullStr cw \<and>
   csv_converters cw' = map (\<lambda>t. converter_of (ct_DatabaseTypeName t)) ts"
  by (auto simp: csv_WriteHeader_def Let_def split: prod.splits)

interpretation csv_fw: formatter_writer "csv_WriteHeader put" "csv_WriteBody sp put" csv_columns
proof (unfold_locales, goal_cases)
  case (1 s w vs)
  then show ?case by (simp add: csv_columns_def csv_WriteBody_def)
next
  case (2 s n vs w)
  then show ?case by (auto simp: csv_columns_def csv_WriteBody_def)
next
  case (3 s w ts s' w')
  from csv_WriteHeader_ok [OF this] show ?case by (simp add: csv_columns_def)
next
  case (4 s w vs s' w' err)
  then show ?case
  proof (cases rule: csv_WriteBody_cases)
    case (panic rs row)
    then show ?thesis using csv_row_length [of sp "csv_nullStr s" "csv_converters s" vs]
      by (simp add: csv_columns_def)
  next
    case (written rs row b err)
    then show ?thesis using csv_row_length [of sp "csv_nullStr s" "csv_converters s" vs]
      by (simp add: csv_columns_def)
  qed simp_all
next
  case (5 s vs w s' w' e)
  from 5(2) show ?case
    by (cases rule: csv_WriteBody_cases) (use 5(1) in \<open>auto simp: csv_columns_def dest: io_result_Some\<close>)
qed

end
