(* ===== verification/Format_Registry.thy ===== *)
theory Format_Registry
  imports Formatter
begin

section \<open>The registry of output formats and their parameters\<close>

text \<open>
  \<open>Register\<close>, \<open>Find\<close>, \<open>Get\<close> and \<open>FindAndCreate\<close> of \<open>internal/formatter/formatter.go\<close>. The package
  variable \<open>factories\<close> is a map that is passed along; \<open>Register\<close> panics on a name that is taken.
  \<open>ul\<close> is the Unicode path of \<open>strings.ToLower\<close>.
\<close>

type_synonym params = "gostr \<rightharpoonup> gostr"

text \<open>The left result is the name in the panic message.\<close>

fun Register :: "(gostr \<Rightarrow> gostr) \<Rightarrow> (gostr \<rightharpoonup> 'f) \<Rightarrow> 'f \<Rightarrow> gostr list \<Rightarrow> gostr + (gostr \<rightharpoonup> 'f)" where
  "Register ul factories factory [] = Inr factories"
| "Register ul factories factory (n # names) =
     (let name = to_lower ul n in
      if factories name \<noteq> None then Inl name
      else Register ul (factories(name \<mapsto> factory)) factory names)"

definition Find :: "(gostr \<Rightarrow> gostr) \<Rightarrow> (gostr \<rightharpoonup> 'f) \<Rightarrow> gostr \<Rightarrow> 'f option" where
  "Find ul factories name = factories (to_lower ul name)"

definition param_Get :: "params \<Rightarrow> gostr \<Rightarrow> gostr \<Rightarrow> gostr" where
  "param_Get params name defaultValue = (case params name of Some s \<Rightarrow> s | None \<Rightarrow> defaultValue)"

fun parse_params :: "params \<Rightarrow> gostr list \<Rightarrow> params" where
  "parse_params params [] = params"
| "parse_params params (s # ss) =
     (case split2_chr CHR '':'' s of
        [k] \<Rightarrow> (if k = [] then parse_params params ss else parse_params (params(k \<mapsto> [])) ss)
      | k # v # _ \<Rightarrow> (if k = [] then parse_params params ss else parse_params (params(k \<mapsto> v)) ss)
      | [] \<Rightarrow> parse_params params ss)"

datatype format_error = ErrUnsupportedFormat | InvalidParameters gostr params

definition FindAndCreate ::
  "(gostr \<Rightarrow> gostr) \<Rightarrow> (gostr \<rightharpoonup> 'f) \<Rightarrow> ('f \<Rightarrow> params \<Rightarrow> gostr + 'w) \<Rightarrow> gostr \<Rightarrow> format_error + 'f \<times> 'w" where
  "FindAndCreate ul factories create s =
     (let parts = split_chr CHR '','' s;
          format = hd parts;
          params = parse_params Map.empty (tl parts) in
      case Find ul factories format of
        None \<Rightarrow> Inl ErrUnsupportedFormat
      | Some factory \<Rightarrow>
          (case create factory params of
             Inl err \<Rightarrow> Inl (InvalidParameters format params)
           | Inr writer \<Rightarrow> Inr (factory, writer)))"

text \<open>The text of the error; \<open>show_params\<close> prints a map with \<open>%+v\<close>.\<close>

fun format_error_text :: "(params \<Rightarrow> gostr) \<Rightarrow> format_error \<Rightarrow> gostr" where
  "format_error_text show_params ErrUnsupportedFormat = ''unsupported format''"
| "format_error_text show_params (InvalidParameters format params) =
     ''invalid parameters: format='' @ format @ '' params='' @ show_params params"

subsection \<open>Registering\<close>

lemma Register_Inr_dom:
  "Register ul fs f names = Inr fs' \<Longrightarrow>
     distinct (map (to_lower ul) names) \<and> to_lower ul ` set names \<inter> dom fs = {} \<and>
     fs' = (\<lambda>n. if n \<in> to_lower ul ` set names then Some f else fs n)"
proof (induction names arbitrary: fs)
  case Nil
  then show ?case by simp
next
  case (Cons n names)
  from Cons.prems have none: "fs (to_lower ul n) = None"
    and rest: "Register ul (fs(to_lower ul n \<mapsto> f)) f names = Inr fs'"
    by (auto simp: Let_def split: if_splits)
  from Cons.IH [OF rest] none show ?case by (auto simp: fun_eq_iff domIff)
qed

lemma Register_keeps:
  "Register ul fs f names = Inr fs' \<Longrightarrow> fs n = Some g \<Longrightarrow> fs' n = Some g"
  using Register_Inr_dom [of ul fs f names fs'] by auto

subsection \<open>Parameters\<close>

definition param_str :: "gostr \<times> gostr \<Rightarrow> gostr" where
  "param_str p = fst p @ '':'' @ snd p"

definition format_str :: "gostr \<Rightarrow> (gostr \<times> gostr) list \<Rightarrow> gostr" where
  "format_str name ps = join_with '','' (name # map param_str ps)"

definition plain_param :: "gostr \<times> gostr \<Rightarrow> bool" where
  "plain_param p \<longleftrightarrow> fst p \<noteq> [] \<and> CHR '':'' \<notin> set (fst p) \<and> CHR '','' \<notin> set (fst p) \<and> CHR '','' \<notin> set (snd p)"

lemma parse_params_str:
  "list_all plain_param ps \<Longrightarrow> parse_params m (map param_str ps) = m ++ map_of (rev ps)"
proof (induction ps arbitrary: m)
  case Nil
  then show ?case by simp
next
  case (Cons p ps)
  obtain k v where p: "p = (k, v)" by fastforce
  with Cons.prems have k: "k \<noteq> []" "CHR '':'' \<notin> set k" by (auto simp: plain_param_def)
  have "parse_params m (map param_str (p # ps)) = parse_params (m(k \<mapsto> v)) (map param_str ps)"
    using k split2_chr_append_sep [of "CHR '':''" k v] by (simp add: p param_str_def)
  also have "\<dots> = m(k \<mapsto> v) ++ map_of (rev ps)" using Cons by simp
  finally show ?case by (simp add: p)
qed

lemma split_format_str:
  assumes "CHR '','' \<notin> set name" and "list_all plain_param ps"
  shows "split_chr CHR '','' (format_str name ps) = name # map param_str ps"
  unfolding format_str_def
proof (rule split_chr_join)
  fix s assume "s \<in> set (name # map param_str ps)"
  with assms show "CHR '','' \<notin> set s"
    by (auto simp: param_str_def plain_param_def list_all_iff)
qed simp

text \<open>
  Formats are found by name with their parameters. A registered name, in any ASCII case, followed
  by parameters \<open>key:value\<close> separated by commas, creates a writer of that format with exactly those
  parameters, of which a later one replaces an earlier one of the same key; a value may hold colons
  but no comma.
\<close>

lemma FindAndCreate_params:
  assumes "CHR '','' \<notin> set name" and "list_all plain_param ps"
    and "factories (to_lower ul name) = Some f" and "create f (map_of (rev ps)) = Inr w"
  shows "FindAndCreate ul factories create (format_str name ps) = Inr (f, w)"
  using assms parse_params_str [OF assms(2), of Map.empty]
  by (simp add: FindAndCreate_def split_format_str Find_def)

end
