(* ===== verification/Avrofmt.thy ===== *)
theory Avrofmt
  imports Csvfmt_Props Format_Registry
begin

section \<open>internal/formatter/avro: rows as Avro records\<close>

text \<open>
  \<open>internal/formatter/avro/avro.go\<close>: the mapping of database types to Avro types, the conversion of
  large integers to two's complement bytes, and the writer. The Avro library is a parameter: building
  fields and schemas, which it may refuse, and the encoder of the container file.
\<close>

subsection \<open>Big-endian bytes\<close>

fun be_bytes :: "nat \<Rightarrow> nat \<Rightarrow> gostr" where
  "be_bytes 0 n = []"
| "be_bytes (Suc k) n = be_bytes k (n div 256) @ [char_of (n mod 256)]"

definition be_val :: "gostr \<Rightarrow> nat" where
  "be_val bs = foldl (\<lambda>acc c. acc * 256 + of_char c) 0 bs"

text \<open>What an Avro decimal of these bytes means: a signed number in two's complement.\<close>

definition twos_val :: "gostr \<Rightarrow> int" where
  "twos_val bs = (let u = int (be_val bs); m = 256 ^ length bs in if m \<le> 2 * u then u - m else u)"

lemma length_be_bytes [simp]: "length (be_bytes k n) = k"
  by (induction k arbitrary: n) auto

lemma be_val_snoc [simp]: "be_val (bs @ [c]) = be_val bs * 256 + of_char c"
  by (simp add: be_val_def)

lemma be_val_Nil [simp]: "be_val [] = 0"
  by (simp add: be_val_def)

lemma be_val_be_bytes: "n < 256 ^ k \<Longrightarrow> be_val (be_bytes k n) = n"
proof (induction k arbitrary: n)
  case 0
  then show ?case by simp
next
  case (Suc k)
  then have "n div 256 < 256 ^ k" by (simp add: less_mult_imp_div_less)
  then have "be_val (be_bytes k (n div 256)) = n div 256" by (rule Suc.IH)
  then show ?case by (simp add: of_char_of)
qed

lemma be_val_zero_Cons: "be_val (CHR 0x00 # bs) = be_val bs"
  by (simp add: be_val_def)

subsection \<open>The conversions\<close>

text \<open>\<open>big.Int.FillBytes\<close>: the absolute value, and a panic if it does not fit.\<close>

definition fill_bytes :: "nat \<Rightarrow> int \<Rightarrow> gostr option" where
  "fill_bytes k i = (if nat \<bar>i\<bar> < 256 ^ k then Some (be_bytes k (nat \<bar>i\<bar>)) else None)"

definition uint64ToDecimalBytes :: "goval \<Rightarrow> goval option" where
  "uint64ToDecimalBytes v = (case v of
     GNil \<Rightarrow> Some GNil
   | GUint64 n \<Rightarrow> Some (GBytes (CHR 0x00 # be_bytes 8 (unat n)))
   | _ \<Rightarrow> None)"

definition hugeIntToDecimalBytes :: "goval \<Rightarrow> goval option" where
  "hugeIntToDecimalBytes v = (case v of
     GNil \<Rightarrow> Some GNil
   | GBigInt n \<Rightarrow>
       (let numBytes = 17 in
        map_option GBytes
          (if n < 0 then fill_bytes numBytes (n + 2 ^ (numBytes * 8)) else fill_bytes numBytes n))
   | _ \<Rightarrow> None)"

datatype convertFunc = NonConvert | Uint64ToDecimalBytes | HugeIntToDecimalBytes

fun apply_conv :: "convertFunc \<Rightarrow> goval \<Rightarrow> goval option" where
  "apply_conv NonConvert v = Some v"
| "apply_conv Uint64ToDecimalBytes v = uint64ToDecimalBytes v"
| "apply_conv HugeIntToDecimalBytes v = hugeIntToDecimalBytes v"

subsection \<open>Types and schemas\<close>

datatype avro_prim = ABoolean | AInt | ALong | AFloat | ADouble | AFixed | ABytes | AString

datatype avro_logical =
    NoLogical | DecimalOf nat nat | PrimDecimal | PrimUUID | PrimDate | PrimTimeMillis
  | PrimTimestampMicros | PrimLocalTimestampMillis | PrimLocalTimestampMicros | PrimDuration

type_synonym avro_type = "avro_prim \<times> avro_logical"

record ('fld, 'rec, 'enc, 'w) avro_api =
  av_union :: "avro_type \<Rightarrow> gostr option"
  av_field :: "gostr \<Rightarrow> avro_type \<Rightarrow> gostr + 'fld"
  av_field_name :: "'fld \<Rightarrow> gostr"
  av_record :: "gostr \<Rightarrow> gostr \<Rightarrow> 'fld list \<Rightarrow> gostr + 'rec"
  av_encoder :: "'rec \<Rightarrow> 'w \<Rightarrow> 'w \<times> (gostr + 'enc)"
  av_encode :: "'enc \<Rightarrow> (gostr \<rightharpoonup> goval) \<Rightarrow> 'w \<Rightarrow> 'w \<times> 'enc \<times> gostr option"
  av_close :: "'enc \<Rightarrow> 'w \<Rightarrow> 'w \<times> 'enc \<times> gostr option"

text \<open>The switch of \<open>type2field\<close> over the database types.\<close>

definition avro_types :: "(gostr \<times> avro_type \<times> convertFunc) list" where
  "avro_types =
     [(''BOOLEAN'', (ABoolean, NoLogical), NonConvert),
      (''TINYINT'', (AInt, NoLogical), NonConvert),
      (''SMALLINT'', (AInt, NoLogical), NonConvert),
      (''INTEGER'', (AInt, NoLogical), NonConvert),
      (''BIGINT'', (ALong, NoLogical), NonConvert),
      (''UTINYINT'', (AInt, NoLogical), NonConvert),
      (''USMALLINT'', (AInt, NoLogical), NonConvert),
      (''UINTEGER'', (ALong, NoLogical), NonConvert),
      (''UBIGINT'', (AFixed, DecimalOf 20 0), Uint64ToDecimalBytes),
      (''FLOAT'', (AFloat, NoLogical), NonConvert),
      (''DOUBLE'', (ADouble, NoLogical), NonConvert),
      (''HUGEINT'', (AFixed, DecimalOf 39 0), HugeIntToDecimalBytes),
      (''UHUGEINT'', (AFixed, DecimalOf 39 0), HugeIntToDecimalBytes),
      (''DECIMAL'', (ABytes, PrimDecimal), NonConvert),
      (''VARCHAR'', (AString, NoLogical), NonConvert),
      (''BLOB'', (ABytes, NoLogical), NonConvert),
      (''BIGNUM'', (AString, NoLogical), NonConvert),
      (''UUID'', (AString, PrimUUID), NonConvert),
      (''DATE'', (AInt, PrimDate), NonConvert),
      (''TIME'', (AInt, PrimTimeMillis), NonConvert),
      (''TIMETZ'', (AInt, PrimTimeMillis), NonConvert),
      (''TIMESTAMP'', (ALong, PrimLocalTimestampMicros), NonConvert),
      (''TIMESTAMPTZ'', (ALong, PrimTimestampMicros), NonConvert),
      (''TIMESTAMP_S'', (ALong, PrimLocalTimestampMillis), NonConvert),
      (''TIMESTAMP_MS'', (ALong, PrimLocalTimestampMillis), NonConvert),
      (''TIMESTAMP_NS'', (ALong, PrimLocalTimestampMicros), NonConvert),
      (''INTERVAL'', (ALong, PrimDuration), NonConvert)]"

definition avro_unsupported :: "gostr list" where
  "avro_unsupported = [''ENUM'', ''LIST'', ''STRUCT'', ''MAP'', ''ARRAY'', ''UNION'', ''BIT'', ''ANY'', ''SQLNULL'']"

definition type2field ::
  "('fld, 'rec, 'enc, 'w) avro_api \<Rightarrow> coltype \<Rightarrow> gostr + 'fld \<times> convertFunc" where
  "type2field api typ =
     (let dbType = ct_DatabaseTypeName typ in
      case map_of avro_types dbType of
        None \<Rightarrow>
          (if dbType \<in> set avro_unsupported then Inl (''unsupported database type: '' @ dbType)
           else Inl (''unknown database type: '' @ dbType))
      | Some (avroType, convFn) \<Rightarrow>
          (case av_union api avroType of
             Some err \<Rightarrow> Inl err
           | None \<Rightarrow>
               (case av_field api (ct_Name typ) avroType of
                  Inl err \<Rightarrow> Inl err
                | Inr f \<Rightarrow> Inr (f, convFn))))"

subsection \<open>The writer\<close>

record 'enc avro_writer =
  aw_base :: bool
  aw_schemaNS :: gostr
  aw_schemaName :: gostr
  aw_names :: "gostr list option"
  aw_convs :: "convertFunc option list"
  aw_encoder :: "'enc option"

definition avro_ContentType :: gostr where
  "avro_ContentType = ''application/avro''"

definition avro_Create :: "params \<Rightarrow> 'enc avro_writer" where
  "avro_Create params =
     \<lparr>aw_base = True,
      aw_schemaNS = param_Get params ''ns'' ''net.kaoriya.duckpop'',
      aw_schemaName = param_Get params ''name'' ''Table'',
      aw_names = None, aw_convs = [], aw_encoder = None\<rparr>"

text \<open>The loop of \<open>types2schema\<close>: the fields up to the first error.\<close>

fun schema_fields ::
  "('fld, 'rec, 'enc, 'w) avro_api \<Rightarrow> coltype list \<Rightarrow> ('fld \<times> convertFunc) list \<times> gostr option" where
  "schema_fields api [] = ([], None)"
| "schema_fields api (typ # types) =
     (case type2field api typ of
        Inl err \<Rightarrow> ([], Some err)
      | Inr fc \<Rightarrow> (let (fcs, err) = schema_fields api types in (fc # fcs, err)))"

definition types2schema ::
  "('fld, 'rec, 'enc, 'w) avro_api \<Rightarrow> 'enc avro_writer \<Rightarrow> coltype list \<Rightarrow> 'enc avro_writer \<times> (gostr + 'rec)" where
  "types2schema api aw types =
     (let (fcs, err) = schema_fields api types;
          missing = length types - length fcs;
          aw1 = aw\<lparr>aw_names := Some (map (\<lambda>(f, c). av_field_name api f) fcs @ replicate missing []),
                   aw_convs := map (\<lambda>(f, c). Some c) fcs @ replicate missing None\<rparr> in
      case err of
        Some e \<Rightarrow> (aw1, Inl e)
      | None \<Rightarrow> (aw1, av_record api (aw_schemaName aw) (aw_schemaNS aw) (map fst fcs)))"

definition avro_WriteHeader ::
  "('fld, 'rec, 'enc, 'w) avro_api \<Rightarrow> 'enc avro_writer \<Rightarrow> 'w \<Rightarrow> coltype list
   \<Rightarrow> 'enc avro_writer \<times> 'w \<times> write_error option" where
  "avro_WriteHeader api aw w columnTypes =
     (if \<not> aw_base aw then (aw, w, Some ErrWithoutFactory)
      else (case types2schema api aw columnTypes of
          (aw1, Inl err) \<Rightarrow> (aw1, w, Some (WriteFailed err))
        | (aw1, Inr recordSchema) \<Rightarrow>
            (case av_encoder api recordSchema w of
               (w1, Inl err) \<Rightarrow> (aw1, w1, Some (WriteFailed err))
             | (w1, Inr encoder) \<Rightarrow> (aw1\<lparr>aw_encoder := Some encoder\<rparr>, w1, None))))"

text \<open>The map of a row, in the order of the columns; calling a nil conversion panics.\<close>

fun avro_row ::
  "gostr list \<Rightarrow> convertFunc option list \<Rightarrow> goval list \<Rightarrow> (gostr \<rightharpoonup> goval) \<Rightarrow> (gostr \<rightharpoonup> goval) option" where
  "avro_row (n # ns) (c # cs) (v # vs) m =
     (case (case c of None \<Rightarrow> None | Some f \<Rightarrow> apply_conv f v) of
        None \<Rightarrow> None
      | Some v' \<Rightarrow> avro_row ns cs vs (m(n \<mapsto> v')))"
| "avro_row ns cs vs m = Some m"

definition avro_WriteBody ::
  "('fld, 'rec, 'enc, 'w) avro_api \<Rightarrow> 'enc avro_writer \<Rightarrow> 'w \<Rightarrow> goval list
   \<Rightarrow> 'enc avro_writer \<times> 'w \<times> write_error option" where
  "avro_WriteBody api aw w values =
     (case aw_encoder aw of
        None \<Rightarrow> (aw, w, Some ErrNoHeaderWritten)
      | Some encoder \<Rightarrow>
          (case aw_names aw of
             None \<Rightarrow> (aw, w, Some ErrNoHeaderWritten)
           | Some names \<Rightarrow>
               if length values \<noteq> length names then (aw, w, Some ErrCountMismatch)
               else (case avro_row names (aw_convs aw) values Map.empty of
                   None \<Rightarrow> (aw, w, Some WPanic)
                 | Some record \<Rightarrow>
                     (let (w1, encoder1, err) = av_encode api encoder record w in
                      (aw\<lparr>aw_encoder := Some encoder1\<rparr>, w1, io_result err)))))"

definition avro_Flush ::
  "('fld, 'rec, 'enc, 'w) avro_api \<Rightarrow> 'enc avro_writer \<Rightarrow> 'w \<Rightarrow> 'enc avro_writer \<times> 'w \<times> write_error option" where
  "avro_Flush api aw w =
     (case aw_encoder aw of
        None \<Rightarrow> (aw, w, Some WPanic)
      | Some encoder \<Rightarrow>
          (let (w1, encoder1, err) = av_close api encoder w in
           (aw\<lparr>aw_encoder := Some encoder1\<rparr>, w1, io_result err)))"

subsection \<open>The contract of formatter.Writer\<close>

definition avro_columns :: "'enc avro_writer \<Rightarrow> nat option" where
  "avro_columns aw = (if aw_encoder aw = None then None else map_option length (aw_names aw))"

lemma schema_fields_length:
  "length (fst (schema_fields api ts)) \<le> length ts \<and>
   (snd (schema_fields api ts) = None \<longrightarrow> length (fst (schema_fields api ts)) = length ts)"
proof (induction ts)
  case Nil
  then show ?case by simp
next
  case (Cons t ts)
  show ?case
  proof (cases "type2field api t")
    case (Inl e)
    then show ?thesis by simp
  next
    case (Inr fc)
    obtain fcs err where "schema_fields api ts = (fcs, err)" by fastforce
    with Inr Cons show ?thesis by simp
  qed
qed

lemma types2schema_names:
  assumes "types2schema api aw ts = (aw', r)"
  shows "\<exists>ns. aw_names aw' = Some ns \<and> length ns = length ts"
proof -
  obtain fcs err where s: "schema_fields api ts = (fcs, err)" by fastforce
  with assms schema_fields_length [of api ts] show ?thesis
    by (cases err) (auto simp: types2schema_def Let_def)
qed

lemma avro_header_columns:
  assumes "avro_WriteHeader api aw w ts = (aw', w', None)"
  shows "avro_columns aw' = Some (length ts)"
proof -
  obtain aw1 r where t: "types2schema api aw ts = (aw1, r)" by fastforce
  from assms t obtain rec where r: "r = Inr rec" by (cases r) (auto simp: avro_WriteHeader_def split: if_splits)
  obtain w1 e where e: "av_encoder api rec w = (w1, e)" by fastforce
  from assms t r e obtain enc where "aw' = aw1\<lparr>aw_encoder := Some enc\<rparr>"
    by (cases e) (auto simp: avro_WriteHeader_def split: if_splits)
  with types2schema_names [OF t] show ?thesis by (auto simp: avro_columns_def)
qed

lemma avro_WriteBody_first:
  "avro_columns aw = None \<Longrightarrow> avro_WriteBody api aw w vs = (aw, w, Some ErrNoHeaderWritten)"
  by (auto simp: avro_columns_def avro_WriteBody_def split: option.splits)

lemma avro_WriteBody_mismatch:
  "avro_columns aw = Some n \<Longrightarrow> length vs \<noteq> n \<Longrightarrow> avro_WriteBody api aw w vs = (aw, w, Some ErrCountMismatch)"
  by (auto simp: avro_columns_def avro_WriteBody_def split: option.splits if_splits)

lemma avro_WriteBody_written:
  assumes "avro_columns aw = Some (length vs)" and "avro_WriteBody api aw w vs = (aw', w', r)"
  obtains (panic) "aw' = aw" "w' = w" "r = Some WPanic"
  | (written) enc enc' err where "aw_encoder aw = Some enc" "aw' = aw\<lparr>aw_encoder := Some enc'\<rparr>" "r = io_result err"
proof -
  obtain enc ns where a: "aw_encoder aw = Some enc" "aw_names aw = Some ns" "length ns = length vs"
    using assms(1) by (auto simp: avro_columns_def split: if_splits)
  show thesis
  proof (cases "avro_row ns (aw_convs aw) vs Map.empty")
    case None
    with a assms(2) have "aw' = aw" "w' = w" "r = Some WPanic" by (simp_all add: avro_WriteBody_def)
    then show ?thesis by (rule panic)
  next
    case (Some m)
    obtain w1 enc' err where "av_encode api enc m w = (w1, enc', err)" by (metis prod_cases3)
    with a assms(2) Some have "aw' = aw\<lparr>aw_encoder := Some enc'\<rparr>" "r = io_result err"
      by (simp_all add: avro_WriteBody_def)
    with a(1) show ?thesis by (rule written)
  qed
qed

interpretation avro_fw: formatter_writer "avro_WriteHeader api" "avro_WriteBody api" avro_columns
proof (unfold_locales, goal_cases)
  case (1 s w vs)
  then show ?case by (rule avro_WriteBody_first)
next
  case (2 s n vs w)
  then show ?case by (rule avro_WriteBody_mismatch)
next
  case (3 s w ts s' w')
  then show ?case by (rule avro_header_columns)
next
  case (4 s w vs s' w' err)
  show ?case
  proof (cases "avro_columns s = Some (length vs)")
    case True
    then show ?thesis using 4
    proof (cases rule: avro_WriteBody_written)
      case (written enc enc' e)
      then show ?thesis by (simp add: avro_columns_def)
    qed simp
  next
    case False
    then have "s' = s"
      using 4 avro_WriteBody_first [of s api w vs] avro_WriteBody_mismatch [of s _ vs api w]
      by (cases "avro_columns s") auto
    then show ?thesis by simp
  qed
next
  case (5 s vs w s' w' e)
  from 5 show ?case
    by (cases rule: avro_WriteBody_written) (auto dest: io_result_Some)
qed

end
