(* ===== verification/Formats.thy ===== *)
theory Formats
  imports Avrofmt
begin

section \<open>The five formats and the writing of rows\<close>

text \<open>
  \<open>internal/formatter/table/table.go\<close>, \<open>html/html.go\<close> and \<open>markdown/markdown.go\<close> on a table library that
  is a parameter; the registration of the formats (\<open>duckserver/plugins.go\<close> imports them for it); the
  interface \<open>formatter.Writer\<close> as one datatype of the three writers; and \<open>writeRows\<close> of
  \<open>duckserver/duckserver.go\<close>.
\<close>

subsection \<open>Tables\<close>

datatype table_style = PlainText | HTML | Markdown

record ('t, 'w) table_api =
  tw_new :: "table_style \<Rightarrow> 't"
  tw_header :: "'t \<Rightarrow> gostr list \<Rightarrow> 't"
  tw_append :: "'t \<Rightarrow> goval list \<Rightarrow> 't \<times> gostr option"
  tw_render :: "'t \<Rightarrow> 'w \<Rightarrow> 't \<times> 'w \<times> gostr option"

definition table_WriteHeader ::
  "('t, 'w) table_api \<Rightarrow> 't \<Rightarrow> 'w \<Rightarrow> coltype list \<Rightarrow> 't \<times> 'w \<times> write_error option" where
  "table_WriteHeader api tw w columnTypes = (tw_header api tw (map ct_Name columnTypes), w, None)"

definition table_WriteBody ::
  "('t, 'w) table_api \<Rightarrow> 't \<Rightarrow> 'w \<Rightarrow> goval list \<Rightarrow> 't \<times> 'w \<times> write_error option" where
  "table_WriteBody api tw w values = (let (tw1, err) = tw_append api tw values in (tw1, w, io_result err))"

definition table_Flush :: "('t, 'w) table_api \<Rightarrow> 't \<Rightarrow> 'w \<Rightarrow> 't \<times> 'w \<times> write_error option" where
  "table_Flush api tw w = (let (tw1, w1, err) = tw_render api tw w in (tw1, w1, io_result err))"

subsection \<open>Factories and writers\<close>

datatype factory = TableFactory | HtmlFactory | MarkdownFactory | CsvFactory | AvroFactory

datatype ('enc, 't) fwriter = CsvWriter csv_writer | AvroWriter "'enc avro_writer" | TableWriter 't

record ('fld, 'rec, 'enc, 't, 'w) fmt_api =
  fa_put :: "'w put"
  fa_sprint :: "goval \<Rightarrow> gostr"
  fa_avro :: "('fld, 'rec, 'enc, 'w) avro_api"
  fa_table :: "('t, 'w) table_api"

definition table_Create :: "('t, 'w) table_api \<Rightarrow> params \<Rightarrow> 't" where
  "table_Create api params = tw_new api PlainText"

definition html_Create :: "('t, 'w) table_api \<Rightarrow> params \<Rightarrow> 't" where
  "html_Create api params = tw_new api HTML"

definition markdown_Create :: "('t, 'w) table_api \<Rightarrow> params \<Rightarrow> 't" where
  "markdown_Create api params = tw_new api Markdown"

definition table_ContentType :: gostr where "table_ContentType = ''text/plain''"

definition html_ContentType :: gostr where "html_ContentType = ''text/html''"

definition markdown_ContentType :: gostr where "markdown_ContentType = ''text/markdown''"

fun factory_ContentType :: "factory \<Rightarrow> gostr" where
  "factory_ContentType TableFactory = table_ContentType"
| "factory_ContentType HtmlFactory = html_ContentType"
| "factory_ContentType MarkdownFactory = markdown_ContentType"
| "factory_ContentType CsvFactory = csv_ContentType"
| "factory_ContentType AvroFactory = avro_ContentType"

text \<open>No factory returns an error.\<close>

fun factory_Create ::
  "('fld, 'rec, 'enc, 't, 'w) fmt_api \<Rightarrow> factory \<Rightarrow> params \<Rightarrow> gostr + ('enc, 't) fwriter" where
  "factory_Create api TableFactory ps = Inr (TableWriter (table_Create (fa_table api) ps))"
| "factory_Create api HtmlFactory ps = Inr (TableWriter (html_Create (fa_table api) ps))"
| "factory_Create api MarkdownFactory ps = Inr (TableWriter (markdown_Create (fa_table api) ps))"
| "factory_Create api CsvFactory ps = Inr (CsvWriter (csv_Create ps))"
| "factory_Create api AvroFactory ps = Inr (AvroWriter (avro_Create ps))"

fun fw_WriteHeader ::
  "('fld, 'rec, 'enc, 't, 'w) fmt_api \<Rightarrow> ('enc, 't) fwriter \<Rightarrow> 'w \<Rightarrow> coltype list
   \<Rightarrow> ('enc, 't) fwriter \<times> 'w \<times> write_error option" where
  "fw_WriteHeader api (CsvWriter cw) w ts = map_prod CsvWriter id (csv_WriteHeader (fa_put api) cw w ts)"
| "fw_WriteHeader api (AvroWriter aw) w ts = map_prod AvroWriter id (avro_WriteHeader (fa_avro api) aw w ts)"
| "fw_WriteHeader api (TableWriter tw) w ts = map_prod TableWriter id (table_WriteHeader (fa_table api) tw w ts)"

fun fw_WriteBody ::
  "('fld, 'rec, 'enc, 't, 'w) fmt_api \<Rightarrow> ('enc, 't) fwriter \<Rightarrow> 'w \<Rightarrow> goval list
   \<Rightarrow> ('enc, 't) fwriter \<times> 'w \<times> write_error option" where
  "fw_WriteBody api (CsvWriter cw) w vs = map_prod CsvWriter id (csv_WriteBody (fa_sprint api) (fa_put api) cw w vs)"
| "fw_WriteBody api (AvroWriter aw) w vs = map_prod AvroWriter id (avro_WriteBody (fa_avro api) aw w vs)"
| "fw_WriteBody api (TableWriter tw) w vs = map_prod TableWriter id (table_WriteBody (fa_table api) tw w vs)"

fun fw_Flush ::
  "('fld, 'rec, 'enc, 't, 'w) fmt_api \<Rightarrow> ('enc, 't) fwriter \<Rightarrow> 'w
   \<Rightarrow> ('enc, 't) fwriter \<times> 'w \<times> write_error option" where
  "fw_Flush api (CsvWriter cw) w = map_prod CsvWriter id (csv_Flush_writer (fa_put api) cw w)"
| "fw_Flush api (AvroWriter aw) w = map_prod AvroWriter id (avro_Flush (fa_avro api) aw w)"
| "fw_Flush api (TableWriter tw) w = map_prod TableWriter id (table_Flush (fa_table api) tw w)"

text \<open>The packages register themselves when the program starts, in the order of their imports: the
  \<open>init\<close> function of each, on the registry so far.\<close>

type_synonym package_init = "(gostr \<rightharpoonup> factory) \<Rightarrow> gostr + (gostr \<rightharpoonup> factory)"

definition avro_init :: "(gostr \<Rightarrow> gostr) \<Rightarrow> package_init" where
  "avro_init ul fs = Register ul fs AvroFactory [''avro'']"

definition csv_init :: "(gostr \<Rightarrow> gostr) \<Rightarrow> package_init" where
  "csv_init ul fs = Register ul fs CsvFactory [''csv'']"

definition table_init :: "(gostr \<Rightarrow> gostr) \<Rightarrow> package_init" where
  "table_init ul fs = Register ul fs TableFactory [''table'']"

definition html_init :: "(gostr \<Rightarrow> gostr) \<Rightarrow> package_init" where
  "html_init ul fs = Register ul fs HtmlFactory [''html'']"

definition markdown_init :: "(gostr \<Rightarrow> gostr) \<Rightarrow> package_init" where
  "markdown_init ul fs = Register ul fs MarkdownFactory [''markdown'']"

fun run_inits :: "package_init list \<Rightarrow> package_init" where
  "run_inits [] fs = Inr fs"
| "run_inits (f # rest) fs = (case f fs of Inl name \<Rightarrow> Inl name | Inr fs1 \<Rightarrow> run_inits rest fs1)"

definition plugin_factories :: "(gostr \<Rightarrow> gostr) \<Rightarrow> gostr + (gostr \<rightharpoonup> factory)" where
  "plugin_factories ul =
     run_inits [avro_init ul, csv_init ul, table_init ul, html_init ul, markdown_init ul] Map.empty"

definition factories :: "gostr \<rightharpoonup> factory" where
  "factories = [''avro'' \<mapsto> AvroFactory, ''csv'' \<mapsto> CsvFactory, ''table'' \<mapsto> TableFactory,
     ''html'' \<mapsto> HtmlFactory, ''markdown'' \<mapsto> MarkdownFactory]"

lemma plugin_factories_ok: "plugin_factories ul = Inr factories"
proof -
  have lower: "to_lower ul ''avro'' = ''avro''" "to_lower ul ''csv'' = ''csv''" "to_lower ul ''table'' = ''table''"
    "to_lower ul ''html'' = ''html''" "to_lower ul ''markdown'' = ''markdown''"
    by (simp_all add: to_lower_def is_ascii_def ascii_lower_def)
  show ?thesis by (simp add: plugin_factories_def avro_init_def csv_init_def table_init_def html_init_def markdown_init_def
        lower factories_def)
qed

lemma FindAndCreate_csv:
  "FindAndCreate ul factories (factory_Create api) ''csv'' = Inr (CsvFactory, CsvWriter (csv_Create Map.empty))"
proof -
  have "to_lower ul ''csv'' = ''csv''" by (simp add: to_lower_def is_ascii_def ascii_lower_def)
  then show ?thesis by (simp add: FindAndCreate_def Find_def factories_def)
qed

subsection \<open>writeRows\<close>

text \<open>
  The rows of a query: its column types, the rows that can be scanned, with the error of the one that
  cannot, and the error with which the driver ended the iteration, which \<open>rows.Err\<close> would report.
  \<open>ctx_err k\<close> is what the \<open>k\<close>-th look at the query's context finds.
\<close>

record rows =
  rw_types :: "gostr + coltype list"
  rw_rows :: "(gostr + goval list) list"
  rw_err :: "gostr option"

fun rows_loop ::
  "('fld, 'rec, 'enc, 't, 'w) fmt_api \<Rightarrow> (nat \<Rightarrow> gostr option) \<Rightarrow> nat \<Rightarrow> ('enc, 't) fwriter \<Rightarrow> 'w
   \<Rightarrow> (gostr + goval list) list \<Rightarrow> ('enc, 't) fwriter \<times> 'w \<times> write_error option" where
  "rows_loop api ctx_err k fw w [] = fw_Flush api fw w"
| "rows_loop api ctx_err k fw w (row # rest) =
     (case ctx_err k of
        Some err \<Rightarrow> (fw, w, Some (WriteFailed err))
      | None \<Rightarrow>
          (case row of
             Inl err \<Rightarrow> (fw, w, Some (WriteFailed err))
           | Inr values \<Rightarrow>
               (case fw_WriteBody api fw w values of
                  (fw1, w1, Some err) \<Rightarrow> (fw1, w1, Some err)
                | (fw1, w1, None) \<Rightarrow> rows_loop api ctx_err (Suc k) fw1 w1 rest)))"

definition writeRows ::
  "('fld, 'rec, 'enc, 't, 'w) fmt_api \<Rightarrow> (nat \<Rightarrow> gostr option) \<Rightarrow> ('enc, 't) fwriter \<Rightarrow> 'w \<Rightarrow> rows
   \<Rightarrow> ('enc, 't) fwriter \<times> 'w \<times> write_error option" where
  "writeRows api ctx_err fw w rows =
     (case ctx_err 0 of
        Some err \<Rightarrow> (fw, w, Some (WriteFailed err))
      | None \<Rightarrow>
          (case rw_types rows of
             Inl err \<Rightarrow> (fw, w, Some (WriteFailed err))
           | Inr columnTypes \<Rightarrow>
               (case fw_WriteHeader api fw w columnTypes of
                  (fw1, w1, Some err) \<Rightarrow> (fw1, w1, Some err)
                | (fw1, w1, None) \<Rightarrow>
                    (case ctx_err 1 of
                       Some err \<Rightarrow> (fw1, w1, Some (WriteFailed err))
                     | None \<Rightarrow> rows_loop api ctx_err 2 fw1 w1 (rw_rows rows)))))"

text \<open>The text of the error; a panic has none.\<close>

fun write_error_text :: "write_error \<Rightarrow> gostr" where
  "write_error_text ErrWithoutFactory = ''made without a factory''"
| "write_error_text ErrNoHeaderWritten = ''no headers written''"
| "write_error_text ErrCountMismatch = ''header and body count mismatch''"
| "write_error_text (WriteFailed text) = text"
| "write_error_text WPanic = []"

end
