(* ===== verification/Accesslog.thy ===== *)
theory Accesslog
  imports Authn Conndb
begin

section \<open>internal/accesslog: the access log\<close>

text \<open>
  \<open>writeLog\<close> and \<open>WrapHandler\<close> of \<open>internal/accesslog/accesslog.go\<close>, on the wrapping writer of theory
  \<open>Writer\<close>. The logger is the list of the records logged so far, each a list of attributes. The
  properties say how the logged size and status relate to what was sent.
\<close>

datatype logval = LStr gostr | LInt int | LDuration int

type_synonym log_record = "(gostr \<times> logval) list"

definition writeLog :: "wrapWriter \<Rightarrow> entry request \<Rightarrow> log_record" where
  "writeLog ww r =
     [(''remote_addr'', LStr (rq_remote r))] @
     (case AuthnID (rq_ctx r) of Some authnID \<Rightarrow> [(''authn_id'', LStr authnID)] | None \<Rightarrow> []) @
     [(''method'', LStr (rq_method r)), (''path'', LStr (rq_uri r)), (''proto'', LStr (rq_proto r))] @
     (let referer = get_first (rq_header r) ''Referer'' in
      if referer \<noteq> [] then [(''referer'', LStr referer)] else []) @
     (let userAgent = get_first (rq_header r) ''User-Agent'' in
      if userAgent \<noteq> [] then [(''user_agent'', LStr userAgent)] else []) @
     [(''status'', LInt (int (ww_status ww))), (''size'', LInt (int (ww_bsize ww)))] @
     (case GetID (rq_ctx r) of Some cid \<Rightarrow> [(''conn_id'', LStr (cid_String cid))] | None \<Rightarrow> []) @
     (case ww_queryReport ww of
        Some q \<Rightarrow> [(''query'', LStr (qr_query q)), (''duration'', LDuration (qr_duration q))]
      | None \<Rightarrow> [])"

text \<open>
  How a call of a handler ends: it returns, or it panics, and then \<open>net/http\<close> aborts the connection and
  nothing after the call is run, or it is still in the loop that draws an identifier when the draws
  that are looked at run out. A handler works on the state \<open>'s\<close> of the program.
\<close>

datatype outcome = Returned | Panicked | Stuck

type_synonym 's handler = "writer \<Rightarrow> entry request \<Rightarrow> 's \<Rightarrow> writer \<times> 's \<times> outcome"

text \<open>\<open>log\<close> appends a record to the logger.\<close>

definition accesslog_WrapHandler :: "(log_record \<Rightarrow> 's \<Rightarrow> 's) \<Rightarrow> 's handler \<Rightarrow> 's handler" where
  "accesslog_WrapHandler log h w r s =
     (case h (Wrapped (new_wrapWriter (w_resp w))) r s of
        (w1, s1, oc) \<Rightarrow>
          (Plain (w_resp w1),
           (if oc = Returned then (case w1 of Wrapped ww \<Rightarrow> log (writeLog ww r) s1 | Plain _ \<Rightarrow> s1) else s1),
           oc))"

subsection \<open>What is logged and what was sent\<close>

text \<open>A handler that does a sequence of operations on its writer.\<close>

definition run_ops :: "writer \<Rightarrow> wop list \<Rightarrow> writer" where
  "run_ops w ops = handler_rw.run w ops"

lemma run_ops_Nil [simp]: "run_ops w [] = w"
  by (simp add: run_ops_def handler_rw.run_def)

lemma run_ops_Cons [simp]: "run_ops w (opn # ops) = run_ops (handler_rw.run_op w opn) ops"
  by (simp add: run_ops_def handler_rw.run_def)

lemma run_ops_append: "run_ops w (xs @ ys) = run_ops (run_ops w xs) ys"
  by (simp add: run_ops_def handler_rw.run_def)

fun the_wrap :: "writer \<Rightarrow> wrapWriter" where
  "the_wrap (Wrapped ww) = ww"
| "the_wrap (Plain r) = new_wrapWriter r"

lemma run_op_wrapped:
  "\<exists>ww'. handler_rw.run_op (Wrapped ww) opn = Wrapped ww'"
  by (cases opn) (auto split: prod.splits)

lemma run_ops_wrapped: "\<exists>ww'. run_ops (Wrapped ww) ops = Wrapped ww'"
proof (induction ops arbitrary: ww)
  case Nil
  then show ?case by simp
next
  case (Cons opn ops)
  obtain ww1 where "handler_rw.run_op (Wrapped ww) opn = Wrapped ww1" using run_op_wrapped by blast
  then show ?case using Cons.IH by simp
qed

text \<open>The size that is logged is the number of body bytes taken by \<open>net/http\<close>.\<close>

lemma ww_write_size:
  assumes "ww_write w d = (w', n, e)"
  shows "ww_bsize w' + length (rs_body (ww_base w)) = ww_bsize w + length (rs_body (ww_base w'))"
  using assms by (auto simp: ww_write_def rs_write_def rs_write_header_def Let_def split: if_splits prod.splits)

lemma run_op_size:
  "handler_rw.run_op (Wrapped ww) opn = Wrapped ww' \<Longrightarrow>
   ww_bsize ww' + length (rs_body (ww_base ww)) = ww_bsize ww + length (rs_body (ww_base ww'))"
proof (cases opn)
  case (SetHeader k v)
  then show "handler_rw.run_op (Wrapped ww) opn = Wrapped ww' \<Longrightarrow> ?thesis"
    by (auto simp: ww_set_def rs_set_def)
next
  case (WriteHeader c)
  then show "handler_rw.run_op (Wrapped ww) opn = Wrapped ww' \<Longrightarrow> ?thesis"
    by (auto simp: ww_write_header_def rs_write_header_def)
next
  case (WriteData d)
  then show "handler_rw.run_op (Wrapped ww) opn = Wrapped ww' \<Longrightarrow> ?thesis"
    using ww_write_size by (auto split: prod.splits)
qed

lemma run_ops_size:
  "run_ops (Wrapped ww) ops = Wrapped ww' \<Longrightarrow>
   ww_bsize ww' + length (rs_body (ww_base ww)) = ww_bsize ww + length (rs_body (ww_base ww'))"
proof (induction ops arbitrary: ww)
  case Nil
  then show ?case by simp
next
  case (Cons opn ops)
  obtain ww1 where o: "handler_rw.run_op (Wrapped ww) opn = Wrapped ww1" using run_op_wrapped by blast
  with Cons.prems have "run_ops (Wrapped ww1) ops = Wrapped ww'" by simp
  from Cons.IH [OF this] run_op_size [OF o] show ?case by simp
qed

text \<open>The status that is logged is the one of the last \<open>WriteHeader\<close>, or zero.\<close>

fun logged_code :: "nat \<Rightarrow> wop list \<Rightarrow> nat" where
  "logged_code s [] = s"
| "logged_code s (WriteHeader c # ops) = logged_code c ops"
| "logged_code s (SetHeader k v # ops) = logged_code s ops"
| "logged_code s (WriteData d # ops) = logged_code s ops"

lemma ww_write_status: "ww_status (fst (ww_write w d)) = ww_status w"
  by (auto simp: ww_write_def split: prod.splits)

lemma run_ops_status:
  "ww_status (the_wrap (run_ops (Wrapped ww) ops)) = logged_code (ww_status ww) ops"
proof (induction "ww_status ww" ops arbitrary: ww rule: logged_code.induct)
  case 1
  then show ?case by simp
next
  case (2 c ops)
  have "c = ww_status (ww_write_header ww c)" by (simp add: ww_write_header_def)
  from 2 [OF this] show ?case by (simp add: ww_write_header_def)
next
  case (3 k v ops)
  have "run_ops (Wrapped ww) (SetHeader k v # ops) = run_ops (Wrapped (ww_set ww k v)) ops" by simp
  moreover have "ww_status ww = ww_status (ww_set ww k v)" by (simp add: ww_set_def)
  ultimately show ?case using 3 by simp
next
  case (4 d ops)
  have "run_ops (Wrapped ww) (WriteData d # ops) = run_ops (Wrapped (fst (ww_write ww d))) ops"
    by (simp split: prod.splits)
  moreover have "ww_status ww = ww_status (fst (ww_write ww d))" by (simp add: ww_write_status)
  ultimately show ?case using 4 by simp
qed

lemma logged_code_no_header: "(\<And>c. WriteHeader c \<notin> set ops) \<Longrightarrow> logged_code s ops = s"
proof (induction ops)
  case Nil
  then show ?case by simp
next
  case (Cons opn ops)
  then show ?case by (cases opn) auto
qed

lemma logged_code_append: "logged_code s (xs @ ys) = logged_code (logged_code s xs) ys"
  by (induction s xs rule: logged_code.induct) auto

definition only_headers :: "wop list \<Rightarrow> bool" where
  "only_headers ops = list_all (\<lambda>opn. case opn of SetHeader k v \<Rightarrow> True | _ \<Rightarrow> False) ops"

definition no_write_header :: "wop list \<Rightarrow> bool" where
  "no_write_header ops = list_all (\<lambda>opn. case opn of WriteHeader c \<Rightarrow> False | _ \<Rightarrow> True) ops"

lemma only_headers_status: "only_headers ops \<Longrightarrow> w_status (run_ops w ops) = w_status w"
proof (induction ops arbitrary: w)
  case Nil
  then show ?case by simp
next
  case (Cons opn ops)
  from Cons.prems obtain k v where o: "opn = SetHeader k v" and rest: "only_headers ops"
    by (cases opn) (auto simp: only_headers_def)
  have "w_status (run_ops (w_set w k v) ops) = w_status (w_set w k v)" by (rule Cons.IH [OF rest])
  then show ?case by (simp add: o rs_set_def)
qed

lemma run_ops_status_Some: "w_status w = Some s \<Longrightarrow> w_status (run_ops w ops) = Some s"
  unfolding run_ops_def by (rule handler_rw.run_status_Some)

lemma no_write_header_code: "no_write_header ops \<Longrightarrow> logged_code s ops = s"
  by (rule logged_code_no_header) (auto simp: no_write_header_def list_all_iff)

lemma only_headers_no_write_header: "only_headers ops \<Longrightarrow> no_write_header ops"
  by (auto simp: only_headers_def no_write_header_def list_all_iff split: wop.splits)

text \<open>
  The logged size is what was sent. Whatever a handler does with its writer, the size in the log is
  the number of bytes of the response body, also when the client is gone and writes fail.
\<close>

lemma log_size_is_body:
  "ww_bsize (the_wrap (run_ops (Wrapped (new_wrapWriter r)) ops)) + length (rs_body r) =
   length (rs_body (w_resp (run_ops (Wrapped (new_wrapWriter r)) ops)))"
proof -
  obtain ww' where w: "run_ops (Wrapped (new_wrapWriter r)) ops = Wrapped ww'" using run_ops_wrapped by blast
  show ?thesis using run_ops_size [OF w] unfolding w by (simp add: new_wrapWriter_def)
qed

text \<open>
  When the logged status is the one that was sent. A handler that sets headers, then sends one final
  status, and no other after it, is logged with the status its client saw.
\<close>

lemma log_status_faithful:
  assumes "rs_status r = None" and "only_headers pre" and "no_write_header post" and "\<not> informational c"
  shows "w_status (run_ops (Wrapped (new_wrapWriter r)) (pre @ WriteHeader c # post)) = Some c \<and>
    ww_status (the_wrap (run_ops (Wrapped (new_wrapWriter r)) (pre @ WriteHeader c # post))) = c"
proof
  let ?w = "run_ops (Wrapped (new_wrapWriter r)) pre"
  have "w_status ?w = None"
    using assms(1) only_headers_status [OF assms(2)] by (simp add: new_wrapWriter_def)
  then have "w_status (w_write_header ?w c) = Some c" using assms(4) by (simp add: rs_write_header_def)
  then show "w_status (run_ops (Wrapped (new_wrapWriter r)) (pre @ WriteHeader c # post)) = Some c"
    by (simp add: run_ops_append run_ops_status_Some)
  show "ww_status (the_wrap (run_ops (Wrapped (new_wrapWriter r)) (pre @ WriteHeader c # post))) = c"
    using no_write_header_code [OF assms(3)] by (simp add: run_ops_status logged_code_append)
qed

text \<open>
  When the logged status is wrong. If a handler writes a body without \<open>WriteHeader\<close>, the client
  gets 200 and the log says 0; if it sends a status and an error handler sends another one after the
  fact, the client has the first and the log says the second.
\<close>

lemma log_status_wrong:
  assumes "rs_status r = None" and "only_headers pre" and "no_write_header post" and "\<not> informational c"
  shows "w_status (run_ops (Wrapped (new_wrapWriter r)) (pre @ WriteData d # post)) = Some 200 \<and>
    ww_status (the_wrap (run_ops (Wrapped (new_wrapWriter r)) (pre @ WriteData d # post))) = 0 \<and>
    w_status (run_ops (Wrapped (new_wrapWriter r)) (pre @ WriteHeader c # post @ [WriteHeader e])) = Some c \<and>
    ww_status (the_wrap (run_ops (Wrapped (new_wrapWriter r)) (pre @ WriteHeader c # post @ [WriteHeader e]))) = e"
proof (intro conjI)
  let ?w = "run_ops (Wrapped (new_wrapWriter r)) pre"
  have none: "w_status ?w = None"
    using assms(1) only_headers_status [OF assms(2)] by (simp add: new_wrapWriter_def)
  note pre = no_write_header_code [OF only_headers_no_write_header [OF assms(2)]]
  have "w_status (fst (w_write ?w d)) = Some 200" using none by (simp add: w_write_resp rs_write_status)
  then show "w_status (run_ops (Wrapped (new_wrapWriter r)) (pre @ WriteData d # post)) = Some 200"
    by (simp add: run_ops_append run_ops_status_Some)
  show "ww_status (the_wrap (run_ops (Wrapped (new_wrapWriter r)) (pre @ WriteData d # post))) = 0"
    using no_write_header_code [OF assms(3)]
    by (simp add: run_ops_status logged_code_append pre new_wrapWriter_def)
  have "w_status (w_write_header ?w c) = Some c" using none assms(4) by (simp add: rs_write_header_def)
  then show "w_status (run_ops (Wrapped (new_wrapWriter r)) (pre @ WriteHeader c # post @ [WriteHeader e])) = Some c"
    by (simp only: run_ops_append [of _ pre] run_ops_Cons handler_rw.run_op.simps run_ops_status_Some)
  show "ww_status (the_wrap (run_ops (Wrapped (new_wrapWriter r)) (pre @ WriteHeader c # post @ [WriteHeader e]))) = e"
    by (simp add: run_ops_status logged_code_append)
qed

end
