(* ===== verification/Fileserver.thy ===== *)
theory Fileserver
  imports Gohttp "HOL-Library.Multiset" "HOL-Library.Char_ord" "HOL-Library.List_Lexorder" "HOL-Library.Product_Lexorder"
begin

section \<open>internal/fileserver: the shared directory over HTTP\<close>

text \<open>
  \<open>internal/fileserver/fileserver.go\<close> and \<open>listdir.go\<close>: reading files and listing directories, and the
  dispatch of the other methods to the WebDAV library. The file system and the HTML template are
  parameters, and so are WebDAV and the order in which \<open>sort.Slice\<close> leaves equal elements.
\<close>

text \<open>An entry of a directory; \<open>de_info\<close> is its size, if \<open>Info\<close> succeeds.\<close>

record dirent =
  de_name :: gostr
  de_dir :: bool
  de_info :: "u64 option"

text \<open>\<open>fs_stat\<close> says whether the path exists and is a directory, \<open>fs_serve\<close> sends a file's content.\<close>

record 'e fsys =
  fs_stat :: "gostr \<Rightarrow> bool option"
  fs_readdir :: "gostr \<Rightarrow> dirent list option"
  fs_serve :: "gostr \<Rightarrow> writer \<Rightarrow> 'e request \<Rightarrow> writer"

record dirItem =
  di_Name :: gostr
  di_Size :: gostr

text \<open>The template executed on a path and items: the pieces it writes, and whether it failed.\<close>

type_synonym dir_template = "gostr \<Rightarrow> dirItem list \<Rightarrow> gostr list \<times> bool"

subsection \<open>Sizes\<close>

text \<open>The loop of \<open>formatSize\<close>; the divisor stays below \<open>2 ^ 41\<close>, so nothing wraps.\<close>

function size_loop :: "int \<Rightarrow> int \<Rightarrow> nat \<Rightarrow> int \<times> nat" where
  "size_loop n d e = (if d * 1024 \<le> n \<and> e < 3 then size_loop n (d * 1024) (Suc e) else (d, e))"
  by pat_completeness auto
termination by (relation "measure (\<lambda>(n, d, e). 3 - e)") auto

declare size_loop.simps [simp del]

definition formatSize :: "u64 \<Rightarrow> gostr" where
  "formatSize sz =
     (let n = sint sz in
      if n < 1024 then int_dec n
      else (let (d, e) = size_loop n 1024 0 in int_dec (n div d) @ [''KMGT'' ! e]))"

subsection \<open>The listing\<close>

definition dir_less :: "(gostr \<Rightarrow> gostr) \<Rightarrow> dirent \<Rightarrow> dirent \<Rightarrow> bool" where
  "dir_less ul a b =
     (if de_dir a \<noteq> de_dir b then de_dir a else to_lower ul (de_name a) < to_lower ul (de_name b))"

fun dir_items :: "dirent list \<Rightarrow> dirItem list" where
  "dir_items [] = []"
| "dir_items (e # es) =
     (let name = de_name e in
      if has_prefix name ''.'' then dir_items es
      else if de_dir e then \<lparr>di_Name = name @ ''/'', di_Size = []\<rparr> # dir_items es
      else (let sz = (case de_info e of None \<Rightarrow> ''-'' | Some n \<Rightarrow> formatSize n) in
            \<lparr>di_Name = name, di_Size = sz\<rparr> # dir_items es))"

definition list_items :: "gostr \<Rightarrow> dirent list \<Rightarrow> dirItem list" where
  "list_items upath es = (if upath \<noteq> ''/'' then [\<lparr>di_Name = ''../'', di_Size = []\<rparr>] else []) @ dir_items es"

fun write_chunks :: "writer \<Rightarrow> gostr list \<Rightarrow> writer \<times> bool" where
  "write_chunks w [] = (w, False)"
| "write_chunks w (c # cs) =
     (case w_write w c of
        (w1, n, Some err) \<Rightarrow> (w1, True)
      | (w1, n, None) \<Rightarrow> write_chunks w1 cs)"

definition serveDirList ::
  "'e fsys \<Rightarrow> (dirent list \<Rightarrow> dirent list) \<Rightarrow> dir_template \<Rightarrow> writer \<Rightarrow> gostr \<Rightarrow> gostr \<Rightarrow> writer" where
  "serveDirList fs sort_entries tmpl w upath absPath =
     (case fs_readdir fs absPath of
        None \<Rightarrow> http_Error w ''Error reading directory'' 500
      | Some entries \<Rightarrow>
          (let items = list_items upath (sort_entries entries);
               w1 = w_set w ''Content-Type'' ''text/html; charset=utf-8'';
               (chunks, terr) = tmpl upath items;
               (w2, werr) = write_chunks w1 chunks in
           if terr \<or> werr then http_Error w2 ''Error rendering template'' 500 else w2))"

subsection \<open>The handler\<close>

definition orig_path :: "gostr \<Rightarrow> gostr" where
  "orig_path p = (if \<not> has_prefix p ''/'' then ''/'' @ p else p)"

definition abs_path :: "gostr \<Rightarrow> gostr \<Rightarrow> gostr" where
  "abs_path root p = filepath_Join [root, trim_prefix (path_Clean (orig_path p)) ''/'']"

definition listDir_ServeHTTP ::
  "(gostr \<Rightarrow> bool) \<Rightarrow> 'e fsys \<Rightarrow> (dirent list \<Rightarrow> dirent list) \<Rightarrow> dir_template \<Rightarrow> gostr
   \<Rightarrow> writer \<Rightarrow> 'e request \<Rightarrow> writer" where
  "listDir_ServeHTTP rel fs sort_entries tmpl root w r =
     (let origPath = orig_path (rq_path r);
          cleanPath = path_Clean origPath;
          absPath = abs_path root (rq_path r);
          rootClean = path_Clean root in
      if absPath \<noteq> rootClean \<and> \<not> has_prefix absPath (rootClean @ ''/'') then http_NotFound w
      else (case fs_stat fs absPath of
          None \<Rightarrow> http_NotFound w
        | Some isDir \<Rightarrow>
            if isDir then
              (if \<not> has_suffix origPath ''/'' then
                 (let redirect = path_Base cleanPath @ ''/'';
                      q = rq_raw_query r;
                      redirect1 = (if q \<noteq> [] then redirect @ ''?'' @ q else redirect) in
                  http_Redirect rel w r redirect1 301)
               else serveDirList fs sort_entries tmpl w cleanPath absPath)
            else http_ServeFile (fs_serve fs) w r absPath))"

text \<open>The file server of a directory: the handler that lists it, and WebDAV on it.\<close>

record listDirHandler =
  ld_root :: gostr

definition newListDirHandler :: "gostr \<Rightarrow> listDirHandler" where
  "newListDirHandler root = \<lparr>ld_root = root\<rparr>"

record fileserver =
  fv_dir :: gostr
  fv_normal :: listDirHandler
  fv_webdav :: gostr

definition fileserver_New :: "gostr \<Rightarrow> fileserver" where
  "fileserver_New dir = \<lparr>fv_dir = dir, fv_normal = newListDirHandler dir, fv_webdav = dir\<rparr>"

text \<open>\<open>Server.ServeHTTP\<close> of \<open>fileserver.go\<close>: reading is served here, the rest by WebDAV.\<close>

definition fileserver_ServeHTTP ::
  "(writer \<Rightarrow> 'e request \<Rightarrow> 'w \<Rightarrow> writer \<times> 'w) \<Rightarrow> (writer \<Rightarrow> 'e request \<Rightarrow> 'w \<Rightarrow> writer \<times> 'w)
   \<Rightarrow> writer \<Rightarrow> 'e request \<Rightarrow> 'w \<Rightarrow> writer \<times> 'w" where
  "fileserver_ServeHTTP normal webdav w r s =
     (if rq_method r = ''GET'' \<or> rq_method r = ''HEAD'' then normal w r s else webdav w r s)"

subsection \<open>The contract of sort.Slice\<close>

locale slice_sort =
  fixes less :: "'a \<Rightarrow> 'a \<Rightarrow> bool" and srt :: "'a list \<Rightarrow> 'a list"
  assumes srt_mset: "mset (srt xs) = mset xs"
    and srt_sorted: "sorted_wrt (\<lambda>a b. \<not> less b a) (srt xs)"
begin

lemma srt_set: "set (srt xs) = set xs"
  by (metis srt_mset set_mset_mset)

lemma srt_length: "length (srt xs) = length xs"
  by (metis srt_mset size_mset)

lemma srt_count: "mset (filter P (srt xs)) = mset (filter P xs)"
  by (simp add: srt_mset mset_filter)

lemma srt_filter_sorted: "sorted_wrt (\<lambda>a b. \<not> less b a) (filter P (srt xs))"
  using srt_sorted by (rule sorted_wrt_filter)

end

text \<open>A sort by the key that the comparison of the listing stands for.\<close>

definition dir_key :: "(gostr \<Rightarrow> gostr) \<Rightarrow> dirent \<Rightarrow> bool \<times> gostr" where
  "dir_key ul e = (\<not> de_dir e, to_lower ul (de_name e))"

definition sort_by_key :: "(gostr \<Rightarrow> gostr) \<Rightarrow> dirent list \<Rightarrow> dirent list" where
  "sort_by_key ul es = sort_key (dir_key ul) es"

lemma dir_less_key: "dir_less ul a b \<longleftrightarrow> dir_key ul a < dir_key ul b"
  by (auto simp: dir_less_def dir_key_def)

interpretation dir_sort: slice_sort "dir_less ul" "sort_by_key ul"
proof (unfold_locales, goal_cases)
  case (1 xs)
  show ?case by (simp add: sort_by_key_def)
next
  case (2 xs)
  have "sorted_wrt (\<lambda>a b. dir_key ul a \<le> dir_key ul b) (sort_by_key ul xs)"
    using sorted_sort_key [of "dir_key ul" xs] by (simp add: sort_by_key_def sorted_map)
  then show ?case
    by (rule sorted_wrt_mono_rel [rotated]) (simp add: dir_less_key not_less)
qed

end
