(* ===== verification/Duckserver.thy ===== *)
theory Duckserver
  imports Duckserver_Db Querydb Formats Accesslog Fileserver
begin

section \<open>duckserver: the HTTP handlers\<close>

text \<open>
  The handlers of \<open>duckserver/duckserver.go\<close> and their routing. A handler runs on the state of the
  server: the connection manager, the world of the databases, the running queries with their contexts,
  and the access log. What the request finds at run time (the identifiers drawn, the clock, what its
  context says when it is looked at) is the record \<open>during\<close>; the libraries are the record \<open>webenv\<close>.
\<close>

subsection \<open>Names of response headers\<close>

abbreviation AuthnIDHeader :: gostr where "AuthnIDHeader \<equiv> ''Duckpop-Authnid''"

abbreviation ConnectionIDHeader :: gostr where "ConnectionIDHeader \<equiv> ''Duckpop-Connectionid''"

abbreviation QueryIDHeader :: gostr where "QueryIDHeader \<equiv> ''Duckpop-Queryid''"

abbreviation DurationHeader :: gostr where "DurationHeader \<equiv> ''Duckpop-Duration''"

abbreviation defaultFormat :: gostr where "defaultFormat \<equiv> ''csv''"

subsection \<open>State and environment\<close>

record 'w sys =
  sy_mgr :: "(entry, 'w) manager"
  sy_world :: 'w
  sy_queries :: querydb
  sy_ctxs :: ctxstore
  sy_log :: "log_record list"

record during =
  du_draws :: "u32 list"
  du_start :: int
  du_end :: int
  du_ctx :: nat
  du_query_ctx :: "gostr option"
  du_ctx_err :: "nat \<Rightarrow> gostr option"
  du_order :: "u32 list"

text \<open>\<open>QueryContext\<close> is given the query's context: \<open>du_query_ctx\<close> is what \<open>ctx.Err\<close> says of it by the time the
  call returns, and \<open>we_query\<close>, the database, may answer accordingly. The rows of an answer are those for
  which \<open>rows.Next\<close> returns true, so a cancelled context can make them fewer.

  The error of a query: whether \<open>errors.Is\<close> finds a cancelled context or a deadline, and whether it
  is a \<open>*duckdb.Error\<close>.\<close>

record query_error =
  qe_text :: gostr
  qe_cancelled :: bool
  qe_duckdb :: bool

record ('fld, 'rec, 'enc, 't, 'w) webenv =
  we_db :: "'w dbenv"
  we_query :: "nat \<Rightarrow> gostr option \<Rightarrow> gostr \<Rightarrow> 'w \<Rightarrow> 'w \<times> (query_error + rows)"
  we_rows_close :: "nat \<Rightarrow> 'w \<Rightarrow> 'w"
  we_fmt :: "('fld, 'rec, 'enc, 't, writer) fmt_api"
  we_sprintf :: "gostr \<Rightarrow> gostr list \<Rightarrow> gostr"
  we_lower :: "gostr \<Rightarrow> gostr"
  we_rel :: "gostr \<Rightarrow> bool"
  we_quote :: "gostr \<Rightarrow> gostr"
  we_show_params :: "params \<Rightarrow> gostr"
  we_rfc3339 :: "int \<Rightarrow> gostr"
  we_json_config :: "config \<Rightarrow> gostr"
  we_json_conn :: "gostr \<Rightarrow> nat \<Rightarrow> 'w \<Rightarrow> gostr"
  we_json_query :: "query_stats \<Rightarrow> gostr"

text \<open>What a handling function does: it returns nil or an error, or it does not return.\<close>

datatype hresult = HOk | HErr goerr | HPanic | HStuck

type_synonym 'w hfun = "writer \<Rightarrow> entry request \<Rightarrow> 'w sys \<Rightarrow> writer \<times> 'w sys \<times> hresult"

definition errorAwareHandler :: "(gostr \<Rightarrow> gostr list \<Rightarrow> gostr) \<Rightarrow> 'w hfun \<Rightarrow> 'w sys handler" where
  "errorAwareHandler fx handle w r s =
     (case handle w r s of
        (w1, s1, HOk) \<Rightarrow> (w1, s1, Returned)
      | (w1, s1, HErr err) \<Rightarrow> (httperror_Write fx w1 err, s1, Returned)
      | (w1, s1, HPanic) \<Rightarrow> (w1, s1, Panicked)
      | (w1, s1, HStuck) \<Rightarrow> (w1, s1, Stuck))"

subsection \<open>Authorization\<close>

definition checkAuthz :: "server \<Rightarrow> writer \<Rightarrow> entry request \<Rightarrow> writer \<times> goerr option" where
  "checkAuthz srv w r =
     (case sv_authenticator srv of
        None \<Rightarrow> (w, None)
      | Some a \<Rightarrow>
          (case AuthnID (rq_ctx r) of
             Some authnID \<Rightarrow> (w_set w AuthnIDHeader authnID, None)
           | None \<Rightarrow> if sv_withoutAuthz srv then (w, None) else (w, Some (httperror_New 401))))"

definition authzChangeOperationHanlder ::
  "(gostr \<Rightarrow> gostr list \<Rightarrow> gostr) \<Rightarrow> server \<Rightarrow> 'w sys handler \<Rightarrow> 'w sys handler" where
  "authzChangeOperationHanlder fx srv handle w r s =
     (if rq_method r \<in> set [''GET'', ''HEAD'', ''OPTIONS'', ''PROPFIND''] then handle w r s
      else (case checkAuthz srv w r of
          (w1, Some err) \<Rightarrow> (httperror_Write fx w1 err, s, Returned)
        | (w1, None) \<Rightarrow> handle w1 r s))"

subsection \<open>Reading the query and the format\<close>

definition readQparamQuery :: "'e request \<Rightarrow> gostr option" where
  "readQparamQuery r =
     (let q = get_first (rq_query r) ''q'' in
      if q \<noteq> [] then Some q
      else (let q2 = get_first (rq_query r) ''query'' in if q2 \<noteq> [] then Some q2 else None))"

definition getFormat :: "'e request \<Rightarrow> gostr" where
  "getFormat r =
     (let f1 = get_first (rq_query r) ''format'';
          f2 = (if f1 = [] then get_first (rq_query r) ''f'' else f1) in
      if f2 = [] then defaultFormat else f2)"

text \<open>\<open>io.ReadAll\<close> of a body behind \<open>http.MaxBytesReader\<close>. Above the limit the reader tells the server
  to close the connection, if the writer it was given is the one of \<open>net/http\<close>, and returns a
  \<open>*http.MaxBytesError\<close>.\<close>

datatype read_error = MaxBytes | ReadFailed gostr | ErrNoQuery

definition too_large :: "writer \<Rightarrow> writer" where
  "too_large w = (case w of
     Plain resp \<Rightarrow>
       Plain ((if rs_status resp = None then rs_set resp ''Connection'' ''close'' else resp)\<lparr>rs_close := True\<rparr>)
   | Wrapped ww \<Rightarrow> Wrapped ww)"

definition read_body :: "int \<Rightarrow> writer \<Rightarrow> 'e request \<Rightarrow> writer \<times> (read_error + gostr)" where
  "read_body limit w r =
     (if max limit 0 < int (length (rq_body r)) then (too_large w, Inl MaxBytes)
      else (case rq_body_err r of
          Some err \<Rightarrow> (w, Inl (ReadFailed err))
        | None \<Rightarrow> (w, Inr (rq_body r))))"

definition readQuery :: "int \<Rightarrow> writer \<Rightarrow> 'e request \<Rightarrow> writer \<times> (read_error + gostr)" where
  "readQuery limit w r =
     (case read_body limit w r of
        (w1, Inl err) \<Rightarrow> (w1, Inl err)
      | (w1, Inr b) \<Rightarrow>
          if b \<noteq> [] then (w1, Inr b)
          else (w1, case readQparamQuery r of Some q \<Rightarrow> Inr q | None \<Rightarrow> Inl ErrNoQuery))"

fun read_error_text :: "read_error \<Rightarrow> gostr" where
  "read_error_text MaxBytes = ''http: request body too large''"
| "read_error_text (ReadFailed t) = t"
| "read_error_text ErrNoQuery = ''no queries''"

definition shouldRedirectToUI :: "server \<Rightarrow> 'e request \<Rightarrow> bool" where
  "shouldRedirectToUI srv r =
     (if cf_UIResourceFS (sv_config srv) = None \<or> rq_method r \<noteq> ''GET'' then False
      else readQparamQuery r = None)"

subsection \<open>handleQuery\<close>

text \<open>From the execution of the query on: the last part of \<open>handleQuery\<close>, before its deferred calls.\<close>

definition runQuery ::
  "('fld, 'rec, 'enc, 't, 'w) webenv \<Rightarrow> during \<Rightarrow> nat \<Rightarrow> gostr \<Rightarrow> factory \<Rightarrow> ('enc, 't) fwriter
   \<Rightarrow> writer \<Rightarrow> entry request \<Rightarrow> 'w \<Rightarrow> writer \<times> 'w \<times> hresult" where
  "runQuery env du conn sql factory fw w r world =
     (let w1 = (if get_first (rq_header r) ''Expect'' = ''100-continue'' then w_write_header w 100 else w);
          (world1, res) = we_query env conn (du_query_ctx du) sql world;
          dur = du_end du - du_start du;
          w2 = w_query_report w1 sql dur;
          w3 = w_set w2 DurationHeader (dur_str dur) in
      case res of
        Inl err \<Rightarrow>
          (if qe_cancelled err then (w3, world1, HErr (httperror_Newf 504 (qe_text err) []))
           else if \<not> qe_duckdb err then (w3, world1, HErr (httperror_Newf 500 ''DB error: %s'' [qe_text err]))
           else (w3, world1, HErr (httperror_Newf 400 ''Query error: %s'' [qe_text err])))
      | Inr rows \<Rightarrow>
          (let w4 = w_set w3 ''Content-Type'' (factory_ContentType factory);
               w5 = w_write_header w4 200;
               (fw1, w6, werr) = writeRows (we_fmt env) (du_ctx_err du) fw w5 rows;
               world2 = we_rows_close env conn world1 in
           case werr of
             None \<Rightarrow> (w6, world2, HOk)
           | Some e \<Rightarrow>
               if e = WPanic then (w6, world2, HPanic)
               else (w6, world2, HErr (httperror_Newf 500 ''Serialization error: %s'' [write_error_text e]))))"

text \<open>With the client and its connection in hand: the query is registered, and unregistered when the
  handler returns or panics.\<close>

definition registeredQuery ::
  "('fld, 'rec, 'enc, 't, 'w) webenv \<Rightarrow> during \<Rightarrow> nat option \<Rightarrow> u32 \<Rightarrow> gostr \<Rightarrow> factory \<Rightarrow> ('enc, 't) fwriter
   \<Rightarrow> writer \<Rightarrow> entry request \<Rightarrow> 'w sys \<Rightarrow> writer \<times> 'w sys \<times> hresult" where
  "registeredQuery env du conn cid sql factory fw w r s =
     (case Add (sy_queries s) (sy_ctxs s) (du_ctx du) cid sql (du_start du) (du_draws du) of
        None \<Rightarrow> (w, s, HStuck)
      | Some (qdb, cs, q, rest) \<Rightarrow>
          (let w1 = w_set w QueryIDHeader (qid_String (q_ID q));
               (w2, world, res) = (case conn of
                  None \<Rightarrow> (w1, sy_world s, HPanic)
                | Some c \<Rightarrow> runQuery env du c sql factory fw w1 r (sy_world s));
               (qdb1, cs1) = q_Close qdb cs q in
           (w2, s\<lparr>sy_world := world, sy_queries := qdb1, sy_ctxs := cs1\<rparr>, res)))"

definition handleQuery ::
  "('fld, 'rec, 'enc, 't, 'w) webenv \<Rightarrow> server \<Rightarrow> during \<Rightarrow> 'w hfun" where
  "handleQuery env srv du w r s =
     (if shouldRedirectToUI srv r then (http_Redirect (we_rel env) w r ''/ui/'' 307, s, HOk)
      else (case checkAuthz srv w r of
          (w1, Some err) \<Rightarrow> (w1, s, HErr err)
        | (w1, None) \<Rightarrow>
            if rq_method r \<noteq> ''GET'' \<and> rq_method r \<noteq> ''POST'' then (w1, s, HErr (httperror_New 404))
            else (case readQuery (cf_MaxBodySize (sv_config srv)) w1 r of
                (w2, Inl MaxBytes) \<Rightarrow> (w2, s, HOk)
              | (w2, Inl err) \<Rightarrow> (w2, s, HErr (httperror_Newf 400 ''No queries: %s'' [read_error_text err]))
              | (w2, Inr sql) \<Rightarrow>
                  (case FindAndCreate (we_lower env) factories (factory_Create (we_fmt env)) (getFormat r) of
                     Inl err \<Rightarrow>
                       (w2, s, HErr (httperror_Newf 400 ''Unsupported format: %s''
                          [format_error_text (we_show_params env) err]))
                   | Inr (factory, fw) \<Rightarrow>
                       (case manager_Client (sy_mgr s) (rq_ctx r) of
                          Inl err \<Rightarrow>
                            (w2, s, HErr (httperror_Newf 500 ''No associated DB: %s'' [conn_error_text err]))
                        | Inr ref \<Rightarrow>
                            (case heap (sy_mgr s) ref of
                               None \<Rightarrow> (w2, s, HPanic)
                             | Some cl \<Rightarrow>
                                 (let w3 = w_set w2 ConnectionIDHeader (cid_String (cl_ID cl));
                                      (m1, world1, cres) =
                                        client_Conn (sqlapi_of (we_db env)) (sy_mgr s) (sy_world s) ref;
                                      s1 = s\<lparr>sy_mgr := m1, sy_world := world1\<rparr> in
                                  case cres of
                                    Inl err \<Rightarrow>
                                      (if err = ErrMaxDB then
                                         (w3, s1, HErr (httperror_Newf 429 (conn_error_text err) []))
                                       else (w3, s1, HErr (httperror_Newf 500 ''Failed to connect DB: %s''
                                          [conn_error_text err])))
                                  | Inr conn \<Rightarrow>
                                      registeredQuery env du conn (cl_ID cl) sql factory fw w3 r s1)))))))"

subsection \<open>The other handlers\<close>

definition handlePing :: "'w hfun" where
  "handlePing w r s =
     (let w1 = w_write_header w 200 in
      (fst (w_write w1 (''OK'' @ [CHR 0x0D, CHR 0x0A])), s, HOk))"

text \<open>\<open>Encode\<close> writes the text and a line feed in one call and returns the error of the write.\<close>

definition json_encode :: "writer \<Rightarrow> gostr \<Rightarrow> writer \<times> gostr option" where
  "json_encode w text = (let (w1, n, err) = w_write w (text @ [CHR 0x0A]) in (w1, err))"

definition handleConfig :: "('fld, 'rec, 'enc, 't, 'w) webenv \<Rightarrow> server \<Rightarrow> 'w hfun" where
  "handleConfig env srv w r s =
     (let w1 = w_set w ''Content-Type'' ''application/json'';
          w2 = w_write_header w1 200 in
      case json_encode w2 (we_json_config env (sv_config srv)) of
        (w3, None) \<Rightarrow> (w3, s, HOk)
      | (w3, Some err) \<Rightarrow> (w3, s, HErr (OtherErr err)))"

text \<open>One line of a listing: the text and one more line feed; the error ends the loop.\<close>

definition write_line :: "writer \<Rightarrow> gostr \<Rightarrow> writer \<times> gostr option" where
  "write_line w text =
     (case json_encode w text of
        (w1, Some err) \<Rightarrow> (w1, Some err)
      | (w1, None) \<Rightarrow> (let (w2, n, err) = w_write w1 [CHR 0x0A] in (w2, err)))"

definition handleStatusConnections ::
  "('fld, 'rec, 'enc, 't, 'w) webenv \<Rightarrow> during \<Rightarrow> 'w hfun" where
  "handleStatusConnections env du w r s =
     (let w1 = w_set w ''Content-Type'' ''application/jsonlines'';
          w2 = w_write_header w1 200;
          (w3, err) = Databases (sy_mgr s) (du_order du)
            (\<lambda>i db (w, e). (let (w', e') = write_line w (we_json_conn env (cid_String i) db (sy_world s)) in
               ((w', e'), e' = None))) (w2, None) in
      (w3, s, case err of None \<Rightarrow> HOk | Some e \<Rightarrow> HErr (OtherErr e)))"

fun write_lines :: "writer \<Rightarrow> gostr list \<Rightarrow> writer \<times> gostr option" where
  "write_lines w [] = (w, None)"
| "write_lines w (t # ts) =
     (case write_line w t of
        (w1, Some err) \<Rightarrow> (w1, Some err)
      | (w1, None) \<Rightarrow> write_lines w1 ts)"

definition handleStatusQueries :: "('fld, 'rec, 'enc, 't, 'w) webenv \<Rightarrow> during \<Rightarrow> 'w hfun" where
  "handleStatusQueries env du w r s =
     (let w1 = w_set w ''Content-Type'' ''application/jsonlines'';
          w2 = w_write_header w1 200;
          now = du_start du;
          texts = map (\<lambda>q. we_json_query env (q_Stats (we_rfc3339 env) q now)) (Queries (sy_queries s) (du_order du));
          (w3, err) = write_lines w2 texts in
      (w3, s, case err of None \<Rightarrow> HOk | Some e \<Rightarrow> HErr (OtherErr e)))"

text \<open>\<open>queryID\<close> is the path value of the route.\<close>

definition handleInterruptQuery ::
  "('fld, 'rec, 'enc, 't, 'w) webenv \<Rightarrow> server \<Rightarrow> gostr \<Rightarrow> 'w hfun" where
  "handleInterruptQuery env srv queryID w r s =
     (case checkAuthz srv w r of
        (w1, Some err) \<Rightarrow> (w1, s, HErr err)
      | (w1, None) \<Rightarrow>
          (case ParseID queryID of
             Inl err \<Rightarrow>
               (w1, s, HErr (httperror_Newf 400 ''ID syntax error: %s'' [parse_id_text (we_quote env) err]))
           | Inr i \<Rightarrow>
               (case Query (sy_queries s) i of
                  None \<Rightarrow> (w1, s, HErr (httperror_New 404))
                | Some q \<Rightarrow>
                    (let (qdb, cs) = q_Close (sy_queries s) (sy_ctxs s) q in
                     (w_write_header w1 204, s\<lparr>sy_queries := qdb, sy_ctxs := cs\<rparr>, HOk)))))"

end
