(* ===== verification/Duckserver_Routes.thy ===== *)
theory Duckserver_Routes
  imports Duckserver
begin

section \<open>duckserver: routing and middleware\<close>

text \<open>
  \<open>newDuckpopHandler\<close> of \<open>duckserver/duckserver.go\<close>: the patterns it registers, \<open>http.ServeMux\<close> on them,
  and the middleware around it. The file server of the UI, WebDAV and the profiler are handlers that are
  parameters, and so are the shared directory as it is at the time of the request and the status with
  which the mux redirects.
\<close>

subsection \<open>Patterns\<close>

datatype endpoint =
    EpQuery | EpPing | EpConfig | EpStatusConnections | EpStatusQueries | EpInterruptQuery
  | EpShared | EpUI | EpPprof gostr

text \<open>The path of a pattern: one path, all paths below a prefix, or a prefix and one more element.\<close>

datatype pathpat = PExact gostr | PBelow gostr | PElem gostr

type_synonym route = "gostr option \<times> pathpat \<times> endpoint"

definition routes :: "server \<Rightarrow> route list" where
  "routes srv =
     [(None, PExact ''/'', EpQuery),
      (Some ''GET'', PExact ''/ping/'', EpPing),
      (Some ''GET'', PBelow ''/config/'', EpConfig),
      (Some ''GET'', PExact ''/status/connections/'', EpStatusConnections),
      (Some ''GET'', PExact ''/status/queries/'', EpStatusQueries),
      (Some ''DELETE'', PElem ''/status/queries/'', EpInterruptQuery)] @
     (if sv_dbSharedDir srv \<noteq> [] then [(None, PBelow ''/shared/'', EpShared)] else []) @
     (if cf_UIResourceFS (sv_config srv) \<noteq> None then [(None, PBelow ''/ui/'', EpUI)] else []) @
     (if cf_EnablePprof (sv_config srv) then
        [(Some ''GET'', PExact ''/debug/pprof/cmdline'', EpPprof ''cmdline''),
         (Some ''GET'', PExact ''/debug/pprof/profile'', EpPprof ''profile''),
         (Some ''GET'', PExact ''/debug/pprof/symbol'', EpPprof ''symbol''),
         (Some ''GET'', PExact ''/debug/pprof/trace'', EpPprof ''trace''),
         (Some ''GET'', PBelow ''/debug/pprof/'', EpPprof '''')]
      else [])"

subsection \<open>http.ServeMux\<close>

fun path_matches :: "pathpat \<Rightarrow> gostr \<Rightarrow> bool" where
  "path_matches (PExact p) path \<longleftrightarrow> path = p"
| "path_matches (PBelow p) path \<longleftrightarrow> has_prefix path p"
| "path_matches (PElem p) path \<longleftrightarrow>
     (let rest = drop (length p) path in has_prefix path p \<and> rest \<noteq> [] \<and> CHR ''/'' \<notin> set rest)"

definition method_matches :: "gostr option \<Rightarrow> gostr \<Rightarrow> bool" where
  "method_matches pm m = (case pm of None \<Rightarrow> True | Some x \<Rightarrow> m = x \<or> (x = ''GET'' \<and> m = ''HEAD''))"

definition mux_find :: "route list \<Rightarrow> gostr \<Rightarrow> gostr \<Rightarrow> endpoint option" where
  "mux_find rs m path =
     map_option (\<lambda>(pm, pp, ep). ep) (find (\<lambda>(pm, pp, ep). method_matches pm m \<and> path_matches pp path) rs)"

text \<open>Whether a pattern is the path itself: then a request without the final slash is redirected.\<close>

definition mux_exact :: "route list \<Rightarrow> gostr \<Rightarrow> gostr \<Rightarrow> bool" where
  "mux_exact rs m path =
     list_ex (\<lambda>(pm, pp, ep). method_matches pm m \<and> (pp = PExact path \<or> pp = PBelow path)) rs"

text \<open>The methods for which there would be a handler, here or after the redirect to the final slash.\<close>

definition mux_methods :: "route list \<Rightarrow> gostr \<Rightarrow> gostr list" where
  "mux_methods rs path =
     sort (remdups (concat (map (\<lambda>(pm, pp, ep).
       case pm of None \<Rightarrow> [] | Some m \<Rightarrow>
         if path_matches pp path \<or> \<not> has_suffix path ''/'' \<and> path_matches pp (path @ ''/'')
         then (if m = ''GET'' then [m, ''HEAD''] else [m]) else []) rs)))"

definition cleanPath :: "gostr \<Rightarrow> gostr" where
  "cleanPath p =
     (if p = [] then ''/''
      else (let p1 = (if has_prefix p ''/'' then p else ''/'' @ p); np = path_Clean p1 in
            if has_suffix p1 ''/'' \<and> np \<noteq> ''/'' then np @ ''/'' else np))"

datatype mux_result = MuxHandler endpoint | MuxRedirect gostr | MuxNotAllowed "gostr list" | MuxNotFound

text \<open>For a path that is its own escaped form.\<close>

definition mux_route :: "route list \<Rightarrow> gostr \<Rightarrow> gostr \<Rightarrow> mux_result" where
  "mux_route rs m p =
     (let path = cleanPath p in
      if mux_find rs m path = None \<and> \<not> has_suffix path ''/'' \<and> mux_exact rs m (path @ ''/'')
      then MuxRedirect (path @ ''/'')
      else if path \<noteq> p then MuxRedirect path
      else (case mux_find rs m path of
          Some ep \<Rightarrow> MuxHandler ep
        | None \<Rightarrow> (let ms = mux_methods rs path in if ms \<noteq> [] then MuxNotAllowed ms else MuxNotFound)))"

subsection \<open>The handlers behind the patterns\<close>

record 'w extern =
  ex_fs :: "'w \<Rightarrow> entry fsys"
  ex_sort :: "dirent list \<Rightarrow> dirent list"
  ex_template :: dir_template
  ex_webdav :: "gostr \<Rightarrow> writer \<Rightarrow> entry request \<Rightarrow> 'w \<Rightarrow> writer \<times> 'w"
  ex_ui :: "writer \<Rightarrow> entry request \<Rightarrow> writer"
  ex_pprof :: "gostr \<Rightarrow> writer \<Rightarrow> entry request \<Rightarrow> writer"
  ex_redirect_code :: nat

definition shared_handler :: "('fld, 'rec, 'enc, 't, 'w) webenv \<Rightarrow> 'w extern \<Rightarrow> server \<Rightarrow> 'w sys handler" where
  "shared_handler env ex srv w r s =
     (let fv = fileserver_New (sv_dbSharedDir srv);
          (w1, world) = fileserver_ServeHTTP
            (\<lambda>w r world. (listDir_ServeHTTP (we_rel env) (ex_fs ex world) (ex_sort ex) (ex_template ex)
               (ld_root (fv_normal fv)) w r, world))
            (ex_webdav ex (fv_webdav fv)) w r (sy_world s) in
      (w1, s\<lparr>sy_world := world\<rparr>, Returned))"

definition serve_endpoint ::
  "('fld, 'rec, 'enc, 't, 'w) webenv \<Rightarrow> 'w extern \<Rightarrow> server \<Rightarrow> during \<Rightarrow> endpoint \<Rightarrow> 'w sys handler" where
  "serve_endpoint env ex srv du ep w r s =
     (case ep of
        EpQuery \<Rightarrow> errorAwareHandler (we_sprintf env) (handleQuery env srv du) w r s
      | EpPing \<Rightarrow> errorAwareHandler (we_sprintf env) handlePing w r s
      | EpConfig \<Rightarrow> errorAwareHandler (we_sprintf env) (handleConfig env srv) w r s
      | EpStatusConnections \<Rightarrow> errorAwareHandler (we_sprintf env) (handleStatusConnections env du) w r s
      | EpStatusQueries \<Rightarrow> errorAwareHandler (we_sprintf env) (handleStatusQueries env du) w r s
      | EpInterruptQuery \<Rightarrow>
          errorAwareHandler (we_sprintf env)
            (handleInterruptQuery env srv (drop (length ''/status/queries/'') (rq_path r))) w r s
      | EpShared \<Rightarrow>
          http_StripPrefix ''/shared/''
            (\<lambda>w r. authzChangeOperationHanlder (we_sprintf env) srv (shared_handler env ex srv) w r s)
            (\<lambda>w. (w, s, Returned)) w r
      | EpUI \<Rightarrow> http_StripPrefix ''/ui/'' (\<lambda>w r. (ex_ui ex w r, s, Returned)) (\<lambda>w. (w, s, Returned)) w r
      | EpPprof name \<Rightarrow> (ex_pprof ex name w r, s, Returned))"

definition mux_handler ::
  "('fld, 'rec, 'enc, 't, 'w) webenv \<Rightarrow> 'w extern \<Rightarrow> server \<Rightarrow> during \<Rightarrow> 'w sys handler" where
  "mux_handler env ex srv du w r s =
     (case mux_route (routes srv) (rq_method r) (rq_path r) of
        MuxHandler ep \<Rightarrow> serve_endpoint env ex srv du ep w r s
      | MuxRedirect path \<Rightarrow>
          (http_Redirect (we_rel env) w r
             (path @ (if rq_raw_query r = [] then [] else ''?'' @ rq_raw_query r)) (ex_redirect_code ex), s, Returned)
      | MuxNotAllowed ms \<Rightarrow>
          (http_Error (w_set w ''Allow'' (join_with '', '' ms)) ''Method Not Allowed'' 405, s, Returned)
      | MuxNotFound \<Rightarrow> (http_NotFound w, s, Returned))"

text \<open>The whole handler: authentication outside, then the access log, if there is a logger, then the
  mux.\<close>

definition newDuckpopHandler ::
  "('fld, 'rec, 'enc, 't, 'w) webenv \<Rightarrow> 'w extern \<Rightarrow> server \<Rightarrow> bool \<Rightarrow> during \<Rightarrow> 'w sys handler" where
  "newDuckpopHandler env ex srv has_logger du w r s =
     (let h = (if has_logger
               then accesslog_WrapHandler (\<lambda>l s. s\<lparr>sy_log := sy_log s @ [l]\<rparr>) (mux_handler env ex srv du)
               else mux_handler env ex srv du) in
      AuthenticateHandler (sv_authenticator srv) (\<lambda>r. h w r s) r)"

text \<open>What \<open>net/http\<close> does when the handler has returned without a status: it sends 200.\<close>

definition finished :: "writer \<Rightarrow> writer" where
  "finished w = (if w_status w = None then w_write_header w 200 else w)"

end
