(* ===== verification/Formats_Props.thy ===== *)
theory Formats_Props
  imports Formats
begin

section \<open>A result as CSV, end to end\<close>

text \<open>
  What \<open>writeRows\<close> of \<open>duckserver/duckserver.go\<close> sends with the CSV writer: the locale \<open>reliable_sink\<close>
  is a sink that takes everything it is given, as the response of a living client does.
\<close>

subsection \<open>Reliable sinks\<close>

locale reliable_sink = byte_sink put out for put :: "'w put" and out :: "'w \<Rightarrow> gostr" +
  fixes good :: "'w \<Rightarrow> bool"
  assumes put_good: "good w \<Longrightarrow> put w s = (w', n, err) \<Longrightarrow> err = None \<and> n = length s \<and> good w'"
begin

lemma flush_good:
  assumes "good w" and "bw_err b = None" and "bw_flush put b w = (b', w')"
  shows "good w' \<and> bw_err b' = None"
proof -
  obtain w1 n err where p: "put w (bw_buf b) = (w1, n, err)" by (metis prod_cases3)
  from put_good [OF assms(1) p] p assms(1-3) show ?thesis
    by (cases "bw_buf b = []") (auto simp: bw_flush_def)
qed

lemma write_good:
  "good w \<Longrightarrow> bw_err b = None \<Longrightarrow> bw_write put b w s = (b', w') \<Longrightarrow> good w' \<and> bw_err b' = None"
proof (induction s arbitrary: b w)
  case Nil
  then show ?case by simp
next
  case (Cons c s)
  show ?case
  proof (cases "length (bw_buf b) < bw_size")
    case True
    with Cons.prems have "bw_write put (b\<lparr>bw_buf := bw_buf b @ [c]\<rparr>) w s = (b', w')" by simp
    from Cons.IH [OF Cons.prems(1) _ this] Cons.prems(2) show ?thesis by simp
  next
    case False
    obtain b1 w1 where f: "bw_flush put b w = (b1, w1)" by fastforce
    note g = flush_good [OF Cons.prems(1,2) f]
    with False f Cons.prems have "bw_write put (b1\<lparr>bw_buf := bw_buf b1 @ [c]\<rparr>) w1 s = (b', w')" by simp
    from Cons.IH [OF _ _ this] g show ?thesis by simp
  qed
qed

text \<open>A record is buffered or sent in full, and flushing sends what is left.\<close>

lemma csv_Write_good:
  assumes "good w" and "bw_err b = None"
  obtains b' w' where "csv_Write put b w r = (b', w', None)" "good w'" "bw_err b' = None"
    "out w' @ bw_buf b' = out w @ bw_buf b @ csv_record r"
proof -
  obtain b' w' where bw: "bw_write put b w (csv_record r) = (b', w')" by fastforce
  note g = write_good [OF assms bw]
  with bw have "csv_Write put b w r = (b', w', None)" by (simp add: csv_Write_def)
  with g csv_Write_out [OF this] show ?thesis using that by blast
qed

lemma csv_Flush_good:
  assumes "good w" and "bw_err b = None"
  obtains b' w' where "csv_Flush put b w = (b', w', None)" "out w' = out w @ bw_buf b"
proof -
  obtain b' w' where bf: "bw_flush put b w = (b', w')" by fastforce
  note g = flush_good [OF assms bf]
  with bf have "csv_Flush put b w = (b', w', None)" by (simp add: csv_Flush_def)
  with csv_Flush_out [OF this] show ?thesis using that by blast
qed

end

text \<open>The response of a living client whose header was sent with a status that allows a body.\<close>

definition streaming :: "writer \<Rightarrow> bool" where
  "streaming w \<longleftrightarrow> rs_alive (w_resp w) \<and> (case w_status w of None \<Rightarrow> False | Some c \<Rightarrow> body_allowed c)"

lemma streaming_put:
  assumes "streaming w" and "w_write w s = (w', n, err)"
  shows "err = None \<and> n = length s \<and> streaming w'"
proof -
  obtain c where c: "w_status w = Some c" "body_allowed c" "rs_alive (w_resp w)"
    using assms(1) by (auto simp: streaming_def split: option.splits)
  obtain r' where r: "rs_write (w_resp w) s = (r', length s, None)" "rs_status r' = Some c" "rs_alive r'"
    using c by (cases "s = []") (auto simp: rs_write_def Let_def)
  have "w_resp w' = r' \<and> n = length s \<and> err = None"
    using assms(2) r(1) by (cases w) (auto simp: ww_write_def split: prod.splits)
  with r c show ?thesis by (simp add: streaming_def)
qed

interpretation http_reliable: reliable_sink w_write "\<lambda>w. rs_body (w_resp w)" streaming
  by unfold_locales (rule streaming_put)

subsection \<open>Rows\<close>

text \<open>The values a driver delivers for a column of a type, as far as the CSV converters look at them.\<close>

definition csv_value_ok :: "coltype \<Rightarrow> goval \<Rightarrow> bool" where
  "csv_value_ok t v \<longleftrightarrow> v = GNil \<or>
     (if ct_DatabaseTypeName t \<in> {''DATE'', ''TIME'', ''TIMESTAMP''} then \<exists>c. v = GTime c
      else if ct_DatabaseTypeName t = ''BLOB'' then \<exists>bs. v = GBytes bs
      else True)"

text \<open>The text of a cell.\<close>

definition cell :: "(goval \<Rightarrow> gostr) \<Rightarrow> gostr \<Rightarrow> coltype \<Rightarrow> goval \<Rightarrow> gostr" where
  "cell sp nullStr t v =
     (if v = GNil then nullStr
      else (case convert sp (converter_of (ct_DatabaseTypeName t)) v of None \<Rightarrow> [] | Some s \<Rightarrow> s))"

lemma convert_ok:
  assumes "csv_value_ok t v" and "v \<noteq> GNil"
  shows "convert sp (converter_of (ct_DatabaseTypeName t)) v = Some (cell sp n t v)"
proof -
  have "convert sp (converter_of (ct_DatabaseTypeName t)) v \<noteq> None"
    using assms
    by (cases v) (auto simp: csv_value_ok_def converter_of_def DateToStr_def TimeToStr_def TimestampToStr_def
        BlobToStr_def IntervalToStr_def AnyToStr_def Let_def split: if_splits)
  then show ?thesis using assms(2) by (auto simp: cell_def)
qed

lemma csv_row_ok:
  "list_all2 csv_value_ok ts vs \<Longrightarrow>
   csv_row sp n (map (\<lambda>t. converter_of (ct_DatabaseTypeName t)) ts) vs = (map2 (cell sp n) ts vs, False)"
proof (induction ts vs rule: list_all2_induct)
  case Nil
  then show ?case by simp
next
  case (Cons t ts v vs)
  have "(if v = GNil then Some n else convert sp (converter_of (ct_DatabaseTypeName t)) v) = Some (cell sp n t v)"
    using convert_ok [OF Cons.hyps(1)] by (simp add: cell_def)
  then show ?case using Cons.IH by simp
qed

definition csv_ready :: "csv_writer \<Rightarrow> coltype list \<Rightarrow> bool" where
  "csv_ready cw ts \<longleftrightarrow> bw_err (csv_w cw) = None \<and> map_option length (csv_records cw) = Some (length ts) \<and>
     csv_converters cw = map (\<lambda>t. converter_of (ct_DatabaseTypeName t)) ts"

text \<open>Rows of the right types on any reliable sink.\<close>

context reliable_sink
begin

lemma csv_body_ready:
  assumes "good w" and "csv_ready cw ts" and "list_all2 csv_value_ok ts vs"
  obtains cw' w' where "csv_WriteBody sp put cw w vs = (cw', w', None)" "good w'" "csv_ready cw' ts"
    "csv_nullStr cw' = csv_nullStr cw"
    "out w' @ bw_buf (csv_w cw') =
       out w @ bw_buf (csv_w cw) @ csv_record (map2 (cell sp (csv_nullStr cw)) ts vs)"
proof -
  obtain rs where rs: "csv_records cw = Some rs" "length rs = length ts"
    using assms(2) by (auto simp: csv_ready_def)
  have len: "length vs = length ts" using assms(3) by (simp add: list_all2_lengthD)
  let ?row = "map2 (cell sp (csv_nullStr cw)) ts vs"
  have row: "csv_row sp (csv_nullStr cw) (csv_converters cw) vs = (?row, False)"
    using assms(2) csv_row_ok [OF assms(3)] by (simp add: csv_ready_def)
  have full: "?row @ drop (length ?row) rs = ?row" using rs len by simp
  obtain b' w' where wr: "csv_Write put (csv_w cw) w ?row = (b', w', None)" "good w'" "bw_err b' = None"
    "out w' @ bw_buf b' = out w @ bw_buf (csv_w cw) @ csv_record ?row"
    using csv_Write_good [OF assms(1)] assms(2) unfolding csv_ready_def by metis
  show ?thesis
  proof (rule that)
    show "csv_WriteBody sp put cw w vs = (cw\<lparr>csv_records := Some ?row, csv_w := b'\<rparr>, w', None)"
      using rs len wr(1) unfolding csv_WriteBody_def by (simp add: row full io_result_def)
  qed (use wr assms(2) len in \<open>simp_all add: csv_ready_def\<close>)
qed

lemma csv_rows_loop:
  assumes "fa_put api = put" and "ctx_err = (\<lambda>k. None)"
  shows "good w \<Longrightarrow> csv_ready cw ts \<Longrightarrow> list_all (list_all2 csv_value_ok ts) vss \<Longrightarrow>
    \<exists>fw' w'. rows_loop api ctx_err k (CsvWriter cw) w (map Inr vss) = (fw', w', None) \<and>
      out w' = out w @ bw_buf (csv_w cw) @
        concat (map csv_record (map (map2 (cell (fa_sprint api) (csv_nullStr cw)) ts) vss))"
proof (induction vss arbitrary: k cw w)
  case Nil
  have "bw_err (csv_w cw) = None" using Nil.prems(2) by (simp add: csv_ready_def)
  then obtain b' w' where f: "csv_Flush put (csv_w cw) w = (b', w', None)"
    "out w' = out w @ bw_buf (csv_w cw)"
    using csv_Flush_good [OF Nil.prems(1)] by metis
  then show ?case by (simp add: assms(1) csv_Flush_writer_def io_result_def)
next
  case (Cons vs vss)
  from Cons.prems(3) have v: "list_all2 csv_value_ok ts vs" "list_all (list_all2 csv_value_ok ts) vss" by simp_all
  obtain cw1 w1 where b: "csv_WriteBody (fa_sprint api) put cw w vs = (cw1, w1, None)" "good w1" "csv_ready cw1 ts"
    "csv_nullStr cw1 = csv_nullStr cw"
    "out w1 @ bw_buf (csv_w cw1) =
       out w @ bw_buf (csv_w cw) @ csv_record (map2 (cell (fa_sprint api) (csv_nullStr cw)) ts vs)"
    by (rule csv_body_ready [OF Cons.prems(1,2) v(1)])
  have step: "rows_loop api ctx_err k (CsvWriter cw) w (map Inr (vs # vss)) =
      rows_loop api ctx_err (Suc k) (CsvWriter cw1) w1 (map Inr vss)"
    using b(1) by (simp add: assms)
  obtain fw' w' where r: "rows_loop api ctx_err (Suc k) (CsvWriter cw1) w1 (map Inr vss) = (fw', w', None)"
    "out w' = out w1 @ bw_buf (csv_w cw1) @
        concat (map csv_record (map (map2 (cell (fa_sprint api) (csv_nullStr cw)) ts) vss))"
    using Cons.IH [OF b(2,3) v(2)] b(4) by metis
  have "out w' = out w @ bw_buf (csv_w cw) @
      concat (map csv_record (map (map2 (cell (fa_sprint api) (csv_nullStr cw)) ts) (vs # vss)))"
    using r(2) b(5) by (simp flip: append_assoc)
  with step r(1) show ?case by metis
qed

lemma csv_writeRows:
  assumes "fa_put api = put" and "ctx_err = (\<lambda>k. None)"
    and "good w" and "rw_types rows = Inr ts" and "rw_rows rows = map Inr vss"
    and "list_all (list_all2 csv_value_ok ts) vss"
  shows "\<exists>fw' w'. writeRows api ctx_err (CsvWriter (csv_Create ps)) w rows = (fw', w', None) \<and>
    out w' = out w @ concat (map csv_record
      (map ct_Name ts # map (map2 (cell (fa_sprint api) (csv_nullStr (csv_Create ps))) ts) vss))"
proof -
  let ?cw = "csv_Create ps"
  have e: "bw_err (csv_w ?cw) = None" "bw_buf (csv_w ?cw) = []" by (simp_all add: csv_Create_def bw_new_def)
  obtain b1 w1 where wr: "csv_Write put (csv_w ?cw) w (map ct_Name ts) = (b1, w1, None)" "good w1"
    "bw_err b1 = None"
    "out w1 @ bw_buf b1 = out w @ bw_buf (csv_w ?cw) @ csv_record (map ct_Name ts)"
    by (rule csv_Write_good [OF assms(3) e(1)])
  let ?cw1 = "?cw\<lparr>csv_w := b1, csv_records := Some (map ct_Name ts),
    csv_converters := map (\<lambda>t. converter_of (ct_DatabaseTypeName t)) ts\<rparr>"
  have h: "csv_WriteHeader put ?cw w ts = (?cw1, w1, None)"
    using wr(1) by (simp add: csv_WriteHeader_def io_result_def)
  have ready: "csv_ready ?cw1 ts" using wr(3) by (simp add: csv_ready_def)
  obtain fw' w' where r: "rows_loop api ctx_err 2 (CsvWriter ?cw1) w1 (map Inr vss) = (fw', w', None)"
    "out w' = out w1 @ bw_buf (csv_w ?cw1) @
      concat (map csv_record (map (map2 (cell (fa_sprint api) (csv_nullStr ?cw1)) ts) vss))"
    using csv_rows_loop [OF assms(1,2) wr(2) ready assms(6), of 2] by blast
  have "writeRows api ctx_err (CsvWriter ?cw) w rows = (fw', w', None)"
    using h r(1) by (simp add: writeRows_def assms(1,2,4,5))
  moreover have "out w' = out w @ concat (map csv_record
      (map ct_Name ts # map (map2 (cell (fa_sprint api) (csv_nullStr ?cw)) ts) vss))"
    using r(2) wr(4) e(2) by (simp flip: append_assoc)
  ultimately show ?thesis by blast
qed

text \<open>
  With values of the types the driver declares and a query that is not cancelled, \<open>writeRows\<close> succeeds
  with the CSV writer, and what it adds to the body reads back as the column names and the rows. The
  error with which the driver ended the iteration plays no part: \<open>rows.Err\<close> is not asked.
\<close>

lemma csv_response_complete:
  assumes "fa_put api = put" and "ctx_err = (\<lambda>k. None)"
    and "good w" and "ts \<noteq> []" and "list_all (list_all2 csv_value_ok ts) vss"
  shows "\<exists>fw' w' body.
    writeRows api ctx_err (CsvWriter (csv_Create ps)) w
      \<lparr>rw_types = Inr ts, rw_rows = map Inr vss, rw_err = broken\<rparr> = (fw', w', None) \<and>
    out w' = out w @ body \<and>
    parse_csv body = Some (map ct_Name ts # map (map2 (cell (fa_sprint api) (param_Get ps ''null'' ''NULL'')) ts) vss)"
proof -
  have null: "csv_nullStr (csv_Create ps) = param_Get ps ''null'' ''NULL''"
    by (simp add: csv_Create_def param_Get_def)
  let ?recs = "map ct_Name ts # map (map2 (cell (fa_sprint api) (param_Get ps ''null'' ''NULL'')) ts) vss"
  have "list_all (\<lambda>r. r \<noteq> []) ?recs"
  proof -
    have "map2 f ts vs \<noteq> []" if "vs \<in> set vss" for vs f
    proof -
      have "list_all2 csv_value_ok ts vs" using assms(5) that by (simp add: list_all_iff)
      then have "length ts = length vs" by (rule list_all2_lengthD)
      with assms(4) show ?thesis by (cases ts; cases vs) auto
    qed
    then show ?thesis using assms(4) by (auto simp: list_all_iff)
  qed
  then have "parse_csv (concat (map csv_record ?recs)) = Some ?recs" by (rule parse_csv_records)
  moreover obtain fw' w' where "writeRows api ctx_err (CsvWriter (csv_Create ps)) w
      \<lparr>rw_types = Inr ts, rw_rows = map Inr vss, rw_err = broken\<rparr> = (fw', w', None)"
    "out w' = out w @ concat (map csv_record ?recs)"
    using csv_writeRows [OF assms(1-3), where rows = "\<lparr>rw_types = Inr ts, rw_rows = map Inr vss, rw_err = broken\<rparr>"
        and ts = ts and vss = vss and ps = ps] assms(5) unfolding null by auto
  ultimately show ?thesis by blast
qed

end

definition demo_fmt_api :: "(gostr, unit, nat, unit, writer) fmt_api" where
  "demo_fmt_api = \<lparr>fa_put = w_write, fa_sprint = (\<lambda>v. case v of GStr s \<Rightarrow> s | _ \<Rightarrow> []),
     fa_avro = \<lparr>av_union = (\<lambda>t. None), av_field = (\<lambda>n t. Inr n), av_field_name = id,
       av_record = (\<lambda>n ns fs. Inr ()), av_encoder = (\<lambda>r w. (w, Inr 0)),
       av_encode = (\<lambda>k m w. (w, Suc k, None)), av_close = (\<lambda>k w. (w, k, None))\<rparr>,
     fa_table = \<lparr>tw_new = (\<lambda>s. ()), tw_header = (\<lambda>t ns. t), tw_append = (\<lambda>t vs. (t, None)),
       tw_render = (\<lambda>t w. (t, w, None))\<rparr>\<rparr>"

text \<open>
  C16. A result in CSV loses nothing. When the values are of the types of their columns, \<open>writeRows\<close> with
  the CSV writer succeeds, and what it has sent parses back to the names of the columns and one record per
  row with the text of every value, NULL as the text of the parameter \<open>null\<close>: separators, quotes, line
  breaks and leading blanks in names and values come through.
\<close>

theorem csv_round_trip:
  assumes "fa_put api = w_write" and "ctx_err = (\<lambda>k. None)"
    and "streaming w" and "ts \<noteq> []" and "list_all (list_all2 csv_value_ok ts) vss"
  shows "\<exists>fw' w' body.
    writeRows api ctx_err (CsvWriter (csv_Create ps)) w
      \<lparr>rw_types = Inr ts, rw_rows = map Inr vss, rw_err = broken\<rparr> = (fw', w', None) \<and>
    rs_body (w_resp w') = rs_body (w_resp w) @ body \<and>
    parse_csv body = Some (map ct_Name ts # map (map2 (cell (fa_sprint api) (param_Get ps ''null'' ''NULL'')) ts) vss)"
  using assms by (rule http_reliable.csv_response_complete)

theorem csv_round_trip_witness:
  "\<exists>fw' w'. writeRows demo_fmt_api (\<lambda>k. None) (CsvWriter (csv_Create [''null'' \<mapsto> ''-''])) (w_write_header (Plain new_response) 200)
      \<lparr>rw_types = Inr [\<lparr>ct_Name = ''a b'', ct_DatabaseTypeName = ''VARCHAR''\<rparr>, \<lparr>ct_Name = ''c,'', ct_DatabaseTypeName = ''BLOB''\<rparr>],
        rw_rows = map Inr [[GStr [CHR 0x22, CHR 0x0A], GNil]], rw_err = None\<rparr> = (fw', w', None) \<and>
    parse_csv (rs_body (w_resp w')) = Some [[''a b'', ''c,''], [[CHR 0x22, CHR 0x0A], ''-'']]"
proof -
  let ?ts = "[\<lparr>ct_Name = ''a b'', ct_DatabaseTypeName = ''VARCHAR''\<rparr>, \<lparr>ct_Name = ''c,'', ct_DatabaseTypeName = ''BLOB''\<rparr>]"
  have a: "fa_put demo_fmt_api = w_write" "streaming (w_write_header (Plain new_response) 200)"
    "list_all (list_all2 csv_value_ok ?ts) [[GStr [CHR 0x22, CHR 0x0A], GNil]]" "?ts \<noteq> []"
    by (simp_all add: demo_fmt_api_def streaming_def new_response_def rs_write_header_def informational_def body_allowed_def csv_value_ok_def)
  have c: "cell (fa_sprint demo_fmt_api) n \<lparr>ct_Name = ''a b'', ct_DatabaseTypeName = ''VARCHAR''\<rparr> (GStr s) = s" for n s
    by (simp add: cell_def demo_fmt_api_def converter_of_def AnyToStr_def go_sprint_def)
  have n: "cell sp n t GNil = n" for sp n t by (simp add: cell_def)
  have b: "rs_body (w_resp (w_write_header (Plain new_response) 200)) = []" by (simp add: new_response_def rs_write_header_def informational_def)
  have p: "param_Get [''null'' \<mapsto> ''-''] ''null'' ''NULL'' = ''-''" by (simp add: param_Get_def)
  obtain fw' w' body where w: "writeRows demo_fmt_api (\<lambda>k. None) (CsvWriter (csv_Create [''null'' \<mapsto> ''-''])) (w_write_header (Plain new_response) 200)
      \<lparr>rw_types = Inr ?ts, rw_rows = map Inr [[GStr [CHR 0x22, CHR 0x0A], GNil]], rw_err = None\<rparr> = (fw', w', None)"
    "rs_body (w_resp w') = body" "parse_csv body = Some [[''a b'', ''c,''], [[CHR 0x22, CHR 0x0A], ''-'']]"
    using csv_round_trip [OF a(1) refl a(2,4,3), of "[''null'' \<mapsto> ''-'']" None] unfolding p b
    by (auto simp: c n)
  then show ?thesis by blast
qed

end
