(* ===== verification/Fileserver_Props.thy ===== *)
theory Fileserver_Props
  imports Fileserver
begin

section \<open>What the file server guarantees\<close>

text \<open>
  The properties of \<open>internal/fileserver/listdir.go\<close>: requests are confined to the root directory,
  listings show every visible entry once and in order, sizes are printed with a fitting unit, and what
  the redirects to directories and index pages lead to.
\<close>

subsection \<open>Confinement\<close>

text \<open>A path under the root: the root itself, or plain elements below it.\<close>

definition under :: "gostr \<Rightarrow> gostr \<Rightarrow> bool" where
  "under root p \<longleftrightarrow> (\<exists>cs. list_all plain_elem cs \<and> p = path_Clean root @ concat (map (Cons CHR ''/'') cs))"

lemma orig_path_rooted: "is_rooted (orig_path p)"
  by (auto simp: orig_path_def is_rooted_def)

lemma path_Clean_orig: "path_Clean (orig_path p) = path_str True (clean_comps (orig_path p))"
  by (simp add: path_Clean_def orig_path_rooted)

lemma orig_comps_plain: "list_all plain_elem (clean_comps (orig_path p))"
  by (rule clean_comps_rooted [OF orig_path_rooted])

lemma abs_path_eq:
  assumes "root \<noteq> []" and "clean_comps root \<noteq> []"
  shows "abs_path root p = path_Clean root @ concat (map (Cons CHR ''/'') (clean_comps (orig_path p)))"
proof -
  have "abs_path root p = path_str (is_rooted root) (clean_comps root @ clean_comps (orig_path p))"
    unfolding abs_path_def path_Clean_orig trim_slash_path
    by (rule filepath_Join_plain [OF assms(1) orig_comps_plain])
  then show ?thesis using assms(2) by (simp add: path_str_append path_Clean_def)
qed

lemma abs_path_under:
  "root \<noteq> [] \<Longrightarrow> clean_comps root \<noteq> [] \<Longrightarrow> under root (abs_path root p)"
  unfolding under_def using abs_path_eq orig_comps_plain by blast

lemma under_allowed:
  assumes "under root p" shows "\<not> (p \<noteq> path_Clean root \<and> \<not> has_prefix p (path_Clean root @ ''/''))"
proof -
  obtain cs where p: "p = path_Clean root @ concat (map (Cons CHR ''/'') cs)"
    using assms by (auto simp: under_def)
  show ?thesis
  proof (cases cs)
    case Nil
    then show ?thesis by (simp add: p)
  next
    case (Cons c cs')
    then have "p = (path_Clean root @ ''/'') @ c @ concat (map (Cons CHR ''/'') cs')" by (simp add: p)
    then show ?thesis using has_prefix_append by metis
  qed
qed

text \<open>What the handler does for a path under the root, without the check that never fails.\<close>

lemma listDir_eq:
  assumes "root \<noteq> []" and "clean_comps root \<noteq> []"
  shows "listDir_ServeHTTP rel fs srt tmpl root w r =
     (case fs_stat fs (abs_path root (rq_path r)) of
        None \<Rightarrow> http_NotFound w
      | Some False \<Rightarrow> http_ServeFile (fs_serve fs) w r (abs_path root (rq_path r))
      | Some True \<Rightarrow>
          (if \<not> has_suffix (orig_path (rq_path r)) ''/'' then
             http_Redirect rel w r
               (path_Base (path_Clean (orig_path (rq_path r))) @ ''/'' @
                (if rq_raw_query r = [] then [] else ''?'' @ rq_raw_query r)) 301
           else serveDirList fs srt tmpl w (path_Clean (orig_path (rq_path r))) (abs_path root (rq_path r))))"
  using under_allowed [OF abs_path_under [OF assms, of "rq_path r"]]
  by (auto simp: listDir_ServeHTTP_def Let_def split: option.split)

definition same_under :: "gostr \<Rightarrow> 'e fsys \<Rightarrow> 'e fsys \<Rightarrow> bool" where
  "same_under root fs fs' \<longleftrightarrow> (\<forall>p. under root p \<longrightarrow>
     fs_stat fs p = fs_stat fs' p \<and> fs_readdir fs p = fs_readdir fs' p \<and> fs_serve fs p = fs_serve fs' p)"

text \<open>
  C19. Nothing outside the root can be read. For any request path, dots, doubled slashes and all, the
  response depends on the file system only through paths made of the root and plain elements below
  it: if two file systems agree there, the responses are the same.
\<close>

theorem listing_confined:
  assumes "root \<noteq> []" and "clean_comps root \<noteq> []" and "same_under root fs fs'"
  shows "listDir_ServeHTTP rel fs srt tmpl root w r = listDir_ServeHTTP rel fs' srt tmpl root w r"
proof -
  let ?p = "abs_path root (rq_path r)"
  have "under root ?p" using assms(1,2) by (rule abs_path_under)
  with assms(3) have eqs: "fs_stat fs ?p = fs_stat fs' ?p" "fs_readdir fs ?p = fs_readdir fs' ?p"
    "fs_serve fs ?p = fs_serve fs' ?p" by (auto simp: same_under_def)
  have "serveDirList fs srt tmpl w u ?p = serveDirList fs' srt tmpl w u ?p" for u
    by (simp add: serveDirList_def eqs)
  moreover have "http_ServeFile (fs_serve fs) w r ?p = http_ServeFile (fs_serve fs') w r ?p"
    by (simp add: http_ServeFile_def eqs)
  ultimately show ?thesis by (simp add: listDir_eq [OF assms(1,2)] eqs(1) split: option.split bool.split)
qed

definition demo_request :: "gostr \<Rightarrow> gostr \<Rightarrow> 'e request" where
  "demo_request m p = \<lparr>rq_method = m, rq_path = p, rq_raw_query = [], rq_uri = p, rq_query = [],
     rq_proto = ''HTTP/1.1'', rq_remote = ''127.0.0.1:9'', rq_header = [], rq_body = [], rq_body_err = None,
     rq_ctx = background\<rparr>"

text \<open>A file system in which only one path outside the root exists.\<close>

definition secret_fs :: "'e fsys" where
  "secret_fs = \<lparr>fs_stat = (\<lambda>p. if p = ''/etc/passwd'' then Some False else None), fs_readdir = (\<lambda>p. None),
     fs_serve = (\<lambda>p w r. fst (w_write w ''secret''))\<rparr>"

definition no_fs :: "'e fsys" where
  "no_fs = secret_fs\<lparr>fs_stat := (\<lambda>p. None)\<rparr>"

text \<open>A template that writes nothing.\<close>

definition no_template :: dir_template where
  "no_template = (\<lambda>p is. ([], False))"

theorem listing_confined_witness:
  "listDir_ServeHTTP (\<lambda>u. True) secret_fs id no_template ''/h/shared'' (Plain new_response) (demo_request ''GET'' ''../../etc/passwd'' :: unit request) =
   listDir_ServeHTTP (\<lambda>u. True) no_fs id no_template ''/h/shared'' (Plain new_response) (demo_request ''GET'' ''../../etc/passwd'' :: unit request)"
proof (rule listing_confined)
  have root: "clean_comps ''/h/shared'' = [''h'', ''shared'']" "path_Clean ''/h/shared'' = ''/h/shared''" by code_simp+
  then show "clean_comps ''/h/shared'' \<noteq> []" by simp
  show "same_under ''/h/shared'' secret_fs (no_fs :: unit fsys)"
  proof -
    have "p \<noteq> ''/etc/passwd''" if "under ''/h/shared'' p" for p
      using that by (auto simp: under_def root)
    then show ?thesis by (simp add: same_under_def secret_fs_def no_fs_def)
  qed
qed simp

subsection \<open>Listings\<close>

definition visible :: "dirent \<Rightarrow> bool" where
  "visible e \<longleftrightarrow> \<not> has_prefix (de_name e) ''.''"

definition shown_name :: "dirent \<Rightarrow> gostr" where
  "shown_name e = (if de_dir e then de_name e @ ''/'' else de_name e)"

lemma dir_items_names: "map di_Name (dir_items es) = map shown_name (filter visible es)"
  by (induction es) (simp_all add: visible_def shown_name_def Let_def)

lemma not_dir_less:
  "\<not> dir_less ul b a \<longleftrightarrow> (de_dir b \<longrightarrow> de_dir a) \<and>
     (de_dir a = de_dir b \<longrightarrow> to_lower ul (de_name a) \<le> to_lower ul (de_name b))"
  by (auto simp: dir_less_def not_less)

text \<open>
  C29. Listings are complete. Whatever order \<open>sort.Slice\<close> leaves equal names in, the listing shows the
  parent link (except at the root) and then every entry whose name does not begin with a dot exactly
  once, a directory with a slash. No file comes before a directory, and among the directories and among
  the files the names, in lower case, are in ascending order.
\<close>

theorem listing_complete:
  assumes "slice_sort (dir_less ul) srt"
  shows "\<exists>es. map di_Name (list_items upath (srt entries)) =
      (if upath = ''/'' then [] else [''../'']) @ map shown_name es \<and>
    mset es = mset (filter visible entries) \<and>
    (\<forall>i j. i < j \<longrightarrow> j < length es \<longrightarrow> (de_dir (es ! j) \<longrightarrow> de_dir (es ! i)) \<and>
       (de_dir (es ! i) = de_dir (es ! j) \<longrightarrow> to_lower ul (de_name (es ! i)) \<le> to_lower ul (de_name (es ! j))))"
proof (intro exI conjI)
  show "map di_Name (list_items upath (srt entries)) =
      (if upath = ''/'' then [] else [''../'']) @ map shown_name (filter visible (srt entries))"
    by (simp add: list_items_def dir_items_names)
  show "mset (filter visible (srt entries)) = mset (filter visible entries)"
    using assms by (rule slice_sort.srt_count)
  have "sorted_wrt (\<lambda>a b. \<not> dir_less ul b a) (filter visible (srt entries))"
    using assms by (rule slice_sort.srt_filter_sorted)
  then show "\<forall>i j. i < j \<longrightarrow> j < length (filter visible (srt entries)) \<longrightarrow>
      (de_dir (filter visible (srt entries) ! j) \<longrightarrow> de_dir (filter visible (srt entries) ! i)) \<and>
      (de_dir (filter visible (srt entries) ! i) = de_dir (filter visible (srt entries) ! j) \<longrightarrow>
        to_lower ul (de_name (filter visible (srt entries) ! i)) \<le> to_lower ul (de_name (filter visible (srt entries) ! j)))"
    unfolding sorted_wrt_iff_nth_less not_dir_less by blast
qed

theorem listing_complete_witness:
  "\<exists>es. map di_Name (list_items ''/sub'' (sort_by_key id [\<lparr>de_name = ''b'', de_dir = False, de_info = None\<rparr>,
        \<lparr>de_name = ''z'', de_dir = True, de_info = None\<rparr>])) = [''../''] @ map shown_name es \<and>
     length es = 2 \<and> de_dir (es ! 0)"
proof -
  let ?b = "\<lparr>de_name = ''b'', de_dir = False, de_info = None\<rparr>" and ?z = "\<lparr>de_name = ''z'', de_dir = True, de_info = None\<rparr>"
  from listing_complete [OF dir_sort.slice_sort_axioms, of "''/sub''" id "[?b, ?z]"]
  obtain es where es: "map di_Name (list_items ''/sub'' (sort_by_key id [?b, ?z])) = [''../''] @ map shown_name es"
    "mset es = mset (filter visible [?b, ?z])"
    "\<forall>i j. i < j \<longrightarrow> j < length es \<longrightarrow> (de_dir (es ! j) \<longrightarrow> de_dir (es ! i))" by auto
  have m: "mset es = {#?b, ?z#}" using es(2) by (simp add: visible_def)
  then have len: "length es = 2" using size_mset [of es] by simp
  have "de_dir (es ! 0)"
  proof (rule ccontr)
    assume n: "\<not> de_dir (es ! 0)"
    with es(3) len have "\<not> de_dir (es ! i)" if "i < 2" for i using that by (cases "i = 0") auto
    then have "\<forall>e \<in> set es. \<not> de_dir e" using len by (auto simp: in_set_conv_nth)
    moreover have "?z \<in> set es" using m by (metis insert_iff set_mset_add_mset_insert set_mset_mset)
    ultimately show False by auto
  qed
  with es(1) len show ?thesis by blast
qed

subsection \<open>Sizes\<close>

lemma size_loop_spec:
  "d = 1024 ^ Suc e \<Longrightarrow> e \<le> 3 \<Longrightarrow> d \<le> n \<Longrightarrow> size_loop n d e = (d', e') \<Longrightarrow>
   d' = 1024 ^ Suc e' \<and> e' \<le> 3 \<and> d' \<le> n \<and> (e' < 3 \<longrightarrow> n < d' * 1024)"
proof (induction n d e rule: size_loop.induct)
  case (1 n d e)
  show ?case
  proof (cases "d * 1024 \<le> n \<and> e < 3")
    case True
    then have "size_loop n (d * 1024) (Suc e) = (d', e')" using "1.prems"(4) by (simp add: size_loop.simps [of n d e])
    moreover have "d * 1024 = 1024 ^ Suc (Suc e)" using "1.prems"(1) by simp
    ultimately show ?thesis using True by (intro "1.IH") simp_all
  next
    case False
    then have "d' = d" "e' = e" using "1.prems"(4) by (simp_all add: size_loop.simps [of n d e] split: if_splits)
    with False "1.prems" show ?thesis by auto
  qed
qed

text \<open>
  Sizes are printed with the unit that fits. Below 1024 bytes the number itself is printed; from
  there on the number of whole units with the letter of a power of 1024, and the number is at least 1
  and below 1024, unless the unit is already the largest.
\<close>

lemma formatSize_spec:
  "(sint n < 1024 \<longrightarrow> formatSize n = int_dec (sint n)) \<and>
   (1024 \<le> sint n \<longrightarrow> (\<exists>k q. k < 4 \<and> q = sint n div 1024 ^ Suc k \<and> 1 \<le> q \<and> (k < 3 \<longrightarrow> q < 1024) \<and>
      formatSize n = int_dec q @ [''KMGT'' ! k]))"
proof (intro conjI impI)
  assume ge: "1024 \<le> sint n"
  obtain d k where l: "size_loop (sint n) 1024 0 = (d, k)" by fastforce
  have "d = 1024 ^ Suc k \<and> k \<le> 3 \<and> d \<le> sint n \<and> (k < 3 \<longrightarrow> sint n < d * 1024)"
    by (rule size_loop_spec [of 1024 0]) (use ge l in simp_all)
  then have s: "d = 1024 ^ Suc k" "k \<le> 3" "d \<le> sint n" "k < 3 \<longrightarrow> sint n < d * 1024"
    by blast+
  have "0 < d" by (simp add: s(1))
  then have "0 < sint n div d" using s(3) by (simp add: pos_imp_zdiv_pos_iff)
  then have "1 \<le> sint n div d" by linarith
  moreover have "k < 3 \<longrightarrow> sint n div d < 1024"
    using s(4) int_div_lt [OF \<open>0 < d\<close>, of "sint n" 1024] by simp
  moreover have "formatSize n = int_dec (sint n div d) @ [''KMGT'' ! k]"
    using ge l by (simp add: formatSize_def Let_def)
  ultimately show "\<exists>k q. k < 4 \<and> q = sint n div 1024 ^ Suc k \<and> 1 \<le> q \<and> (k < 3 \<longrightarrow> q < 1024) \<and>
      formatSize n = int_dec q @ [''KMGT'' ! k]"
    using s(1,2) by (intro exI [of _ k] exI [of _ "sint n div d"]) simp
qed (simp add: formatSize_def)

subsection \<open>Redirects\<close>

lemma join_butlast:
  "cs \<noteq> [] \<Longrightarrow> join_with ''/'' cs = (if butlast cs = [] then [] else join_with ''/'' (butlast cs) @ ''/'') @ last cs"
proof -
  assume "cs \<noteq> []"
  then have cs: "cs = butlast cs @ [last cs]" by simp
  show ?thesis
  proof (cases "butlast cs = []")
    case True
    with cs have "cs = [last cs]" by simp
    then have "join_with ''/'' cs = last cs" by (metis join_with.simps(2))
    with True show ?thesis by simp
  next
    case False
    then have "join_with ''/'' (butlast cs @ [last cs]) = join_with ''/'' (butlast cs) @ ''/'' @ join_with ''/'' [last cs]"
      by (rule join_with_append) simp
    with cs False show ?thesis by simp
  qed
qed

lemma path_dir_slash: "CHR ''/'' \<notin> set b \<Longrightarrow> path_dir (a @ ''/'' @ b) = a @ ''/''"
proof -
  assume "CHR ''/'' \<notin> set b"
  then have "dropWhile (\<lambda>c. c \<noteq> CHR ''/'') (rev b @ CHR ''/'' # rev a) = CHR ''/'' # rev a"
    by (subst dropWhile_append2) auto
  then show ?thesis by (simp add: path_dir_def)
qed

lemma path_dir_none: "CHR ''/'' \<notin> set b \<Longrightarrow> path_dir b = []"
  by (simp add: path_dir_def dropWhile_eq_Nil_conv) (metis (mono_tags) set_rev)

lemma path_dir_join:
  assumes "cs \<noteq> []" and "list_all plain_elem cs"
  shows "path_dir (pre @ ''/'' @ join_with ''/'' cs) =
    pre @ ''/'' @ (if butlast cs = [] then [] else join_with ''/'' (butlast cs) @ ''/'')"
proof -
  have l: "CHR ''/'' \<notin> set (last cs)"
    using assms by (auto simp: list_all_iff plain_elem_def)
  show ?thesis
  proof (cases "butlast cs = []")
    case True
    then show ?thesis using path_dir_slash [OF l, of pre] join_butlast [OF assms(1)] by simp
  next
    case False
    then show ?thesis
      using path_dir_slash [OF l, of "pre @ ''/'' @ join_with ''/'' (butlast cs)"] join_butlast [OF assms(1)]
      by simp
  qed
qed

text \<open>A request for plain elements, as it is left by \<open>StripPrefix\<close>.\<close>

lemma join_head:
  assumes "cs \<noteq> []" and "list_all plain_elem cs"
  shows "\<not> has_prefix (join_with ''/'' cs) ''/'' \<and> join_with ''/'' cs \<noteq> []"
proof (cases cs)
  case (Cons c cs')
  with assms(2) obtain x xs where "c = x # xs" "x \<noteq> CHR ''/''"
    by (cases c) (auto simp: plain_elem_def)
  then show ?thesis by (simp add: Cons join_slash)
qed (use assms in simp)

lemma orig_join:
  assumes "cs \<noteq> []" and "list_all plain_elem cs"
  shows "orig_path (join_with ''/'' cs) = ''/'' @ join_with ''/'' cs"
    and "clean_comps (orig_path (join_with ''/'' cs)) = cs"
    and "path_Clean (orig_path (join_with ''/'' cs)) = ''/'' @ join_with ''/'' cs"
proof -
  show o: "orig_path (join_with ''/'' cs) = ''/'' @ join_with ''/'' cs"
    using join_head [OF assms] by (simp add: orig_path_def)
  have "path_elems (CHR ''/'' # join_with ''/'' cs) = cs"
    using path_elems_cat [of "[]" "join_with ''/'' cs"] by (simp add: path_elems_join assms(2)) (simp add: path_elems_def)
  then show c: "clean_comps (orig_path (join_with ''/'' cs)) = cs"
    using clean_elems_append_plain [OF assms(2), of True "[]" "[]"]
    by (simp add: o clean_comps_def is_rooted_def)
  show "path_Clean (orig_path (join_with ''/'' cs)) = ''/'' @ join_with ''/'' cs"
    unfolding path_Clean_orig c by (simp add: path_str_def)
qed

lemma last_elem_end:
  assumes "cs \<noteq> []" and "list_all plain_elem cs"
  shows "\<not> has_suffix (pre @ join_with ''/'' cs) ''/''"
proof
  assume "has_suffix (pre @ join_with ''/'' cs) ''/''"
  then obtain r where r: "pre @ join_with ''/'' cs = r @ ''/''" by (auto simp: has_suffix_iff)
  have l: "last cs \<noteq> []" "CHR ''/'' \<notin> set (last cs)"
    using assms by (auto simp: list_all_iff plain_elem_def)
  have "last (pre @ join_with ''/'' cs) = last (last cs)"
    unfolding join_butlast [OF assms(1)] using l(1) by simp
  with r l show False by (metis last_in_set last_snoc)
qed

lemma path_Base_join:
  assumes "cs \<noteq> []" and "list_all plain_elem cs"
  shows "path_Base (''/'' @ join_with ''/'' cs) = last cs"
proof -
  let ?p = "''/'' @ join_with ''/'' cs"
  have ne: "\<not> has_suffix ?p ''/''" using last_elem_end [OF assms, of "''/''"] by simp
  have rv: "rev ?p \<noteq> []" by simp
  have "hd (rev ?p) \<noteq> CHR ''/''"
  proof
    assume "hd (rev ?p) = CHR ''/''"
    with rv obtain t where "rev ?p = CHR ''/'' # t" by (metis list.collapse)
    then have "?p = rev t @ ''/''" by (metis rev.simps(2) rev_rev_ident)
    with ne show False by (auto simp: has_suffix_iff)
  qed
  moreover obtain x t where x: "rev ?p = x # t" using rv by (cases "rev ?p") simp_all
  ultimately have dw: "dropWhile (\<lambda>c. c = CHR ''/'') (rev ?p) = rev ?p" by simp
  have "path_Base ?p = last (split_chr CHR ''/'' ?p)"
    unfolding path_Base_def Let_def dw rev_rev_ident by simp
  moreover have "split_chr CHR ''/'' ?p = [] # cs"
  proof -
    have "split_chr CHR ''/'' (join_with ''/'' cs) = cs"
      using assms by (intro split_chr_join) (auto simp: list_all_iff plain_elem_def)
    then show ?thesis by simp
  qed
  ultimately show ?thesis using assms(1) by simp
qed

lemma path_Clean_join_slash:
  assumes "cs \<noteq> []" and "list_all plain_elem cs"
  shows "path_Clean (join_with ''/'' cs @ ''/'') = join_with ''/'' cs"
proof -
  have nr: "\<not> is_rooted (join_with ''/'' cs @ ''/'')"
    using join_head [OF assms] by (cases "join_with ''/'' cs") (auto simp: is_rooted_def)
  have "path_elems (join_with ''/'' cs @ ''/'') = cs"
    using path_elems_cat [of "join_with ''/'' cs" "[]"] by (simp add: path_elems_join assms(2)) (simp add: path_elems_def)
  then have "clean_comps (join_with ''/'' cs @ ''/'') = cs"
    using clean_elems_append_plain [OF assms(2), of False "[]" "[]"] nr by (simp add: clean_comps_def)
  with nr assms(1) show ?thesis by (simp add: path_Clean_def path_str_def)
qed

lemma redirect_target_eq:
  assumes "rel url" and "\<not> has_prefix url ''/''" and "rp \<noteq> []" and "path_dir rp @ url = full @ qs"
    and "CHR ''?'' \<notin> set full" and "qs = [] \<or> hd qs = CHR ''?''"
  shows "redirect_target rel rp url =
    (if has_suffix full ''/'' \<and> \<not> has_suffix (path_Clean full) ''/'' then path_Clean full @ ''/'' else path_Clean full) @ qs"
proof -
  have tw: "takeWhile (\<lambda>c. c \<noteq> CHR ''?'') (full @ qs) = full"
    using assms(5,6) by (subst takeWhile_append2) (cases qs; auto)+
  have dw: "dropWhile (\<lambda>c. c \<noteq> CHR ''?'') (full @ qs) = qs"
    using assms(5,6) by (subst dropWhile_append2) (cases qs; auto)+
  from assms(1-4) have u: "(if \<not> has_prefix url ''/'' then path_dir (if rp = [] then ''/'' else rp) @ url else url) = full @ qs"
    by simp
  show ?thesis
    unfolding redirect_target_def Let_def u tw dw using assms(1) by simp
qed

lemma redirect_target_dir:
  assumes cs: "cs \<noteq> []" "list_all plain_elem cs" and q: "CHR ''?'' \<notin> set (join_with ''/'' cs)"
    and rel: "rel (last cs @ ''/'' @ qs)" and qs: "qs = [] \<or> hd qs = CHR ''?''"
  shows "redirect_target rel (join_with ''/'' cs) (last cs @ ''/'' @ qs) = join_with ''/'' cs @ ''/'' @ qs"
proof -
  let ?p = "join_with ''/'' cs"
  have l: "last cs \<noteq> []" "CHR ''/'' \<notin> set (last cs)"
    using cs by (auto simp: list_all_iff plain_elem_def)
  have dir: "path_dir ?p @ last cs = ?p"
  proof (cases "butlast cs = []")
    case True
    then show ?thesis using path_dir_none [OF l(2)] join_butlast [OF cs(1)] by simp
  next
    case False
    then show ?thesis
      using path_dir_slash [OF l(2), of "join_with ''/'' (butlast cs)"] join_butlast [OF cs(1)] by simp
  qed
  have np: "\<not> has_prefix (last cs @ ''/'' @ qs) ''/''"
    using l by (cases "last cs") auto
  have url: "path_dir ?p @ last cs @ ''/'' @ qs = (?p @ ''/'') @ qs" using dir by (metis append_assoc)
  have suf: "has_suffix (?p @ ''/'') ''/''" "\<not> has_suffix ?p ''/''"
    using last_elem_end [OF cs, of "[]"] by (auto simp: has_suffix_iff)
  have ne: "?p \<noteq> []" using join_head [OF cs] by simp
  have "CHR ''?'' \<notin> set (?p @ ''/'')" using q by simp
  from redirect_target_eq [of rel, OF rel np ne url this qs] show ?thesis
    unfolding path_Clean_join_slash [OF cs] using suf by simp
qed

text \<open>How a client resolves a relative \<open>Location\<close> against the path it asked for.\<close>

definition resolve :: "gostr \<Rightarrow> gostr \<Rightarrow> gostr" where
  "resolve base loc = (if has_prefix loc ''/'' then loc else path_dir base @ loc)"

text \<open>
  C38. The redirect of a directory without its slash repeats the directories above it. The handler is mounted
  with \<open>StripPrefix\<close> and sees a path \<open>d1/.../dn\<close> without a leading slash; \<open>http.Redirect\<close> puts the directory of
  that path before the relative target, so that the location is the whole path with a slash and the query
  string, and a client, which resolves it against the path it asked for, goes to \<open>/shared/\<close> followed by
  \<open>d1/.../d(n-1)/\<close> and then \<open>d1/.../dn/\<close>. That is the directory asked for only when it is directly under the
  root, for \<open>n\<close> equal to 1. The names have no question mark, and the target parses as a relative URL.
\<close>

theorem directory_redirect:
  assumes "root \<noteq> []" and "clean_comps root \<noteq> []" and "cs \<noteq> []" and "list_all plain_elem cs"
    and "CHR ''?'' \<notin> set (join_with ''/'' cs)" and "rel (last cs @ ''/'' @ qs)"
    and "rq_path r = join_with ''/'' cs" and "qs = (if rq_raw_query r = [] then [] else ''?'' @ rq_raw_query r)"
    and "fs_stat fs (abs_path root (rq_path r)) = Some True" and "w_status w = None"
  shows "w_status (listDir_ServeHTTP rel fs srt tmpl root w r) = Some 301 \<and>
    rs_header (w_resp (listDir_ServeHTTP rel fs srt tmpl root w r)) ''Location'' =
      Some (hexEscapeNonASCII (join_with ''/'' cs @ ''/'' @ qs)) \<and>
    resolve (''/shared/'' @ join_with ''/'' cs) (join_with ''/'' cs @ ''/'' @ qs) =
      ''/shared/'' @ (if length cs = 1 then [] else join_with ''/'' (butlast cs) @ ''/'') @ join_with ''/'' cs @ ''/'' @ qs"
proof (intro conjI)
  let ?p = "join_with ''/'' cs"
  let ?w = "listDir_ServeHTTP rel fs srt tmpl root w r"
  note cs = assms(3,4)
  have "\<not> has_suffix (orig_path ?p) ''/''"
    unfolding orig_join(1) [OF cs] using last_elem_end [OF cs, of "''/''"] by simp
  then have h: "?w = http_Redirect rel w r (last cs @ ''/'' @ qs) 301"
    using assms(8,9) unfolding listDir_eq [OF assms(1,2)]
    by (simp add: assms(7) orig_join(3) [OF cs] path_Base_join [OF cs, simplified])
  have t: "redirect_target rel (rq_path r) (last cs @ ''/'' @ qs) = ?p @ ''/'' @ qs"
    unfolding assms(7) using cs assms(5,6) by (rule redirect_target_dir) (simp add: assms(8))
  show "w_status ?w = Some 301"
    using assms(10) unfolding h http_Redirect_def t Let_def
    by (simp add: w_write_resp rs_write_status rs_write_header_def rs_set_def informational_def)
  show "rs_header (w_resp ?w) ''Location'' = Some (hexEscapeNonASCII (?p @ ''/'' @ qs))"
    using assms(10) unfolding h http_Redirect_def t Let_def
    by (simp add: w_write_resp rs_write_def rs_write_header_def rs_set_def informational_def Let_def)
  have np: "\<not> has_prefix (?p @ ''/'' @ qs) ''/''"
    using join_head [OF cs] by (cases ?p) auto
  have "path_dir (''/shared'' @ ''/'' @ ?p) = ''/shared'' @ ''/'' @ (if butlast cs = [] then [] else join_with ''/'' (butlast cs) @ ''/'')"
    using cs by (rule path_dir_join)
  moreover have "butlast cs = [] \<longleftrightarrow> length cs = 1"
    using assms(3) by (cases cs rule: rev_cases) auto
  ultimately show "resolve (''/shared/'' @ ?p) (?p @ ''/'' @ qs) =
      ''/shared/'' @ (if length cs = 1 then [] else join_with ''/'' (butlast cs) @ ''/'') @ ?p @ ''/'' @ qs"
    using np by (simp add: resolve_def)
qed

text \<open>A file system of directories.\<close>

definition dirs_fs :: "'e fsys" where
  "dirs_fs = secret_fs\<lparr>fs_stat := (\<lambda>p. Some True)\<rparr>"

theorem directory_redirect_witness:
  "rs_header (w_resp (listDir_ServeHTTP (\<lambda>u. True) dirs_fs id no_template ''/h/shared'' (Plain new_response)
     (demo_request ''GET'' ''a/b'' :: unit request))) ''Location'' = Some (hexEscapeNonASCII ''a/b/'') \<and>
   resolve ''/shared/a/b'' ''a/b/'' = ''/shared/a/a/b/''"
proof -
  have root: "clean_comps ''/h/shared'' \<noteq> []" by code_simp
  have p: "join_with ''/'' [''a'', ''b''] = ''a/b''" by simp
  have "w_status (listDir_ServeHTTP (\<lambda>u. True) dirs_fs id no_template ''/h/shared'' (Plain new_response)
        (demo_request ''GET'' ''a/b'' :: unit request)) = Some 301 \<and>
      rs_header (w_resp (listDir_ServeHTTP (\<lambda>u. True) dirs_fs id no_template ''/h/shared'' (Plain new_response)
        (demo_request ''GET'' ''a/b'' :: unit request))) ''Location'' =
        Some (hexEscapeNonASCII (join_with ''/'' [''a'', ''b''] @ ''/'' @ [])) \<and>
      resolve (''/shared/'' @ join_with ''/'' [''a'', ''b'']) (join_with ''/'' [''a'', ''b''] @ ''/'' @ []) =
        ''/shared/'' @ (if length [''a'', ''b''] = 1 then [] else join_with ''/'' (butlast [''a'', ''b'']) @ ''/'') @
          join_with ''/'' [''a'', ''b''] @ ''/'' @ []"
    by (rule directory_redirect)
      (use root in \<open>simp_all add: plain_elem_def dotdot_def demo_request_def dirs_fs_def new_response_def\<close>)
  then show ?thesis unfolding p by simp
qed

text \<open>Index pages below the top level cannot be read: \<open>http.ServeFile\<close> redirects the request to the
  directory, which is answered with a listing that links to the same file.\<close>

lemma index_page_redirects:
  assumes "root \<noteq> []" and "clean_comps root \<noteq> []"
    and "has_suffix (rq_path r) ''/index.html''" and "\<not> containsDotDot (rq_path r)"
    and "fs_stat fs (abs_path root (rq_path r)) = Some False" and "w_status w = None"
  shows "w_status (listDir_ServeHTTP rel fs srt tmpl root w r) = Some 301 \<and>
    rs_body (w_resp (listDir_ServeHTTP rel fs srt tmpl root w r)) = rs_body (w_resp w) \<and>
    rs_header (w_resp (listDir_ServeHTTP rel fs srt tmpl root w r)) ''Location'' =
      Some (if rq_raw_query r = [] then ''./'' else ''./?'' @ rq_raw_query r)"
  using assms(3-6) unfolding listDir_eq [OF assms(1,2)]
  by (simp add: http_ServeFile_def localRedirect_def Let_def rs_set_def rs_write_header_def informational_def)

end
