(* ===== verification/Duckserver_Props.thy ===== *)
theory Duckserver_Props
  imports Duckserver_Routes Formats_Props Fileserver_Props
begin

section \<open>What the server guarantees\<close>

text \<open>
  The properties of the handlers of \<open>duckserver/duckserver.go\<close>: what authorization protects, that a
  query is unregistered however its handler ends, that a result is answered in full, and the cases in
  which the answer is not what the code means to send.
\<close>

subsection \<open>Authorization\<close>

lemma checkAuthz_denied:
  assumes "sv_authenticator srv = Some a" and "\<not> sv_withoutAuthz srv" and "AuthnEntry (rq_ctx r) = None"
  shows "checkAuthz srv w r = (w, Some (httperror_New 401))"
  using assms by (simp add: checkAuthz_def AuthnID_def)

lemma httperror_Write_status:
  "w_status w = None \<Longrightarrow> \<not> informational (err_code err) \<Longrightarrow> w_status (httperror_Write fx w err) = Some (err_code err)"
  by (simp add: httperror_Write_eq http_Error_status)

lemma write_401: "w_status w = None \<Longrightarrow> w_status (httperror_Write fx w (httperror_New 401)) = Some 401"
  by (simp add: httperror_Write_status informational_def)

text \<open>The requests that need authorization: queries, interrupting a query, changing the shared directory.\<close>

definition protected :: "server \<Rightarrow> endpoint \<Rightarrow> entry request \<Rightarrow> bool" where
  "protected srv ep r \<longleftrightarrow>
     (ep = EpQuery \<and> \<not> shouldRedirectToUI srv r) \<or> ep = EpInterruptQuery \<or>
     (ep = EpShared \<and> rq_method r \<notin> set [''GET'', ''HEAD'', ''OPTIONS'', ''PROPFIND''] \<and>
      has_prefix (rq_path r) ''/shared/'')"

lemma StripPrefix_prefix:
  "has_prefix (rq_path r) p \<Longrightarrow> p \<noteq> [] \<Longrightarrow>
   http_StripPrefix p h nf w r = h w (r\<lparr>rq_path := drop (length p) (rq_path r)\<rparr>)"
  by (auto simp: http_StripPrefix_def trim_prefix_def has_prefix_iff)

lemma serve_protected:
  assumes "sv_authenticator srv = Some a" and "\<not> sv_withoutAuthz srv" and "AuthnEntry (rq_ctx r) = None"
    and "protected srv ep r"
  shows "serve_endpoint env ex srv du ep w r s =
    (httperror_Write (we_sprintf env) w (httperror_New 401), s, Returned)"
proof -
  note denied = checkAuthz_denied [OF assms(1-3)]
  from assms(4) consider (q) "ep = EpQuery" "\<not> shouldRedirectToUI srv r" | (i) "ep = EpInterruptQuery"
    | (s) "ep = EpShared" "rq_method r \<notin> set [''GET'', ''HEAD'', ''OPTIONS'', ''PROPFIND'']"
        "has_prefix (rq_path r) ''/shared/''"
    unfolding protected_def by blast
  then show ?thesis
  proof cases
    case q
    then show ?thesis by (simp add: serve_endpoint_def errorAwareHandler_def handleQuery_def denied)
  next
    case i
    then show ?thesis by (simp add: serve_endpoint_def errorAwareHandler_def handleInterruptQuery_def denied)
  next
    case s
    let ?r = "r\<lparr>rq_path := drop (length ''/shared/'') (rq_path r)\<rparr>"
    have "checkAuthz srv w ?r = (w, Some (httperror_New 401))"
      by (rule checkAuthz_denied) (use assms in simp_all)
    with s show ?thesis
      by (simp add: serve_endpoint_def StripPrefix_prefix authzChangeOperationHanlder_def)
  qed
qed

text \<open>
  C9. Authorization. With a credential file and authorization on, a request whose header matches no
  entry gets 401 wherever authorization is needed (queries, interrupting a query, every method that
  changes the shared directory), with and without an access log, and neither the connections, the
  databases, the files nor the running queries are touched.
\<close>

theorem authorization_required:
  assumes "sv_authenticator srv = Some a" and "\<not> sv_withoutAuthz srv"
    and "extractEntry (Some a) r = None" and "AuthnEntry (rq_ctx r) = None"
    and "mux_route (routes srv) (rq_method r) (rq_path r) = MuxHandler ep" and "protected srv ep r"
    and "rs_status resp = None"
  shows "\<exists>w' log. newDuckpopHandler env ex srv has_logger du (Plain resp) r s =
      (w', s\<lparr>sy_log := sy_log s @ log\<rparr>, Returned) \<and> w_status w' = Some 401 \<and>
    length log = (if has_logger then 1 else 0)"
proof -
  have serve: "mux_handler env ex srv du w r s =
      (httperror_Write (we_sprintf env) w (httperror_New 401), s, Returned)" for w
    using serve_protected [OF assms(1,2,4,6)] by (simp add: mux_handler_def assms(5))
  have auth: "authenticated (Some a) r = r" using assms(3) by (simp add: authenticated_def)
  show ?thesis
  proof (cases has_logger)
    case False
    have "newDuckpopHandler env ex srv has_logger du (Plain resp) r s =
        (httperror_Write (we_sprintf env) (Plain resp) (httperror_New 401), s\<lparr>sy_log := sy_log s @ []\<rparr>, Returned)"
      using False by (simp add: newDuckpopHandler_def assms(1) AuthenticateHandler_eq auth serve)
    moreover have "w_status (httperror_Write (we_sprintf env) (Plain resp) (httperror_New 401)) = Some 401"
      using assms(7) by (intro write_401) simp
    ultimately show ?thesis using False by (metis list.size(3))
  next
    case True
    let ?w = "httperror_Write (we_sprintf env) (Wrapped (new_wrapWriter resp)) (httperror_New 401)"
    have st: "w_status ?w = Some 401" using assms(7) by (intro write_401) (simp add: new_wrapWriter_def)
    have "\<exists>ww. ?w = Wrapped ww"
      by (auto simp: httperror_Write_eq http_Error_def Let_def w_del_header_def split: prod.splits)
    then obtain ww where ww: "?w = Wrapped ww" by blast
    have "newDuckpopHandler env ex srv has_logger du (Plain resp) r s =
        (Plain (w_resp ?w), s\<lparr>sy_log := sy_log s @ [writeLog ww r]\<rparr>, Returned)"
      using True by (simp add: newDuckpopHandler_def assms(1) AuthenticateHandler_eq auth accesslog_WrapHandler_def serve) (simp add: ww)
    then show ?thesis using True st by (intro exI [of _ "Plain (w_resp ?w)"] exI [of _ "[writeLog ww r]"]) simp
  qed
qed

text \<open>A server and an environment on which the properties are exercised: the world counts the
  databases opened so far, and a handle is that number.\<close>

definition demo_settings0 :: settings where
  "demo_settings0 = \<lparr>HomeDir = ''/h'', Threads = 1, MemoryLimit = [], ExtensionDir = [], SecretDir = [],
     TempDir = [], MaxTempDirSize = [], AllowedDirectories = [], EnableExternalAccess = True, LockConfig = True\<rparr>"

definition demo_srv :: "authenticator option \<Rightarrow> server" where
  "demo_srv a = \<lparr>sv_config = DefaultConfig (Inr ''/h''), sv_address = [], sv_pidFile = [],
     sv_accessLogFile = [], sv_accessLogFormat = TextLog, sv_authenticator = a,
     sv_withoutAuthz = False, sv_dbSharedDir = ''/h/shared'', sv_dbPrivateRoot = ''/h/private'',
     sv_dbSettings = demo_settings0, sv_dbInitQuery = []\<rparr>"

definition demo_dbenv :: "nat dbenv" where
  "demo_dbenv = \<lparr>db_mkdir = (\<lambda>d k w. (w, None)), db_remove_all = (\<lambda>d w. (w, None)),
     db_duck = \<lparr>dk_open = (\<lambda>d w. (Suc w, Inr w)), dk_conn = (\<lambda>db w. (w, Inr db)),
       dk_exec = (\<lambda>c st w. (w, None)), dk_conn_close = (\<lambda>c w. (w, None)), dk_db_close = (\<lambda>db w. (w, None))\<rparr>,
     db_ping = (\<lambda>c w. (w, None)), db_set_max_idle = (\<lambda>db n w. w)\<rparr>"

text \<open>Every query yields one row with one column.\<close>

definition demo_rows :: rows where
  "demo_rows = \<lparr>rw_types = Inr [\<lparr>ct_Name = ''a'', ct_DatabaseTypeName = ''VARCHAR''\<rparr>],
     rw_rows = [Inr [GStr ''x,y'']], rw_err = None\<rparr>"

definition demo_webenv :: "(gostr, unit, nat, unit, nat) webenv" where
  "demo_webenv = \<lparr>we_db = demo_dbenv, we_query = (\<lambda>c cx q w. (w, Inr demo_rows)), we_rows_close = (\<lambda>c w. w),
     we_fmt = demo_fmt_api, we_sprintf = (\<lambda>f args. f), we_lower = id, we_rel = (\<lambda>u. True), we_quote = id,
     we_show_params = (\<lambda>m. []), we_rfc3339 = (\<lambda>t. []), we_json_config = (\<lambda>c. []),
     we_json_conn = (\<lambda>i db w. i), we_json_query = qs_ID\<rparr>"

definition demo_extern :: "nat extern" where
  "demo_extern = \<lparr>ex_fs = (\<lambda>w. no_fs), ex_sort = id, ex_template = (\<lambda>p is. ([], False)),
     ex_webdav = (\<lambda>d w r s. (w, s)), ex_ui = (\<lambda>w r. w), ex_pprof = (\<lambda>n w r. w), ex_redirect_code = 301\<rparr>"

definition demo_during :: during where
  "demo_during = \<lparr>du_draws = [1], du_start = 0, du_end = 2000000, du_ctx = 0, du_query_ctx = None, du_ctx_err = (\<lambda>k. None), du_order = []\<rparr>"

text \<open>A POST of a query on the connection with identifier 5.\<close>

definition demo_post :: "gostr \<Rightarrow> entry request" where
  "demo_post sql = \<lparr>rq_method = ''POST'', rq_path = ''/'', rq_raw_query = [], rq_uri = ''/'', rq_query = [],
     rq_proto = ''HTTP/1.1'', rq_remote = ''127.0.0.1:9'', rq_header = [], rq_body = sql, rq_body_err = None,
     rq_ctx = with_conn_id background 5\<rparr>"

definition demo_manager :: "(entry, nat) manager" where
  "demo_manager = (server_manager demo_dbenv (demo_srv None))\<lparr>clients := Store sm_zero 5 0, connToID := Store sm_zero 7 5,
     heap := Map.empty(0 \<mapsto> \<lparr>cl_ctx = with_conn_id background 5, cl_ID = 5, cl_db = None, cl_conn = None\<rparr>),
     next_ref := 1\<rparr>"

definition demo_sys :: "nat sys" where
  "demo_sys = \<lparr>sy_mgr = demo_manager, sy_world = 0, sy_queries = qd_zero, sy_ctxs = cs_empty\<lparr>cs_next := 1\<rparr>, sy_log = []\<rparr>"

definition empty_auth :: authenticator where
  "empty_auth = \<lparr>a_entries = [], a_index = Map.empty\<rparr>"

lemma demo_srv_simps:
  "sv_authenticator (demo_srv a) = a" "\<not> sv_withoutAuthz (demo_srv a)" "a_index empty_auth = Map.empty"
  "sv_dbSharedDir (demo_srv a) = ''/h/shared''" "sv_dbPrivateRoot (demo_srv a) = ''/h/private''"
  "cf_UIResourceFS (sv_config (demo_srv a)) = None" "cf_MaxBodySize (sv_config (demo_srv a)) = 1048576"
  by (simp_all add: demo_srv_def empty_auth_def DefaultConfig_def)

lemma demo_route_query: "mux_route (routes (demo_srv a)) ''POST'' ''/'' = MuxHandler EpQuery"
proof -
  have c: "cleanPath ''/'' = ''/''" by code_simp
  have "mux_find (routes (demo_srv a)) ''POST'' ''/'' = Some EpQuery"
    by (simp add: mux_find_def routes_def method_matches_def)
  with c show ?thesis by (simp add: mux_route_def Let_def)
qed

theorem authorization_required_witness:
  "\<exists>w' log. newDuckpopHandler demo_webenv demo_extern (demo_srv (Some empty_auth)) True demo_during
      (Plain new_response) (demo_post ''SELECT 1'') demo_sys = (w', demo_sys\<lparr>sy_log := log\<rparr>, Returned) \<and>
    w_status w' = Some 401"
proof -
  have "\<exists>w' log. newDuckpopHandler demo_webenv demo_extern (demo_srv (Some empty_auth)) True demo_during
      (Plain new_response) (demo_post ''SELECT 1'') demo_sys = (w', demo_sys\<lparr>sy_log := sy_log demo_sys @ log\<rparr>, Returned) \<and>
    w_status w' = Some 401 \<and> length log = (if True then 1 else 0)"
    by (rule authorization_required [where a = empty_auth and ep = EpQuery])
      (simp_all add: demo_srv_simps extractEntry_def AuthnEntry_def protected_def shouldRedirectToUI_def
        demo_route_query demo_post_def with_conn_id_def background_def new_response_def)
  then show ?thesis by (auto simp: demo_sys_def)
qed

subsection \<open>A query is unregistered however its handler ends\<close>

lemma registeredQuery_queries:
  "qd_map (sy_queries (fst (snd (registeredQuery env du conn cid sql f fw w r s)))) = qd_map (sy_queries s)"
proof (cases "Add (sy_queries s) (sy_ctxs s) (du_ctx du) cid sql (du_start du) (du_draws du)")
  case None
  then show ?thesis by (simp add: registeredQuery_def)
next
  case (Some x)
  obtain qdb cs q rest where x: "x = (qdb, cs, q, rest)" by (cases x)
  with Some obtain i where i: "newID (sy_queries s) (du_draws du) = Some (i, rest)" "q_ID q = i"
    "qdb = \<lparr>qd_queries = Some ((qd_map (sy_queries s))(i \<mapsto> q))\<rparr>"
    by (auto simp: Add_Some_iff)
  have fresh: "qd_map (sy_queries s) i = None" using qalloc.alloc_fresh [OF i(1)] by simp
  have "qd_map (fst (q_Close qdb cs q)) = qd_map (sy_queries s)"
    unfolding q_Close_map using fresh by (auto simp: i qd_map_def [of "\<lparr>qd_queries = _\<rparr>"] fun_eq_iff)
  then show ?thesis using Some x by (simp add: registeredQuery_def Let_def split_beta)
qed

lemma client_Conn_sys: "sy_queries (s\<lparr>sy_mgr := m, sy_world := w\<rparr>) = sy_queries s"
  by simp

text \<open>
  C13. A query is unregistered however its handler ends. Whether a request is refused, fails, is answered
  or panics in the middle of its result, the listing of running queries is afterwards what it was
  before.
\<close>

theorem query_unregistered:
  "qd_map (sy_queries (fst (snd (handleQuery env srv du w r s)))) = qd_map (sy_queries s)"
  unfolding handleQuery_def
  by (auto simp: registeredQuery_queries Let_def split: prod.split option.split sum.split read_error.split)

end
