(* ===== verification/Duckserver_Answers.thy ===== *)
theory Duckserver_Answers
  imports Duckserver_Props
begin

section \<open>What a query is answered\<close>

text \<open>
  The answers of \<open>handleQuery\<close> of \<open>duckserver/duckserver.go\<close>: a result in CSV end to end, and where the
  answer is not what the code means to send: a body above the limit, an error in the middle of a
  result, an initialisation query of a credential.
\<close>

subsection \<open>What the CSV writer leaves alone\<close>

text \<open>A property of the sink that every call of \<open>put\<close> keeps is kept by the writer.\<close>

locale sink_invariant =
  fixes put :: "'w put" and P :: "'w \<Rightarrow> bool"
  assumes put_keeps: "P w \<Longrightarrow> put w s = (w', n, err) \<Longrightarrow> P w'"
begin

lemma flush_keeps: "P w \<Longrightarrow> bw_flush put b w = (b', w') \<Longrightarrow> P w'"
  using put_keeps by (auto simp: bw_flush_def Let_def split: if_splits option.splits prod.splits)

lemma write_keeps: "P w \<Longrightarrow> bw_write put b w s = (b', w') \<Longrightarrow> P w'"
proof (induction s arbitrary: b w)
  case Nil
  then show ?case by simp
next
  case (Cons c s)
  obtain b1 w1 where f: "bw_flush put b w = (b1, w1)" by fastforce
  have "P w1" using flush_keeps [OF Cons.prems(1) f] .
  with f Cons show ?case by (auto split: if_splits)
qed

lemma csv_Write_keeps: "P w \<Longrightarrow> csv_Write put b w rec = (b', w', e) \<Longrightarrow> P w'"
  using write_keeps by (auto simp: csv_Write_def split: prod.splits)

lemma header_keeps: "P w \<Longrightarrow> csv_WriteHeader put cw w ts = (cw', w', e) \<Longrightarrow> P w'"
  using csv_Write_keeps by (auto simp: csv_WriteHeader_def Let_def split: prod.splits)

lemma body_keeps: "P w \<Longrightarrow> csv_WriteBody sp put cw w vs = (cw', w', e) \<Longrightarrow> P w'"
proof -
  assume "P w" and b: "csv_WriteBody sp put cw w vs = (cw', w', e)"
  from b show "P w'"
    by (cases rule: csv_WriteBody_cases) (use \<open>P w\<close> csv_Write_keeps in auto)
qed

lemma flush_writer_keeps: "P w \<Longrightarrow> csv_Flush_writer put cw w = (cw', w', e) \<Longrightarrow> P w'"
  using flush_keeps by (auto simp: csv_Flush_writer_def csv_Flush_def Let_def split: prod.splits)

lemma rows_loop_keeps:
  "fa_put api = put \<Longrightarrow> P w \<Longrightarrow> rows_loop api ctx_err k (CsvWriter cw) w rs = (fw', w', e) \<Longrightarrow> P w'"
proof (induction rs arbitrary: k cw w)
  case Nil
  obtain cw1 w1 e1 where "csv_Flush_writer put cw w = (cw1, w1, e1)" by (metis prod_cases3)
  with Nil flush_writer_keeps show ?case by auto
next
  case (Cons row rs)
  show ?case
  proof (cases "ctx_err k = None \<and> (\<exists>vs. row = Inr vs)")
    case False
    with Cons.prems show ?thesis by (auto split: option.splits sum.splits)
  next
    case True
    then obtain vs where vs: "ctx_err k = None" "row = Inr vs" by blast
    obtain cw1 w1 e1 where b: "csv_WriteBody (fa_sprint api) put cw w vs = (cw1, w1, e1)" by (metis prod_cases3)
    have "P w1" using body_keeps [OF Cons.prems(2) b] .
    with Cons.prems vs b Cons.IH [OF Cons.prems(1)] show ?thesis by (cases e1) auto
  qed
qed

lemma writeRows_keeps:
  assumes "fa_put api = put" and "P w" and "writeRows api ctx_err (CsvWriter cw) w rows = (fw', w', e)"
  shows "P w'"
proof (cases "ctx_err 0 = None \<and> (\<exists>ts. rw_types rows = Inr ts)")
  case False
  with assms show ?thesis by (auto simp: writeRows_def split: option.splits sum.splits)
next
  case True
  then obtain ts where ts: "ctx_err 0 = None" "rw_types rows = Inr ts" by blast
  obtain cw1 w1 e1 where h: "csv_WriteHeader put cw w ts = (cw1, w1, e1)" by (metis prod_cases3)
  have w1: "P w1" using header_keeps [OF assms(2) h] .
  show ?thesis
  proof (cases "e1 = None \<and> ctx_err 1 = None")
    case False
    with assms ts h w1 show ?thesis by (auto simp: writeRows_def split: option.splits)
  next
    case True
    with assms ts h have "rows_loop api ctx_err 2 (CsvWriter cw1) w1 (rw_rows rows) = (fw', w', e)"
      by (simp add: writeRows_def)
    with assms(1) w1 show ?thesis by (rule rows_loop_keeps)
  qed
qed

end

lemma w_write_keeps_status:
  "w_status w = Some c \<and> rs_alive (w_resp w) = a \<Longrightarrow> w_write w s = (w', n, err) \<Longrightarrow>
   w_status w' = Some c \<and> rs_alive (w_resp w') = a"
proof -
  assume w: "w_status w = Some c \<and> rs_alive (w_resp w) = a" and "w_write w s = (w', n, err)"
  then have "w_resp w' = fst (rs_write (w_resp w) s)" using w_write_resp [of w s] by simp
  with w show ?thesis by (auto simp: rs_write_def Let_def)
qed

text \<open>The header a result is sent with.\<close>

lemma w_write_header_alive [simp]: "rs_alive (rs_write_header r c) = rs_alive r"
  by (simp add: rs_write_header_def)

lemma rs_set_simps [simp]:
  "rs_status (rs_set r k v) = rs_status r" "rs_alive (rs_set r k v) = rs_alive r"
  "rs_body (rs_set r k v) = rs_body r" "rs_header (rs_set r k v) = (rs_header r)(k \<mapsto> v)"
  by (simp_all add: rs_set_def)

lemma rs_write_header_simps [simp]:
  "rs_body (rs_write_header r c) = rs_body r" "rs_header (rs_write_header r c) = rs_header r"
  "rs_status r = None \<Longrightarrow> rs_status (rs_write_header r 200) = Some 200"
  "rs_status r = None \<Longrightarrow> rs_status (rs_write_header r 100) = None"
  by (simp_all add: rs_write_header_def informational_def)

subsection \<open>A body above the limit\<close>

lemma too_large_resp:
  "w_status (too_large w) = w_status w \<and> rs_body (w_resp (too_large w)) = rs_body (w_resp w)"
  by (cases w) (simp_all add: too_large_def)

lemma checkAuthz_ok_resp:
  "checkAuthz srv w r = (w1, None) \<Longrightarrow> w_status w1 = w_status w \<and> rs_body (w_resp w1) = rs_body (w_resp w)"
  by (auto simp: checkAuthz_def split: option.splits if_splits)

text \<open>
  C36. A body above the limit is answered with an empty 200. \<open>http.MaxBytesReader\<close> does not write a
  response, and the handler returns nil in the belief that it did: the client sees a successful query
  with no result, and no database is asked.
\<close>

theorem oversized_body_looks_empty:
  assumes "\<not> shouldRedirectToUI srv r" and "checkAuthz srv w r = (w1, None)"
    and "rq_method r \<in> {''GET'', ''POST''}" and "0 \<le> cf_MaxBodySize (sv_config srv)"
    and "cf_MaxBodySize (sv_config srv) < int (length (rq_body r))" and "w_status w = None"
  shows "\<exists>w'. errorAwareHandler fx (handleQuery env srv du) w r s = (w', s, Returned) \<and>
    w_status (finished w') = Some 200 \<and> rs_body (w_resp (finished w')) = rs_body (w_resp w)"
proof (intro exI conjI)
  have "readQuery (cf_MaxBodySize (sv_config srv)) w1 r = (too_large w1, Inl MaxBytes)"
    using assms(4,5) by (simp add: readQuery_def read_body_def)
  then show "errorAwareHandler fx (handleQuery env srv du) w r s = (too_large w1, s, Returned)"
    using assms(1-3) by (auto simp: errorAwareHandler_def handleQuery_def)
  have "w_status (too_large w1) = None" "rs_body (w_resp (too_large w1)) = rs_body (w_resp w)"
    using too_large_resp [of w1] checkAuthz_ok_resp [OF assms(2)] assms(6) by simp_all
  then show "w_status (finished (too_large w1)) = Some 200"
    "rs_body (w_resp (finished (too_large w1))) = rs_body (w_resp w)"
    by (simp_all add: finished_def)
qed

theorem oversized_body_looks_empty_witness:
  "\<exists>w'. errorAwareHandler (\<lambda>f args. f)
      (handleQuery demo_webenv ((demo_srv None)\<lparr>sv_config := (DefaultConfig (Inr []))\<lparr>cf_MaxBodySize := 4\<rparr>\<rparr>) demo_during)
      (Plain new_response) (demo_post ''SELECT 1'') demo_sys = (w', demo_sys, Returned) \<and>
    w_status (finished w') = Some 200"
  using oversized_body_looks_empty [of "(demo_srv None)\<lparr>sv_config := (DefaultConfig (Inr []))\<lparr>cf_MaxBodySize := 4\<rparr>\<rparr>"
      "demo_post ''SELECT 1''" "Plain new_response" "Plain new_response" "\<lambda>f args. f" demo_webenv demo_during demo_sys]
  by (auto simp: shouldRedirectToUI_def checkAuthz_def demo_srv_simps demo_post_def new_response_def DefaultConfig_def)

subsection \<open>An error in the middle of a result\<close>

lemma http_Error_wrapped_status: "\<exists>ww'. http_Error (Wrapped ww) msg code = Wrapped ww' \<and> ww_status ww' = code"
proof -
  obtain ww1 where w1: "w_set (w_set (w_del_header (Wrapped ww) ''Content-Length'') ''Content-Type'' ''text/plain; charset=utf-8'')
      ''X-Content-Type-Options'' ''nosniff'' = Wrapped ww1"
    by (simp add: w_del_header_def)
  obtain ww2 n e where w2: "ww_write (ww_write_header ww1 code) (msg @ [CHR 0x0A]) = (ww2, n, e)" by (metis prod_cases3)
  have "ww_status ww2 = ww_status (ww_write_header ww1 code)"
    using ww_write_status [of "ww_write_header ww1 code" "msg @ [CHR 0x0A]"] w2 by simp
  then have "ww_status ww2 = code" by (simp add: ww_write_header_def)
  moreover have "http_Error (Wrapped ww) msg code = Wrapped ww2"
    unfolding http_Error_def Let_def w1 by (simp add: w2)
  ultimately show ?thesis by blast
qed

text \<open>What the libraries behind the writers do with the \<open>http.ResponseWriter\<close> they are given: they write to it,
  any number of times, and nothing else.\<close>

definition written :: "writer \<Rightarrow> writer \<Rightarrow> bool" where
  "written w w' \<longleftrightarrow> (\<exists>ss. w' = foldl (\<lambda>v s. fst (w_write v s)) w ss)"

definition library_writes :: "('fld, 'rec, 'enc, 't, writer) fmt_api \<Rightarrow> bool" where
  "library_writes api \<longleftrightarrow> fa_put api = w_write \<and>
     (\<forall>rec w. written w (fst (av_encoder (fa_avro api) rec w))) \<and>
     (\<forall>enc r w. written w (fst (av_encode (fa_avro api) enc r w))) \<and>
     (\<forall>enc w. written w (fst (av_close (fa_avro api) enc w))) \<and>
     (\<forall>t w. written w (fst (snd (tw_render (fa_table api) t w))))"

lemma written_refl: "written w w"
  unfolding written_def by (rule exI [of _ "[]"]) simp

lemma written_write: "written w v \<Longrightarrow> w_write v s = (v', n, e) \<Longrightarrow> written w v'"
proof -
  assume "written w v" and v: "w_write v s = (v', n, e)"
  then obtain ss where "v = foldl (\<lambda>v s. fst (w_write v s)) w ss" by (auto simp: written_def)
  then have "v' = foldl (\<lambda>v s. fst (w_write v s)) w (ss @ [s])" using v by simp
  then show "written w v'" unfolding written_def by blast
qed

lemma written_trans: "written u v \<Longrightarrow> written v w \<Longrightarrow> written u w"
  unfolding written_def by (metis foldl_append)

lemma written_keeps:
  assumes "written w w'" and "P w" and "\<And>v s. P v \<Longrightarrow> P (fst (w_write v s))"
  shows "P w'"
proof -
  have "P (foldl (\<lambda>v s. fst (w_write v s)) w ss)" for ss
    using assms(2,3) by (induction ss arbitrary: w) simp_all
  then show ?thesis using assms(1) by (auto simp: written_def)
qed

interpretation http_written: sink_invariant w_write "written w"
  by unfold_locales (rule written_write)

lemma fw_header_written:
  assumes "library_writes api" and "fw_WriteHeader api fw w ts = (fw', w', e)"
  shows "written w w'"
proof (cases fw)
  case (CsvWriter cw)
  obtain cw1 w1 e1 where c: "csv_WriteHeader w_write cw w ts = (cw1, w1, e1)" by (metis prod_cases3)
  with assms CsvWriter have "w' = w1" by (simp add: library_writes_def)
  with http_written.header_keeps [OF written_refl c] show ?thesis by simp
next
  case (AvroWriter aw)
  obtain aw1 x where t: "types2schema (fa_avro api) aw ts = (aw1, x)" by fastforce
  show ?thesis
  proof (cases "aw_base aw \<and> (\<exists>rec. x = Inr rec)")
    case True
    then obtain rec where x: "x = Inr rec" by blast
    obtain w1 y where y: "av_encoder (fa_avro api) rec w = (w1, y)" by fastforce
    have "written w w1" using assms(1) y unfolding library_writes_def by (metis fst_conv)
    moreover have "w' = w1" using assms(2) True t x y AvroWriter by (cases y) (auto simp: avro_WriteHeader_def)
    ultimately show ?thesis by simp
  next
    case False
    then have "w' = w" using assms(2) t AvroWriter by (cases x) (auto simp: avro_WriteHeader_def split: if_splits)
    then show ?thesis by (simp add: written_refl)
  qed
next
  case (TableWriter tw)
  with assms(2) show ?thesis by (auto simp: table_WriteHeader_def written_refl)
qed

lemma fw_body_written:
  assumes "library_writes api" and "fw_WriteBody api fw w vs = (fw', w', e)"
  shows "written w w'"
proof (cases fw)
  case (CsvWriter cw)
  obtain cw1 w1 e1 where c: "csv_WriteBody (fa_sprint api) w_write cw w vs = (cw1, w1, e1)" by (metis prod_cases3)
  with assms CsvWriter have "w' = w1" by (simp add: library_writes_def)
  with http_written.body_keeps [OF written_refl c] show ?thesis by simp
next
  case (AvroWriter aw)
  have enc: "written w (fst (av_encode (fa_avro api) enc r w))" for enc r using assms(1) by (simp add: library_writes_def)
  then show ?thesis
    using assms(2) AvroWriter by (auto simp: avro_WriteBody_def Let_def written_refl split: option.splits if_splits prod.splits)
      (metis fst_conv)+
next
  case (TableWriter tw)
  with assms(2) show ?thesis by (auto simp: table_WriteBody_def written_refl split: prod.splits)
qed

lemma fw_flush_written:
  assumes "library_writes api" and "fw_Flush api fw w = (fw', w', e)"
  shows "written w w'"
proof (cases fw)
  case (CsvWriter cw)
  obtain cw1 w1 e1 where c: "csv_Flush_writer w_write cw w = (cw1, w1, e1)" by (metis prod_cases3)
  with assms CsvWriter have "w' = w1" by (simp add: library_writes_def)
  with http_written.flush_writer_keeps [OF written_refl c] show ?thesis by simp
next
  case (AvroWriter aw)
  have "written w (fst (av_close (fa_avro api) enc w))" for enc using assms(1) by (simp add: library_writes_def)
  then show ?thesis
    using assms(2) AvroWriter by (auto simp: avro_Flush_def Let_def written_refl split: option.splits prod.splits) (metis fst_conv)
next
  case (TableWriter tw)
  have "written w (fst (snd (tw_render (fa_table api) t w)))" for t using assms(1) by (simp add: library_writes_def)
  then show ?thesis
    using assms(2) TableWriter by (auto simp: table_Flush_def Let_def split: prod.splits) (metis fst_conv snd_conv)
qed

lemma rows_loop_written:
  "library_writes api \<Longrightarrow> rows_loop api ctx_err k fw w rs = (fw', w', e) \<Longrightarrow> written w w'"
proof (induction rs arbitrary: k fw w)
  case Nil
  then show ?case using fw_flush_written by simp
next
  case (Cons row rs)
  show ?case
  proof (cases "ctx_err k = None \<and> (\<exists>vs. row = Inr vs)")
    case False
    with Cons.prems show ?thesis by (auto simp: written_refl split: option.splits sum.splits)
  next
    case True
    then obtain vs where vs: "ctx_err k = None" "row = Inr vs" by blast
    obtain fw1 w1 e1 where b: "fw_WriteBody api fw w vs = (fw1, w1, e1)" by (metis prod_cases3)
    have one: "written w w1" using fw_body_written [OF Cons.prems(1) b] .
    show ?thesis
    proof (cases e1)
      case None
      then have "rows_loop api ctx_err (Suc k) fw1 w1 rs = (fw', w', e)" using Cons.prems(2) vs b by simp
      then show ?thesis using Cons.IH [OF Cons.prems(1)] written_trans [OF one] by blast
    next
      case (Some err)
      then show ?thesis using Cons.prems(2) vs b one by simp
    qed
  qed
qed

lemma writeRows_written:
  assumes lib: "library_writes api" and "writeRows api ctx_err fw w rows = (fw', w', e)"
  shows "written w w'"
proof (cases "ctx_err 0 = None \<and> (\<exists>ts. rw_types rows = Inr ts)")
  case False
  with assms(2) show ?thesis by (auto simp: writeRows_def written_refl split: option.splits sum.splits)
next
  case True
  then obtain ts where ts: "ctx_err 0 = None" "rw_types rows = Inr ts" by blast
  obtain fw1 w1 e1 where h: "fw_WriteHeader api fw w ts = (fw1, w1, e1)" by (metis prod_cases3)
  have one: "written w w1" using fw_header_written [OF lib h] .
  show ?thesis
  proof (cases "e1 = None \<and> ctx_err 1 = None")
    case False
    with assms(2) ts h one show ?thesis by (auto simp: writeRows_def split: option.splits)
  next
    case True
    with assms(2) ts h have "rows_loop api ctx_err 2 fw1 w1 (rw_rows rows) = (fw', w', e)" by (simp add: writeRows_def)
    then show ?thesis using rows_loop_written [OF lib] written_trans [OF one] by blast
  qed
qed

text \<open>A response that has been started stays as it is but for its body, behind the access log's wrapper or
  not.\<close>

definition started_with :: "nat \<Rightarrow> bool \<Rightarrow> bool \<Rightarrow> writer \<Rightarrow> bool" where
  "started_with c alive logged w \<longleftrightarrow> w_status w = Some c \<and> rs_alive (w_resp w) = alive \<and> (\<exists>ww. w = Wrapped ww) = logged"

lemma started_with_write: "started_with c a l w \<Longrightarrow> started_with c a l (fst (w_write w s))"
proof -
  assume w: "started_with c a l w"
  obtain w' n e where s: "w_write w s = (w', n, e)" by (metis prod_cases3)
  have "w_status w' = Some c \<and> rs_alive (w_resp w') = a"
    using w_write_keeps_status [OF _ s] w by (simp add: started_with_def)
  moreover have "(\<exists>ww. w' = Wrapped ww) = (\<exists>ww. w = Wrapped ww)" using s by (cases w) (auto split: prod.splits)
  ultimately show ?thesis using w s by (simp add: started_with_def)
qed

lemma runQuery_rows_error:
  assumes "we_query env conn (du_query_ctx du) sql world = (world1, Inr rows)" and "library_writes (we_fmt env)"
    and "w_status w = None"
    and "runQuery env du conn sql f fw w r world = (w6, world2, HErr err)"
  shows "err_code err = 500 \<and> started_with 200 (rs_alive (w_resp w)) (\<exists>ww. w = Wrapped ww) w6"
proof -
  let ?w1 = "if get_first (rq_header r) ''Expect'' = ''100-continue'' then w_write_header w 100 else w"
  let ?w5 = "w_write_header (w_set (w_set (w_query_report ?w1 sql (du_end du - du_start du)) ''Duckpop-Duration''
      (dur_str (du_end du - du_start du))) ''Content-Type'' (factory_ContentType f)) 200"
  have w5: "started_with 200 (rs_alive (w_resp w)) (\<exists>ww. w = Wrapped ww) ?w5"
    unfolding started_with_def
  proof (intro conjI)
    show "(\<exists>ww. ?w5 = Wrapped ww) = (\<exists>ww. w = Wrapped ww)" by (cases w) simp_all
  qed (use assms(3) in simp_all)
  obtain fw1 w' e where wr: "writeRows (we_fmt env) (du_ctx_err du) fw ?w5 rows = (fw1, w', e)"
    by (metis prod_cases3)
  have keep: "started_with 200 (rs_alive (w_resp w)) (\<exists>ww. w = Wrapped ww) w'"
    using writeRows_written [OF assms(2) wr] w5 by (rule written_keeps) (rule started_with_write)
  have "w6 = w' \<and> err_code err = 500"
    using assms(4) unfolding runQuery_def Let_def assms(1) prod.case sum.case wr
    by (auto split: option.splits if_splits)
  with keep show ?thesis by simp
qed

text \<open>
  C37. An error in the middle of a result cannot be told from the status. Whatever the format, when the query
  was executed and writing the result then fails while the client is there, the client has the status 200
  already; the text of the error is appended to the body as if it belonged to the result, and behind the
  wrapper of the access log the status that is logged is 500, which nobody was sent. The libraries behind
  the formats do nothing to the response but write to it.
\<close>

theorem late_error_in_body:
  assumes "we_query env conn (du_query_ctx du) sql world = (world1, Inr rows)" and "library_writes (we_fmt env)"
    and "w_status w = None" and "rs_alive (w_resp w)"
    and "runQuery env du conn sql f fw w r world = (w6, world2, HErr err)"
  shows "w_status (httperror_Write fx w6 err) = Some 200 \<and>
    rs_body (w_resp (httperror_Write fx w6 err)) = rs_body (w_resp w6) @ err_text fx err @ [CHR 0x0A] \<and>
    (w = Wrapped ww \<longrightarrow> (\<exists>ww'. httperror_Write fx w6 err = Wrapped ww' \<and> ww_status ww' = 500))"
proof -
  have r: "err_code err = 500" "w_status w6 = Some 200" "rs_alive (w_resp w6)"
    and k: "w = Wrapped ww \<longrightarrow> (\<exists>ww6. w6 = Wrapped ww6)"
    using runQuery_rows_error [OF assms(1-3,5)] assms(4) by (auto simp: started_with_def)
  have "w_status (http_Error w6 (err_text fx err) 500) = Some 200"
    using r(2) http_Error_status [of 500 w6 "err_text fx err"] by (simp add: informational_def)
  moreover have "rs_body (w_resp (http_Error w6 (err_text fx err) 500)) = rs_body (w_resp w6) @ err_text fx err @ [CHR 0x0A]"
    using r(2) _ r(3) by (rule http_Error_late_body) (simp add: body_allowed_def)
  moreover have "w = Wrapped ww \<longrightarrow> (\<exists>ww'. http_Error w6 (err_text fx err) 500 = Wrapped ww' \<and> ww_status ww' = 500)"
    using k http_Error_wrapped_status by blast
  ultimately show ?thesis by (simp add: httperror_Write_eq r(1))
qed

text \<open>A backend whose only row cannot be scanned.\<close>

definition broken_rows :: rows where
  "broken_rows = \<lparr>rw_types = Inr [\<lparr>ct_Name = ''a'', ct_DatabaseTypeName = ''VARCHAR''\<rparr>],
     rw_rows = [Inl ''broken''], rw_err = None\<rparr>"

definition broken_env :: "(gostr, unit, nat, unit, nat) webenv" where
  "broken_env = demo_webenv\<lparr>we_query := (\<lambda>c cx q w. (w, Inr broken_rows))\<rparr>"

lemma broken_writeRows:
  assumes "fa_put api = w_write"
  shows "\<exists>fw' w' t. writeRows api (\<lambda>k. None) (CsvWriter cw) w broken_rows = (fw', w', Some (WriteFailed t))"
proof -
  let ?ts = "[\<lparr>ct_Name = ''a'', ct_DatabaseTypeName = ''VARCHAR''\<rparr>]"
  obtain cw1 w1 e1 where h: "csv_WriteHeader w_write cw w ?ts = (cw1, w1, e1)" by (metis prod_cases3)
  show ?thesis
  proof (cases e1)
    case None
    with h assms show ?thesis by (simp add: writeRows_def broken_rows_def)
  next
    case (Some e)
    then have "\<exists>t. e = WriteFailed t"
      using h by (auto simp: csv_WriteHeader_def Let_def split: prod.splits dest!: io_result_Some [OF sym])
    with h assms Some show ?thesis by (auto simp: writeRows_def broken_rows_def)
  qed
qed

theorem late_error_in_body_witness:
  "\<exists>w6 err ww'. runQuery broken_env demo_during 0 ''SELECT 1'' CsvFactory (CsvWriter (csv_Create Map.empty))
      (Wrapped (new_wrapWriter new_response)) (demo_post ''SELECT 1'') 0 = (w6, 0, HErr err) \<and>
    w_status (httperror_Write (\<lambda>f args. f) w6 err) = Some 200 \<and>
    httperror_Write (\<lambda>f args. f) w6 err = Wrapped ww' \<and> ww_status ww' = 500"
proof -
  let ?w = "Wrapped (new_wrapWriter new_response)"
  have e: "we_query broken_env 0 (du_query_ctx demo_during) ''SELECT 1'' 0 = (0, Inr broken_rows)" "fa_put (we_fmt broken_env) = w_write"
    by (simp_all add: broken_env_def demo_webenv_def demo_fmt_api_def)
  have lib: "library_writes (we_fmt broken_env)"
    by (simp add: library_writes_def broken_env_def demo_webenv_def demo_fmt_api_def written_refl)
  have w: "w_status ?w = None" "rs_alive (w_resp ?w)"
    by (simp_all add: new_response_def new_wrapWriter_def)
  obtain w6 err where r: "runQuery broken_env demo_during 0 ''SELECT 1'' CsvFactory (CsvWriter (csv_Create Map.empty))
      ?w (demo_post ''SELECT 1'') 0 = (w6, 0, HErr err)"
  proof -
    have c: "du_ctx_err demo_during = (\<lambda>k. None)" "we_rows_close broken_env = (\<lambda>c w. w)"
      by (simp_all add: demo_during_def broken_env_def demo_webenv_def)
    let ?dur = "du_end demo_during - du_start demo_during"
    let ?w5 = "w_write_header (w_set (w_set (w_query_report ?w ''SELECT 1'' ?dur) ''Duckpop-Duration''
      (dur_str ?dur)) ''Content-Type'' (factory_ContentType CsvFactory)) 200"
    obtain fw' w' t where wr: "writeRows (we_fmt broken_env) (\<lambda>k. None) (CsvWriter (csv_Create Map.empty)) ?w5 broken_rows =
        (fw', w', Some (WriteFailed t))"
      using broken_writeRows [OF e(2)] by blast
    have ex: "rq_header (demo_post ''SELECT 1'') = []" by (simp add: demo_post_def)
    have "\<exists>err. runQuery broken_env demo_during 0 ''SELECT 1'' CsvFactory (CsvWriter (csv_Create Map.empty))
        ?w (demo_post ''SELECT 1'') 0 = (w', 0, HErr err)"
      unfolding runQuery_def Let_def e(1) prod.case sum.case c ex using wr by simp
    with that show thesis by blast
  qed
  from late_error_in_body [OF e(1) lib w r, of "\<lambda>f args. f" "new_wrapWriter new_response"] r show ?thesis by blast
qed

subsection \<open>The initialisation query of a credential\<close>

text \<open>
  C35. The \<open>init_query\<close> of a credential is never run. The database of a connection is opened with the
  context of the connection, which was made before any request was authenticated: whatever
  initialisation query the entry of an authenticated request has, the answer to the request, the
  databases and everything else are the same.
\<close>

theorem credential_init_query_ignored:
  "handleQuery env srv du w (r\<lparr>rq_ctx := withEntry c e\<rparr>) s =
   handleQuery env srv du w (r\<lparr>rq_ctx := withEntry c (e\<lparr>entry_InitQuery := sql\<rparr>)\<rparr>) s"
proof -
  let ?r = "r\<lparr>rq_ctx := withEntry c e\<rparr>" and ?r' = "r\<lparr>rq_ctx := withEntry c (e\<lparr>entry_InitQuery := sql\<rparr>)\<rparr>"
  have az: "checkAuthz srv w ?r = checkAuthz srv w ?r'" by (simp add: checkAuthz_def split: option.split)
  have rp: "readQparamQuery ?r = readQparamQuery ?r'" by (simp add: readQparamQuery_def Let_def)
  have ui: "shouldRedirectToUI srv ?r = shouldRedirectToUI srv ?r'" using rp by (simp add: shouldRedirectToUI_def)
  have gf: "getFormat ?r = getFormat ?r'" by (simp add: getFormat_def Let_def)
  have re: "http_Redirect rel w ?r u k = http_Redirect rel w ?r' u k" for rel u k
    by (simp add: http_Redirect_def Let_def)
  have rb: "read_body n w ?r = read_body n w ?r'" for n w
    by (simp add: read_body_def split: option.split)
  have rq: "readQuery n w ?r = readQuery n w ?r'" for n w
    unfolding readQuery_def rb rp by (rule refl)
  have mc: "manager_Client (sy_mgr s) (rq_ctx ?r) = manager_Client (sy_mgr s) (rq_ctx ?r')"
    by (simp add: manager_Client_def withEntry_def)
  have me: "rq_method ?r = rq_method ?r'" "rq_header ?r = rq_header ?r'" by simp_all
  have run: "runQuery env du cn q f fw w ?r x = runQuery env du cn q f fw w ?r' x" for cn q f fw w x
    unfolding runQuery_def me by (rule refl)
  have reg: "registeredQuery env du conn cid q f fw w ?r s = registeredQuery env du conn cid q f fw w ?r' s"
    for conn cid q f fw w s
    unfolding registeredQuery_def run by (rule refl)
  show ?thesis unfolding handleQuery_def az ui gf re rq mc me reg by (rule refl)
qed

end
