(* ===== verification/Duckserver_Query.thy ===== *)
theory Duckserver_Query
  imports Duckserver_Answers
begin

section \<open>A query, end to end\<close>

text \<open>
  The helper lemmas for the property that a query in CSV is answered in full: what \<open>runQuery\<close> and
  \<open>registeredQuery\<close> of theory \<open>Duckserver\<close> do when the query yields rows.
\<close>

text \<open>The header that was sent does not change when the body is written.\<close>

lemma w_write_keeps_sent:
  "w_status w = Some c \<and> rs_sent (w_resp w) = h \<Longrightarrow> w_write w s = (w', n, err) \<Longrightarrow>
   w_status w' = Some c \<and> rs_sent (w_resp w') = h"
proof -
  assume w: "w_status w = Some c \<and> rs_sent (w_resp w) = h" and "w_write w s = (w', n, err)"
  then have "w_resp w' = fst (rs_write (w_resp w) s)" using w_write_resp [of w s] by simp
  with w show ?thesis by (auto simp: rs_write_def Let_def)
qed

interpretation http_sent: sink_invariant w_write "\<lambda>w. w_status w = Some c \<and> rs_sent (w_resp w) = h"
  by unfold_locales (rule w_write_keeps_sent)

lemma checkAuthz_ok_alive:
  "checkAuthz srv w r = (w1, None) \<Longrightarrow> rs_alive (w_resp w1) = rs_alive (w_resp w)"
  by (auto simp: checkAuthz_def split: option.splits if_splits)

lemma runQuery_csv:
  assumes "we_query env conn (du_query_ctx du) sql world = (world1, Inr \<lparr>rw_types = Inr ts, rw_rows = map Inr vss, rw_err = broken\<rparr>)"
    and "fa_put (we_fmt env) = w_write" and "du_ctx_err du = (\<lambda>k. None)"
    and "ts \<noteq> []" and "list_all (list_all2 csv_value_ok ts) vss"
    and "w_status w = None" and "rs_alive (w_resp w)"
  shows "\<exists>w' body. runQuery env du conn sql CsvFactory (CsvWriter (csv_Create Map.empty)) w r world =
      (w', we_rows_close env conn world1, HOk) \<and>
    w_status w' = Some 200 \<and> rs_body (w_resp w') = rs_body (w_resp w) @ body \<and>
    parse_csv body = Some (map ct_Name ts # map (map2 (cell (fa_sprint (we_fmt env)) ''NULL'') ts) vss) \<and>
    rs_sent (w_resp w') = (rs_header (w_resp w))(''Duckpop-Duration'' \<mapsto> dur_str (du_end du - du_start du),
      ''Content-Type'' \<mapsto> ''text/csv'')"
proof -
  let ?rows = "\<lparr>rw_types = Inr ts, rw_rows = map Inr vss, rw_err = broken\<rparr>"
  let ?dur = "du_end du - du_start du"
  let ?w1 = "if get_first (rq_header r) ''Expect'' = ''100-continue'' then w_write_header w 100 else w"
  let ?w4 = "w_set (w_set (w_query_report ?w1 sql ?dur) ''Duckpop-Duration'' (dur_str ?dur)) ''Content-Type''
      (factory_ContentType CsvFactory)"
  let ?w5 = "w_write_header ?w4 200"
  let ?h = "(rs_header (w_resp w))(''Duckpop-Duration'' \<mapsto> dur_str ?dur, ''Content-Type'' \<mapsto> ''text/csv'')"
  have w4: "w_status ?w4 = None" "rs_header (w_resp ?w4) = ?h" "rs_body (w_resp ?w4) = rs_body (w_resp w)"
    "rs_alive (w_resp ?w4)"
    using assms(6,7) by (simp_all add: csv_ContentType_def)
  then have w5: "w_status ?w5 = Some 200 \<and> rs_sent (w_resp ?w5) = ?h" "rs_body (w_resp ?w5) = rs_body (w_resp w)"
    "rs_alive (w_resp ?w5)"
    by (simp_all add: rs_write_header_def informational_def)
  then have "streaming ?w5" by (simp add: streaming_def body_allowed_def)
  from http_reliable.csv_response_complete [OF assms(2,3) this assms(4,5), of Map.empty broken]
  obtain fw' w' body where wr: "writeRows (we_fmt env) (du_ctx_err du) (CsvWriter (csv_Create Map.empty)) ?w5 ?rows =
      (fw', w', None)" "rs_body (w_resp w') = rs_body (w_resp ?w5) @ body"
    "parse_csv body = Some (map ct_Name ts # map (map2 (cell (fa_sprint (we_fmt env)) (param_Get Map.empty ''null'' ''NULL'')) ts) vss)"
    by blast
  have keep: "w_status w' = Some 200 \<and> rs_sent (w_resp w') = ?h"
    using http_sent.writeRows_keeps [OF assms(2) w5(1) wr(1)] .
  have "runQuery env du conn sql CsvFactory (CsvWriter (csv_Create Map.empty)) w r world =
      (w', we_rows_close env conn world1, HOk)"
    unfolding runQuery_def Let_def assms(1) prod.case sum.case wr(1) by simp
  with wr(2,3) w5(2) keep show ?thesis by (auto simp: param_Get_def)
qed

lemma registeredQuery_csv:
  assumes "we_query env conn (du_query_ctx du) sql (sy_world s) = (world1, Inr \<lparr>rw_types = Inr ts, rw_rows = map Inr vss, rw_err = broken\<rparr>)"
    and "fa_put (we_fmt env) = w_write" and "du_ctx_err du = (\<lambda>k. None)"
    and "ts \<noteq> []" and "list_all (list_all2 csv_value_ok ts) vss"
    and "w_status w = None" and "rs_alive (w_resp w)"
    and "newID (sy_queries s) (du_draws du) = Some (i, rest)"
  shows "\<exists>w' s' body. registeredQuery env du (Some conn) cid sql CsvFactory (CsvWriter (csv_Create Map.empty)) w r s =
      (w', s', HOk) \<and>
    w_status w' = Some 200 \<and> rs_body (w_resp w') = rs_body (w_resp w) @ body \<and>
    parse_csv body = Some (map ct_Name ts # map (map2 (cell (fa_sprint (we_fmt env)) ''NULL'') ts) vss) \<and>
    rs_sent (w_resp w') ''Content-Type'' = Some ''text/csv'' \<and>
    rs_sent (w_resp w') ''Duckpop-Queryid'' = Some (qid_String i)"
proof -
  obtain qdb cs q where add: "Add (sy_queries s) (sy_ctxs s) (du_ctx du) cid sql (du_start du) (du_draws du) =
      Some (qdb, cs, q, rest)" and q: "q_ID q = i"
    using assms(8) Add_Some_iff [of "sy_queries s" "sy_ctxs s" "du_ctx du" cid sql "du_start du" "du_draws du"] by auto
  let ?w1 = "w_set w ''Duckpop-Queryid'' (qid_String (q_ID q))"
  have w1: "w_status ?w1 = None" "rs_alive (w_resp ?w1)" using assms(6,7) by simp_all
  obtain w' body where run: "runQuery env du conn sql CsvFactory (CsvWriter (csv_Create Map.empty)) ?w1 r (sy_world s) =
      (w', we_rows_close env conn world1, HOk)"
    "w_status w' = Some 200" "rs_body (w_resp w') = rs_body (w_resp ?w1) @ body"
    "parse_csv body = Some (map ct_Name ts # map (map2 (cell (fa_sprint (we_fmt env)) ''NULL'') ts) vss)"
    "rs_sent (w_resp w') = (rs_header (w_resp ?w1))(''Duckpop-Duration'' \<mapsto> dur_str (du_end du - du_start du),
      ''Content-Type'' \<mapsto> ''text/csv'')"
    using runQuery_csv [OF assms(1-5) w1, of r] by blast
  obtain qdb1 cs1 where c: "q_Close qdb cs q = (qdb1, cs1)" by fastforce
  have "registeredQuery env du (Some conn) cid sql CsvFactory (CsvWriter (csv_Create Map.empty)) w r s =
      (w', s\<lparr>sy_world := we_rows_close env conn world1, sy_queries := qdb1, sy_ctxs := cs1\<rparr>, HOk)"
    by (simp add: registeredQuery_def add run(1) c)
  with run(2-5) q show ?thesis by auto
qed

end
