(* ===== verification/Duckserver_Conns.thy ===== *)
theory Duckserver_Conns
  imports Duckserver_Query
begin

section \<open>Connections of the server, from the opener to the answer\<close>

text \<open>
  What holds of the connections when \<open>connectDuckDB\<close> and \<open>closeDuckDB\<close> of theory \<open>Duckserver_Db\<close> are the
  opener and closer of the connection manager: two connections share neither a database nor a private
  directory. Then a query in CSV, from the request to the reply.
\<close>

subsection \<open>Handles are allocated\<close>

text \<open>A \<open>*sql.DB\<close> is a pointer that \<open>sql.OpenDB\<close> allocates. \<open>handle_env raw\<close> is the environment \<open>raw\<close>
  with that allocation written out: the world carries the databases opened so far, and a handle is a
  position in this list.\<close>

definition in_world :: "('w \<Rightarrow> 'w \<times> 'r) \<Rightarrow> 'w \<times> 'a \<Rightarrow> ('w \<times> 'a) \<times> 'r" where
  "in_world f wh = (let (w, r) = f (fst wh) in ((w, snd wh), r))"

definition raw_of :: "nat list \<Rightarrow> nat \<Rightarrow> nat" where
  "raw_of hs db = (if db < length hs then hs ! db else 0)"

definition handle_env :: "'w dbenv \<Rightarrow> ('w \<times> nat list) dbenv" where
  "handle_env raw = \<lparr>db_mkdir = (\<lambda>d k. in_world (db_mkdir raw d k)),
     db_remove_all = (\<lambda>d. in_world (db_remove_all raw d)),
     db_duck = \<lparr>dk_open = (\<lambda>d wh. (case dk_open (db_duck raw) d (fst wh) of
           (w, Inl err) \<Rightarrow> ((w, snd wh), Inl err)
         | (w, Inr h) \<Rightarrow> ((w, snd wh @ [h]), Inr (length (snd wh))))),
       dk_conn = (\<lambda>db wh. in_world (dk_conn (db_duck raw) (raw_of (snd wh) db)) wh),
       dk_exec = (\<lambda>c st. in_world (dk_exec (db_duck raw) c st)),
       dk_conn_close = (\<lambda>c. in_world (dk_conn_close (db_duck raw) c)),
       dk_db_close = (\<lambda>db wh. in_world (dk_db_close (db_duck raw) (raw_of (snd wh) db)) wh)\<rparr>,
     db_ping = (\<lambda>c. in_world (db_ping raw c)),
     db_set_max_idle = (\<lambda>db n wh. (db_set_max_idle raw (raw_of (snd wh) db) n (fst wh), snd wh))\<rparr>"

definition handles :: "'w \<times> nat list \<Rightarrow> nat set" where
  "handles wh = {..<length (snd wh)}"

lemma snd_in_world: "snd (fst (in_world f wh)) = snd wh"
  by (simp add: in_world_def split: prod.split)

interpretation alloc_duck: fresh_duck "handle_env raw" handles
  by unfold_locales (auto simp: handle_env_def snd_in_world handles_def split: prod.splits sum.splits)

subsection \<open>Private directories\<close>

text \<open>\<open>below d p\<close>: the path \<open>d\<close> is \<open>p\<close> or a path in the tree under \<open>p\<close>.\<close>

definition below :: "gostr \<Rightarrow> gostr \<Rightarrow> bool" where
  "below d p \<longleftrightarrow> d = p \<or> has_prefix d (p @ ''/'')"

lemma cid_plain: "plain_elem (cid_String i)"
proof -
  have "set (cid_String i) \<subseteq> set ''C_'' \<union> set digit_chars" using cid.show_chars by blast
  then have "CHR ''/'' \<notin> set (cid_String i)" by (auto simp: digit_chars_def)
  then show ?thesis by (simp add: plain_elem_def cid_String_def dotdot_def)
qed

lemma path_elems_plain: "plain_elem c \<Longrightarrow> path_elems c = [c]"
  using path_elems_join [of "[c]"] by simp

lemma plain_not_rooted: "plain_elem c \<Longrightarrow> \<not> is_rooted c"
  by (cases c) (auto simp: plain_elem_def is_rooted_def)

text \<open>The home directory is absolute: its parts, and the directories the server makes of it.\<close>

lemma clean_plain: "list_all plain_elem cs \<Longrightarrow> clean_elems rooted [] cs = cs"
  using clean_elems_append_plain [of cs rooted "[]" "[]"] by simp

lemma Join_rooted:
  assumes "is_rooted root" and "plain_elem c"
  shows "filepath_Join [root, c] = path_str True (clean_comps root @ [c])"
proof -
  have "root \<noteq> []" using assms(1) by (auto simp: is_rooted_def)
  from filepath_Join_plain [OF this, of "[c]"] assms show ?thesis by simp
qed

lemma clean_comps_path_str: "list_all plain_elem cs \<Longrightarrow> clean_comps (path_str True cs) = cs"
proof -
  assume a: "list_all plain_elem cs"
  have "path_elems (path_str True cs) = cs"
    using path_elems_cat [of "[]" "join_with ''/'' cs"] path_elems_join [OF a]
    by (simp add: path_str_def path_elems_def)
  with a show ?thesis by (simp add: clean_comps_def clean_plain)
qed

definition home_prefix :: "gostr \<Rightarrow> gostr" where
  "home_prefix homedir = concat (map (Cons CHR ''/'') (clean_comps homedir)) @ ''/''"

lemma path_str_concat: "cs \<noteq> [] \<Longrightarrow> path_str True cs = concat (map (Cons CHR ''/'') cs)"
  by (cases cs) (simp_all add: path_str_def join_slash)

lemma server_dirs:
  assumes "Server_New ul quote abspath load c = Inr srv" and "abspath (cf_DBHomeDir c) = Inr homedir"
    and "is_rooted homedir"
  shows "sv_dbSharedDir srv = home_prefix homedir @ ''shared''"
    and "private_dir srv i = home_prefix homedir @ ''private/'' @ cid_String i"
    and "AllowedDirectories (sv_dbSettings srv) = []"
proof -
  let ?h = "clean_comps homedir"
  have names: "plain_elem ''shared''" "plain_elem ''private''" by (simp_all add: plain_elem_def dotdot_def)
  have h: "list_all plain_elem ?h" using assms(3) by (rule clean_comps_rooted)
  have srv: "sv_dbSharedDir srv = filepath_Join [homedir, ''shared'']"
    "sv_dbPrivateRoot srv = filepath_Join [homedir, ''private'']"
    "AllowedDirectories (sv_dbSettings srv) = []"
    using assms(1,2) by (auto simp: Server_New_def split: sum.splits)
  show "sv_dbSharedDir srv = home_prefix homedir @ ''shared''"
    using srv(1) Join_rooted [OF assms(3) names(1)] by (simp add: path_str_concat home_prefix_def)
  have root: "sv_dbPrivateRoot srv = path_str True (?h @ [''private''])"
    using srv(2) Join_rooted [OF assms(3) names(2)] by simp
  then have "clean_comps (sv_dbPrivateRoot srv) = ?h @ [''private'']" "is_rooted (sv_dbPrivateRoot srv)"
    using h names clean_comps_path_str [of "?h @ [''private'']"] by (simp_all add: is_rooted_def path_str_def has_prefix_def)
  then show "private_dir srv i = home_prefix homedir @ ''private/'' @ cid_String i"
    using Join_rooted [of "sv_dbPrivateRoot srv", OF _ cid_plain]
    by (simp add: private_dir_def path_str_concat home_prefix_def)
  show "AllowedDirectories (sv_dbSettings srv) = []" by (rule srv(3))
qed

text \<open>No directory that the database of one connection may use has to do with the private directory
  of another.\<close>

lemma allowed_apart:
  assumes "Server_New ul quote abspath load c = Inr srv" and "abspath (cf_DBHomeDir c) = Inr homedir"
    and "is_rooted homedir" and "i \<noteq> j"
  shows "list_all (\<lambda>d. \<not> below (private_dir srv j) d \<and> \<not> below d (private_dir srv j))
    (allowed_dirs srv (private_dir srv i))"
proof -
  note dirs = server_dirs [OF assms(1-3)]
  have pre: "has_prefix (p @ s) (p @ t) = has_prefix s t" for p s t by (simp add: has_prefix_def)
  have cids: "cid_String i \<noteq> cid_String j" using assms(4) by (simp add: cid.show_inject)
  have len: "length (cid_String i) = length (cid_String j)" by (simp add: cid.length_show)
  have "\<not> has_prefix (cid_String j) (cid_String i @ ''/'')" "\<not> has_prefix (cid_String i) (cid_String j @ ''/'')"
    using len by (auto simp: has_prefix_def dest!: arg_cong [where f = length])
  then have "\<not> below (private_dir srv j) (private_dir srv i)" "\<not> below (private_dir srv i) (private_dir srv j)"
    using cids by (simp_all add: below_def dirs(2) pre)
  moreover have "\<not> below (private_dir srv j) (sv_dbSharedDir srv)" "\<not> below (sv_dbSharedDir srv) (private_dir srv j)"
    by (simp_all add: below_def dirs(1,2) pre has_prefix_def)
  ultimately show ?thesis by (simp add: allowed_dirs_def dirs(3))
qed

text \<open>
  C6. Connections have databases and directories of their own. In every state the server's connection
  manager can reach, whatever handlers do and however requests, closings and the opening of databases
  interleave, two connections that both have a database have different databases under different
  identifiers, and no entry of the list \<open>allowed_directories\<close> that the database of one of them is given
  contains, or lies in, the private directory of the other. The home directory is absolute, as
  \<open>filepath.Abs\<close> returns it. DuckDB heeds the list only when \<open>enable_external_access\<close> is off: with
  external access, the default, nothing keeps the database of one connection out of other directories.
\<close>

theorem connections_isolated:
  assumes "Server_New ul quote abspath load cfg = Inr srv" and "abspath (cf_DBHomeDir cfg) = Inr homedir"
    and "is_rooted homedir"
    and "cm_reachable (sqlapi_of (handle_env raw)) may (init_sys (server_manager (handle_env raw) srv) w) s"
    and "Load (connToID (mgr s)) c = Some i" "Load (connToID (mgr s)) d = Some j" "c \<noteq> d"
    and "Load (clients (mgr s)) i = Some r1" "Load (clients (mgr s)) j = Some r2"
    and "heap (mgr s) r1 = Some c1" "heap (mgr s) r2 = Some c2"
    and "cl_db c1 = Some db1" "cl_db c2 = Some db2"
  shows "i \<noteq> j \<and> db1 \<noteq> db2 \<and>
    list_all (\<lambda>p. \<not> below (private_dir srv j) p \<and> \<not> below p (private_dir srv j))
      (allowed_dirs srv (private_dir srv i))"
proof -
  have "i \<noteq> j \<and> r1 \<noteq> r2 \<and> db1 \<noteq> db2"
    using alloc_duck.isolation [OF assms(4) [unfolded server_manager_def] assms(5-13)] .
  with allowed_apart [OF assms(1-3)] show ?thesis by blast
qed

text \<open>Two connections, accepted and then used.\<close>

definition two_conns :: "(entry, nat \<times> nat list) manager \<Rightarrow> (entry, nat \<times> nat list) manager" where
  "two_conns m = m\<lparr>clients := Store (Store sm_zero 5 0) 6 1, connToID := Store (Store sm_zero 7 5) 8 6,
     heap := Map.empty(0 \<mapsto> \<lparr>cl_ctx = with_conn_id background 5, cl_ID = 5, cl_db = None, cl_conn = None\<rparr>,
       1 \<mapsto> \<lparr>cl_ctx = with_conn_id background 6, cl_ID = 6, cl_db = None, cl_conn = None\<rparr>),
     next_ref := 2\<rparr>"

definition two_dbs :: "(entry, nat \<times> nat list) manager \<Rightarrow> (entry, nat \<times> nat list) manager" where
  "two_dbs m = (two_conns m)\<lparr>dbCount := 2,
     heap := Map.empty(0 \<mapsto> \<lparr>cl_ctx = with_conn_id background 5, cl_ID = 5, cl_db = Some 0, cl_conn = Some 0\<rparr>,
       1 \<mapsto> \<lparr>cl_ctx = with_conn_id background 6, cl_ID = 6, cl_db = Some 1, cl_conn = Some 1\<rparr>)\<rparr>"

lemma demo_run_stmts: "run_stmts (db_duck (handle_env demo_dbenv)) conn sts w = (w, None)"
  by (induction sts) (simp_all add: handle_env_def demo_dbenv_def in_world_def)

lemma demo_connect:
  "connectDuckDB (handle_env demo_dbenv) srv ctx (w, hs) = ((Suc w, hs @ [w]), Inr (length hs, w))"
proof -
  have op: "duckdbinit_Open (db_duck (handle_env demo_dbenv)) st qs (w, hs) = ((Suc w, hs @ [w]), Inr (length hs, w))"
    for st qs
  proof -
    have dk: "dk_open (db_duck (handle_env demo_dbenv)) d (w, hs) = ((Suc w, hs @ [w]), Inr (length hs))"
      "dk_conn (db_duck (handle_env demo_dbenv)) (length hs) (Suc w, hs @ [w]) = ((Suc w, hs @ [w]), Inr w)" for d
      by (simp_all add: handle_env_def demo_dbenv_def in_world_def raw_of_def)
    show ?thesis by (simp add: duckdbinit_Open_def settings_init_run demo_run_stmts dk)
  qed
  have mk: "db_mkdir (handle_env demo_dbenv) d k (w, hs) = ((w, hs), None)" for d k
    by (simp add: handle_env_def demo_dbenv_def in_world_def)
  then show ?thesis
    by (auto simp: connectDuckDB_def getPrivateDir_def mk op Let_def split: option.split)
qed

lemma demo_idle: "sql_set_max_idle (sqlapi_of (handle_env demo_dbenv)) db n w = w"
  by (simp add: sqlapi_of_def handle_env_def demo_dbenv_def)

lemma two_conns_reach:
  fixes srv defines "m0 \<equiv> server_manager (handle_env demo_dbenv) srv"
  assumes "MaxDB m0 = 20"
  shows "cm_reachable (sqlapi_of (handle_env demo_dbenv)) any_client (init_sys m0 (0, []))
    (init_sys (two_dbs m0) (2, [0, 1]))"
proof -
  let ?api = "sqlapi_of (handle_env demo_dbenv)"
  let ?m1 = "m0\<lparr>clients := Store sm_zero 5 0, connToID := Store sm_zero 7 5,
     heap := Map.empty(0 \<mapsto> \<lparr>cl_ctx = with_conn_id background 5, cl_ID = 5, cl_db = None, cl_conn = None\<rparr>),
     next_ref := 1\<rparr>"
  let ?m3 = "(two_conns m0)\<lparr>dbCount := 1,
     heap := (heap (two_conns m0))(0 \<mapsto> \<lparr>cl_ctx = with_conn_id background 5, cl_ID = 5, cl_db = Some 0, cl_conn = Some 0\<rparr>)\<rparr>"
  note defs = m0_def server_manager_def new_manager_def two_conns_def two_dbs_def
  have s1: "cm_step ?api any_client (init_sys m0 (0, [])) ((init_sys m0 (0, []))\<lparr>mgr := ?m1\<rparr>)"
    by (rule cm_step.accept [where c = 7 and ctx = background and draws = "[5]" and ref = 0 and rest = "[]"])
      (simp_all add: init_sys_def withNewClient_def defs new_id_loop_eq store_laws)
  have s2: "cm_step ?api any_client (init_sys ?m1 (0, [])) ((init_sys ?m1 (0, []))\<lparr>mgr := two_conns m0\<rparr>)"
    by (rule cm_step.accept [where c = 8 and ctx = background and draws = "[6]" and ref = 1 and rest = "[]"])
      (simp_all add: init_sys_def withNewClient_def defs new_id_loop_eq store_laws)
  have max: "cf_MaxDB (sv_config srv) = 20" using assms(2) by (simp add: defs)
  have "client_Conn ?api (two_conns m0) (0, []) 0 = (?m3, (1, [0]), Inr (Some 0))"
    by (simp add: max client_Conn_def openDB_def defs demo_connect demo_idle)
  then have s3: "cm_step ?api any_client (init_sys (two_conns m0) (0, []))
      ((init_sys (two_conns m0) (0, []))\<lparr>mgr := ?m3, wld := (1, [0])\<rparr>)"
    by (intro cm_step.conn [where ref = 0 and r = "Inr (Some 0)"]) (simp_all add: init_sys_def any_client_def defs)
  have "client_Conn ?api ?m3 (1, [0]) 1 = (two_dbs m0, (2, [0, 1]), Inr (Some 1))"
    by (simp add: max client_Conn_def openDB_def defs demo_connect demo_idle fun_upd_twist)
  then have s4: "cm_step ?api any_client (init_sys ?m3 (1, [0]))
      ((init_sys ?m3 (1, [0]))\<lparr>mgr := two_dbs m0, wld := (2, [0, 1])\<rparr>)"
    by (intro cm_step.conn [where ref = 1 and r = "Inr (Some 1)"]) (simp_all add: init_sys_def any_client_def defs)
  have up: "(init_sys m v)\<lparr>mgr := m', wld := v'\<rparr> = init_sys m' v'" "(init_sys m v)\<lparr>mgr := m'\<rparr> = init_sys m' v"
    "(init_sys m v)\<lparr>wld := v'\<rparr> = init_sys m v'" for m m' v v'
    by (simp_all add: init_sys_def)
  note steps = s1 [unfolded up] s2 [unfolded up] s3 [unfolded up] s4 [unfolded up]
  show ?thesis
    by (rule cm_reachable.step [OF cm_reachable.step [OF cm_reachable.step [OF cm_reachable.step
      [OF cm_reachable.start steps(1)] steps(2)] steps(3)] steps(4)])
qed

theorem connections_isolated_witness:
  "\<exists>srv. Server_New id id Inr (\<lambda>f. Inl []) (DefaultConfig (Inr ''/h'')) = Inr srv \<and>
    \<not> below (private_dir srv 6) (private_dir srv 5)"
proof -
  let ?cfg = "DefaultConfig (Inr ''/h'')"
  obtain srv where srv: "Server_New id id Inr (\<lambda>f. Inl []) ?cfg = Inr srv"
    by (simp add: Server_New_def parseLogFormat_def DefaultConfig_def to_lower_def is_ascii_def ascii_lower_def)
  have "sv_config srv = ?cfg"
    using srv by (auto simp: Server_New_def split: sum.splits)
  then have max: "MaxDB (server_manager (handle_env demo_dbenv) srv) = 20"
    by (simp add: server_manager_def new_manager_def DefaultConfig_def)
  have root: "is_rooted (cf_DBHomeDir ?cfg)"
    by (simp add: DefaultConfig_def getwd_def) code_simp
  have "(5 :: u32) \<noteq> 6 \<and> (0 :: nat) \<noteq> 1 \<and>
    list_all (\<lambda>p. \<not> below (private_dir srv 6) p \<and> \<not> below p (private_dir srv 6))
      (allowed_dirs srv (private_dir srv 5))"
    by (rule connections_isolated [OF srv refl root two_conns_reach [OF max], where c = 7 and d = 8 and ?r1.0 = 0 and ?r2.0 = 1
          and ?c1.0 = "\<lparr>cl_ctx = with_conn_id background 5, cl_ID = 5, cl_db = Some 0, cl_conn = Some 0\<rparr>"
          and ?c2.0 = "\<lparr>cl_ctx = with_conn_id background 6, cl_ID = 6, cl_db = Some 1, cl_conn = Some 1\<rparr>"])
      (simp_all add: init_sys_def two_dbs_def two_conns_def store_laws)
  moreover have "private_dir srv 5 \<in> set (allowed_dirs srv (private_dir srv 5))"
    using server_dirs(2) [OF srv refl root, of 5] by (simp add: allowed_dirs_def)
  ultimately have "\<not> below (private_dir srv 6) (private_dir srv 5)" by (auto simp: list_all_iff)
  with srv show ?thesis by blast
qed

subsection \<open>A query in CSV, from the request to the reply\<close>

text \<open>
  C3. A query in CSV is answered in full. A request that is allowed, with a query in its body, on a
  connection whose database is there or can be opened, for which DuckDB has a result, is answered with
  the status 200, the content type \<open>text/csv\<close> and the identifier of the query; the body parses back to
  the names of the columns and the text of every value, row by row.
\<close>

theorem query_answers_csv:
  assumes "checkAuthz srv w r = (w1, None)" and "rq_method r = ''POST''" and "getFormat r = ''csv''"
    and "rq_body r \<noteq> []" and "int (length (rq_body r)) \<le> cf_MaxBodySize (sv_config srv)" and "rq_body_err r = None"
    and "manager_Client (sy_mgr s) (rq_ctx r) = Inr ref" and "heap (sy_mgr s) ref = Some cl"
    and "client_Conn (sqlapi_of (we_db env)) (sy_mgr s) (sy_world s) ref = (m1, world1, Inr (Some conn))"
    and "newID (sy_queries s) (du_draws du) = Some (i, rest)"
    and "we_query env conn (du_query_ctx du) (rq_body r) world1 = (world2, Inr \<lparr>rw_types = Inr ts, rw_rows = map Inr vss, rw_err = broken\<rparr>)"
    and "fa_put (we_fmt env) = w_write" and "du_ctx_err du = (\<lambda>k. None)"
    and "ts \<noteq> []" and "list_all (list_all2 csv_value_ok ts) vss"
    and "w_status w = None" and "rs_alive (w_resp w)"
  shows "\<exists>w' s' body. handleQuery env srv du w r s = (w', s', HOk) \<and>
    w_status w' = Some 200 \<and> rs_body (w_resp w') = rs_body (w_resp w) @ body \<and>
    parse_csv body = Some (map ct_Name ts # map (map2 (cell (fa_sprint (we_fmt env)) ''NULL'') ts) vss) \<and>
    rs_sent (w_resp w') ''Content-Type'' = Some ''text/csv'' \<and>
    rs_sent (w_resp w') ''Duckpop-Queryid'' = Some (qid_String i)"
proof -
  let ?w3 = "w_set w1 ''Duckpop-Connectionid'' (cid_String (cl_ID cl))"
  let ?s1 = "s\<lparr>sy_mgr := m1, sy_world := world1\<rparr>"
  have w3: "w_status ?w3 = None" "rs_alive (w_resp ?w3)" "rs_body (w_resp ?w3) = rs_body (w_resp w)"
    using checkAuthz_ok_resp [OF assms(1)] checkAuthz_ok_alive [OF assms(1)] assms(16,17) by simp_all
  have ui: "\<not> shouldRedirectToUI srv r" using assms(2) by (simp add: shouldRedirectToUI_def)
  have body: "readQuery (cf_MaxBodySize (sv_config srv)) w1 r = (w1, Inr (rq_body r))"
    using assms(4-6) by (simp add: readQuery_def read_body_def)
  have "handleQuery env srv du w r s =
      registeredQuery env du (Some conn) (cl_ID cl) (rq_body r) CsvFactory (CsvWriter (csv_Create Map.empty)) ?w3 r ?s1"
    using ui by (simp add: handleQuery_def assms(1-3,7-9) body FindAndCreate_csv)
  moreover have "newID (sy_queries ?s1) (du_draws du) = Some (i, rest)" using assms(10) by simp
  moreover have "we_query env conn (du_query_ctx du) (rq_body r) (sy_world ?s1) =
      (world2, Inr \<lparr>rw_types = Inr ts, rw_rows = map Inr vss, rw_err = broken\<rparr>)" using assms(11) by simp
  ultimately show ?thesis
    using registeredQuery_csv [OF _ assms(12-15) w3(1,2), of conn "rq_body r" ?s1 world2 broken i rest "cl_ID cl" r] w3(3) by simp
qed

theorem query_answers_csv_witness:
  "\<exists>w' s'. handleQuery demo_webenv (demo_srv None) demo_during (Plain new_response) (demo_post ''SELECT 1'') demo_sys =
      (w', s', HOk) \<and> w_status w' = Some 200 \<and> parse_csv (rs_body (w_resp w')) = Some [[''a''], [''x,y'']]"
proof -
  let ?r = "demo_post ''SELECT 1''" and ?ts = "[\<lparr>ct_Name = ''a'', ct_DatabaseTypeName = ''VARCHAR''\<rparr>]"
  let ?cl = "\<lparr>cl_ctx = with_conn_id background 5, cl_ID = 5, cl_db = None, cl_conn = None\<rparr> :: entry client"
  have az: "checkAuthz (demo_srv None) (Plain new_response) ?r = (Plain new_response, None)"
    by (simp add: checkAuthz_def demo_srv_simps)
  have req: "rq_method ?r = ''POST''" "getFormat ?r = ''csv''" "rq_body ?r \<noteq> []" "rq_body_err ?r = None"
    by (simp_all add: demo_post_def getFormat_def get_first_def)
  have len: "int (length (rq_body ?r)) \<le> cf_MaxBodySize (sv_config (demo_srv None))"
    by (simp add: demo_srv_simps demo_post_def)
  have mc: "manager_Client (sy_mgr demo_sys) (rq_ctx ?r) = Inr 0" "heap (sy_mgr demo_sys) 0 = Some ?cl"
    by (simp_all add: demo_sys_def demo_manager_def demo_post_def manager_Client_def with_conn_id_def store_laws)
  have run: "run_stmts (db_duck demo_dbenv) conn sts x = (x, None)" for conn sts x
    by (induction sts) (simp_all add: demo_dbenv_def)
  have op: "duckdbinit_Open (db_duck demo_dbenv) st qs x = (Suc x, Inr (x, x))" for st qs x
  proof -
    have dk: "dk_open (db_duck demo_dbenv) d x = (Suc x, Inr x)" "dk_conn (db_duck demo_dbenv) x (Suc x) = (Suc x, Inr x)" for d
      by (simp_all add: demo_dbenv_def)
    show ?thesis by (simp add: duckdbinit_Open_def settings_init_run run dk)
  qed
  have mk: "db_mkdir demo_dbenv d k x = (x, None)" for d k x by (simp add: demo_dbenv_def)
  have co: "connectDuckDB demo_dbenv srv ctx x = (Suc x, Inr (x, x))" for srv ctx x
    by (auto simp: connectDuckDB_def getPrivateDir_def mk op Let_def split: option.split)
  obtain m1 where conn: "client_Conn (sqlapi_of (we_db demo_webenv)) (sy_mgr demo_sys) (sy_world demo_sys) 0 = (m1, 1, Inr (Some 0))"
  proof -
    have idle: "sql_set_max_idle (sqlapi_of demo_dbenv) db n x = x" for db n x
      by (simp add: sqlapi_of_def demo_dbenv_def)
    have "\<exists>m1. client_Conn (sqlapi_of (we_db demo_webenv)) (sy_mgr demo_sys) (sy_world demo_sys) 0 = (m1, 1, Inr (Some 0))"
      by (simp add: client_Conn_def openDB_def demo_sys_def demo_manager_def demo_webenv_def server_manager_def
          new_manager_def demo_srv_def DefaultConfig_def co idle)
    with that show thesis by blast
  qed
  have id: "newID (sy_queries demo_sys) (du_draws demo_during) = Some (1, [])"
    by (simp add: demo_sys_def demo_during_def qd_map_def qd_zero_def)
  have q: "we_query demo_webenv 0 (du_query_ctx demo_during) (rq_body ?r) 1 =
      (1, Inr \<lparr>rw_types = Inr ?ts, rw_rows = map Inr [[GStr ''x,y'']], rw_err = None\<rparr>)"
    by (simp add: demo_webenv_def demo_rows_def)
  have env: "fa_put (we_fmt demo_webenv) = w_write" "du_ctx_err demo_during = (\<lambda>k. None)"
    by (simp_all add: demo_webenv_def demo_fmt_api_def demo_during_def)
  have ok: "?ts \<noteq> []" "list_all (list_all2 csv_value_ok ?ts) [[GStr ''x,y'']]"
    by (simp_all add: csv_value_ok_def)
  have fresh: "w_status (Plain new_response) = None" "rs_alive (w_resp (Plain new_response))"
    by (simp_all add: new_response_def)
  show ?thesis
    using query_answers_csv [OF az req(1,2,3) len req(4) mc conn id q env ok fresh]
    by (auto simp: new_response_def cell_def demo_webenv_def demo_fmt_api_def converter_of_def AnyToStr_def go_sprint_def)
qed

end
