(* ===== verification/Querydb_Props.thy ===== *)
theory Querydb_Props
  imports Querydb
begin

section \<open>What the query database guarantees\<close>

text \<open>
  The properties of \<open>internal/querydb/querydb.go\<close>. A handler adds its query and closes it when it
  returns; a cancel request looks a query up and closes it; both hold the \<open>*Query\<close> they got, and the
  database is locked for each operation only. The steps of any number of such handlers are the
  relation \<open>q_step\<close>.
\<close>

record q_sys =
  qs_db :: querydb
  qs_ctx :: ctxstore
  qs_running :: "query list"
  qs_cancelling :: "query list"

definition q_init :: "ctxstore \<Rightarrow> q_sys" where
  "q_init cs = \<lparr>qs_db = qd_zero, qs_ctx = cs, qs_running = [], qs_cancelling = []\<rparr>"

inductive q_step :: "q_sys \<Rightarrow> q_sys \<Rightarrow> bool" where
  q_add: "Add (qs_db s) (qs_ctx s) ctx cid sql now draws = Some (db, cs, q, rest) \<Longrightarrow>
    q_step s (s\<lparr>qs_db := db, qs_ctx := cs, qs_running := q # qs_running s\<rparr>)"
| q_return: "q \<in> set (qs_running s) \<Longrightarrow> q_Close (qs_db s) (qs_ctx s) q = (db, cs) \<Longrightarrow>
    q_step s (s\<lparr>qs_db := db, qs_ctx := cs, qs_running := remove1 q (qs_running s)\<rparr>)"
| q_lookup: "Query (qs_db s) i = Some q \<Longrightarrow> q_step s (s\<lparr>qs_cancelling := q # qs_cancelling s\<rparr>)"
| q_cancel: "q \<in> set (qs_cancelling s) \<Longrightarrow> q_Close (qs_db s) (qs_ctx s) q = (db, cs) \<Longrightarrow>
    q_step s (s\<lparr>qs_db := db, qs_ctx := cs, qs_cancelling := remove1 q (qs_cancelling s)\<rparr>)"
| q_request: "new_root (qs_ctx s) = (cs, i) \<Longrightarrow> q_step s (s\<lparr>qs_ctx := cs\<rparr>)"
| q_gone: "i < cs_next (qs_ctx s) \<Longrightarrow> i \<notin> q_ctx ` set (qs_running s @ qs_cancelling s) \<Longrightarrow>
    q_step s (s\<lparr>qs_ctx := cancel (qs_ctx s) i\<rparr>)"

inductive q_reachable :: "q_sys \<Rightarrow> q_sys \<Rightarrow> bool" for s0 where
  q_start: "q_reachable s0 s0"
| q_next: "q_reachable s0 s \<Longrightarrow> q_step s t \<Longrightarrow> q_reachable s0 t"

text \<open>The invariant: an entry is stored under its own identifier, belongs to a handler that is still
  running, and its context is one that \<open>Add\<close> made.\<close>

definition q_inv :: "q_sys \<Rightarrow> bool" where
  "q_inv s \<longleftrightarrow>
     (\<forall>i q. qd_map (qs_db s) i = Some q \<longrightarrow> q_ID q = i \<and> q \<in> set (qs_running s)) \<and>
     (\<forall>q \<in> set (qs_running s). q_ctx q < cs_next (qs_ctx s)) \<and>
     distinct (map q_ctx (qs_running s))"

lemma q_inv_close:
  assumes inv: "q_inv s" and c: "q_Close (qs_db s) (qs_ctx s) q = (db, cs)"
  shows "qd_map db = (qd_map (qs_db s))(q_ID q := None)" "cs_next cs = cs_next (qs_ctx s)"
  using q_Close_map [of "qs_db s" "qs_ctx s" q] q_Close_ctx [of "qs_db s" "qs_ctx s" q]
  by (auto simp: c cancel_def)

lemma q_step_inv: "q_step s t \<Longrightarrow> q_inv s \<Longrightarrow> q_inv t"
proof (induction rule: q_step.induct)
  case (q_add s ctx cid sql now draws db cs q rest)
  then obtain i where "q = \<lparr>q_ID = i, q_ConnID = cid, q_Query = sql, q_Start = now, q_ctx = cs_next (qs_ctx s)\<rparr>"
    "db = \<lparr>qd_queries = Some ((qd_map (qs_db s))(i \<mapsto> q))\<rparr>" "cs = fst (WithCancel (qs_ctx s) ctx)"
    by (auto simp: Add_Some_iff)
  with q_add.prems show ?case
    by (fastforce simp: q_inv_def qd_map_def WithCancel_def less_Suc_eq)
next
  case (q_return q s db cs)
  note close = q_inv_close [OF q_return.prems q_return.hyps(2)]
  have "distinct (map q_ctx (remove1 q (qs_running s)))"
    using q_return.prems by (metis distinct_map distinct_remove1 inj_on_subset q_inv_def set_remove1_subset)
  moreover have "q' \<in> set (remove1 q (qs_running s))" if "qd_map db i = Some q'" for i q'
  proof -
    from that close(1) have "i \<noteq> q_ID q" "qd_map (qs_db s) i = Some q'" by (auto split: if_splits)
    with q_return.prems have "q_ID q' = i" "q' \<in> set (qs_running s)" by (auto simp: q_inv_def)
    with \<open>i \<noteq> q_ID q\<close> have "q' \<noteq> q" by auto
    with \<open>q' \<in> set (qs_running s)\<close> show ?thesis by (simp add: in_set_remove1)
  qed
  moreover have "\<forall>q' \<in> set (remove1 q (qs_running s)). q_ctx q' < cs_next cs"
    using q_return.prems close(2) set_remove1_subset unfolding q_inv_def by fastforce
  moreover have "q_ID q' = i" if "qd_map db i = Some q'" for i q'
    using that close(1) q_return.prems by (auto simp: q_inv_def split: if_splits)
  ultimately show ?case by (simp add: q_inv_def)
next
  case (q_lookup s i q)
  then show ?case by (simp add: q_inv_def)
next
  case (q_cancel q s db cs)
  note close = q_inv_close [OF q_cancel.prems q_cancel.hyps(2)]
  with q_cancel.prems show ?case by (auto simp: q_inv_def)
next
  case (q_request s cs i)
  then show ?case by (auto simp: q_inv_def new_root_def intro: less_SucI)
next
  case (q_gone i s)
  then show ?case by (simp add: q_inv_def cancel_def)
qed

lemma q_reachable_inv: "q_reachable s0 s \<Longrightarrow> q_inv s0 \<Longrightarrow> q_inv s"
  by (induction rule: q_reachable.induct) (auto intro: q_step_inv)

lemma q_init_inv: "q_inv (q_init cs)"
  by (simp add: q_inv_def q_init_def)

subsection \<open>The properties\<close>

text \<open>Parsing the printed form of a query identifier gives the identifier back.\<close>

lemma ParseID_String: "ParseID (qid_String i) = Inr i"
proof -
  have "hex8 i \<noteq> []" using length_hex8 [of i] by force
  then show ?thesis unfolding ParseID_Inr_iff qid_String_def using hex_num_hex8 by blast
qed

text \<open>
  What \<open>ParseID\<close> accepts: exactly the tag followed by at least one hexadecimal digit, the value
  of the digits being below \<open>2^32\<close>; a text without the tag is reported as such, and a value that
  is too large as a range error.
\<close>

lemma ParseID_spec:
  "(ParseID s = Inr i \<longleftrightarrow> (\<exists>h. s = ''Q_'' @ h \<and> h \<noteq> [] \<and> hex_num 0 h = Some (unat i))) \<and>
   (ParseID s = Inl NoTag \<longleftrightarrow> \<not> has_prefix s ''Q_'') \<and>
   (hex_num 0 h = Some n \<longrightarrow> 2 ^ 32 \<le> n \<longrightarrow> h \<noteq> [] \<longrightarrow>
      ParseID (''Q_'' @ h) = Inl (NumError ErrRange h))"
proof (intro conjI impI)
  show "ParseID s = Inr i \<longleftrightarrow> (\<exists>h. s = ''Q_'' @ h \<and> h \<noteq> [] \<and> hex_num 0 h = Some (unat i))"
    by (rule ParseID_Inr_iff)
  show "ParseID s = Inl NoTag \<longleftrightarrow> \<not> has_prefix s ''Q_''"
    by (auto simp: ParseID_def split: sum.splits)
  assume h: "hex_num 0 h = Some n" "2 ^ 32 \<le> n" "h \<noteq> []"
  have loop: "parse_hex_loop 4294967295 acc h = Inl ErrRange"
    if "hex_num acc h = Some n" "acc \<le> 4294967295" for acc
    using that
  proof (induction h arbitrary: acc)
    case Nil
    then show ?case using h(2) by simp
  next
    case (Cons c h)
    then show ?case by (auto split: option.splits)
  qed
  from h loop [of 0] show "ParseID (''Q_'' @ h) = Inl (NumError ErrRange h)"
    by (simp add: ParseID_def parse_uint_hex32_def)
qed

text \<open>Closing a registered query removes it from the listing, marks its context as done, leaves every
  other entry alone, and makes a second close a no-op, so the handler's own deferred close does no harm.\<close>

lemma close_cancels_once:
  assumes "Query db (q_ID q) = Some q" and "q_Close db cs q = (db', cs')"
  shows "Query db' (q_ID q) = None \<and> ctx_done cs' (q_ctx q) \<and>
    (i \<noteq> q_ID q \<longrightarrow> Query db' i = Query db i) \<and>
    cs_cancelled cs' = insert (q_ctx q) (cs_cancelled cs) \<and>
    q_Close db' cs' q = (db', cs')"
proof -
  have m: "qd_map db' = (qd_map db)(q_ID q := None)" using q_Close_map [of db cs q] assms(2) by simp
  have c: "cs' = cancel cs (q_ctx q)"
    using q_Close_ctx [of db cs q] assms by (simp add: Query_def)
  have "q_Close db' cs' q = (db', cs')"
    using m by (auto simp: q_Close_def qd_remove_def qd_map_def split: option.splits if_splits)
  then show ?thesis using m c cancel_done by (auto simp: Query_def cancel_def)
qed

definition demo_query :: query where
  "demo_query = \<lparr>q_ID = 1, q_ConnID = 2, q_Query = ''SELECT 1'', q_Start = 0, q_ctx = 0\<rparr>"

text \<open>
  The listing is of running queries. In every state that handlers and cancel requests can
  reach in any order, what \<open>Queries\<close> lists are queries whose handler has not returned, each under its
  own identifier; so when no handler is running the listing is empty.
\<close>

lemma listing_is_running:
  assumes "q_reachable (q_init cs) s" and "iter_order (qd_map (qs_db s)) order"
  shows "set (Queries (qs_db s) order) \<subseteq> set (qs_running s) \<and>
    (\<forall>q \<in> set (Queries (qs_db s) order). Query (qs_db s) (q_ID q) = Some q) \<and>
    (qs_running s = [] \<longrightarrow> Queries (qs_db s) order = [])"
proof -
  have inv: "q_inv s" using q_reachable_inv [OF assms(1) q_init_inv] .
  have set: "set (Queries (qs_db s) order) = ran (qd_map (qs_db s))"
    using assms(2) by (rule Queries_set)
  from inv have "ran (qd_map (qs_db s)) \<subseteq> set (qs_running s)"
    by (auto simp: q_inv_def ran_def)
  moreover have "\<forall>q \<in> ran (qd_map (qs_db s)). Query (qs_db s) (q_ID q) = Some q"
    using inv by (auto simp: q_inv_def ran_def Query_def)
  ultimately show ?thesis using set by (metis set_empty2 subset_empty)
qed

text \<open>
  C33. An identifier that is used again is a hazard. When a query was cancelled and its identifier
  was drawn again for a new one while the first handler still ran, the deferred close of the first
  handler takes the new query out of the listing without cancelling it: it can no longer be listed
  or cancelled by its identifier, and its own close does not cancel it either.
\<close>

theorem stale_close_hits_reused_id:
  assumes "q_ID old = q_ID new" and "Query db (q_ID new) = Some new" and "q_ctx old \<noteq> q_ctx new"
    and "q_Close db cs old = (db1, cs1)" and "q_Close db1 cs1 new = (db2, cs2)"
  shows "Query db1 (q_ID new) = None \<and> db2 = db1 \<and> cs2 = cs1 \<and>
    (q_ctx new \<in> cs_cancelled cs2 \<longleftrightarrow> q_ctx new \<in> cs_cancelled cs)"
proof -
  have m1: "qd_map db1 = (qd_map db)(q_ID new := None)"
    using q_Close_map [of db cs old] assms(1,4) by simp
  have c1: "cs1 = cancel cs (q_ctx old)"
    using q_Close_ctx [of db cs old] assms(1,2,4) by (simp add: Query_def)
  have "q_Close db1 cs1 new = (db1, cs1)"
    using m1 by (auto simp: q_Close_def qd_remove_def qd_map_def split: option.splits if_splits)
  moreover have "q_ctx new \<in> cs_cancelled cs1 \<longleftrightarrow> q_ctx new \<in> cs_cancelled cs"
    using assms(3) by (simp add: c1 cancel_def)
  ultimately show ?thesis using m1 assms(5) by (simp add: Query_def)
qed

theorem stale_close_hits_reused_id_witness:
  "\<exists>db1 cs1. q_Close \<lparr>qd_queries = Some [1 \<mapsto> demo_query]\<rparr> cs_empty (demo_query\<lparr>q_ctx := 7\<rparr>) = (db1, cs1) \<and>
     Query db1 1 = None \<and> 0 \<notin> cs_cancelled cs1"
proof -
  let ?db = "\<lparr>qd_queries = Some [1 \<mapsto> demo_query]\<rparr>" and ?old = "demo_query\<lparr>q_ctx := 7\<rparr>"
  obtain db1 cs1 where c1: "q_Close ?db cs_empty ?old = (db1, cs1)" by fastforce
  obtain db2 cs2 where c2: "q_Close db1 cs1 demo_query = (db2, cs2)" by fastforce
  have "q_ID ?old = q_ID demo_query" "Query ?db (q_ID demo_query) = Some demo_query"
    "q_ctx ?old \<noteq> q_ctx demo_query"
    by (simp_all add: Query_def qd_map_def demo_query_def)
  from stale_close_hits_reused_id [OF this c1 c2] c1 show ?thesis
    by (auto simp: demo_query_def cs_empty_def)
qed

end
