(* ===== verification/Duckserver_Control.thy ===== *)
theory Duckserver_Control
  imports Duckserver_Conns Querydb_Props
begin

section \<open>Control over queries and databases\<close>

text \<open>
  Interrupting a query over HTTP, the answer when the limit of databases is reached, and what the database
  of a connection is told before it is handed out: compositions of routing, handlers, the running
  queries, the connection manager and the initialisation of a database.
\<close>

subsection \<open>Interrupting a query\<close>

lemma qid_plain: "plain_elem (qid_String i)"
proof -
  have "set (qid_String i) \<subseteq> set ''Q_'' \<union> set digit_chars" using qid.show_chars by blast
  then have "CHR ''/'' \<notin> set (qid_String i)" by (auto simp: digit_chars_def)
  then show ?thesis by (simp add: plain_elem_def qid_String_def dotdot_def)
qed

lemma cleanPath_elems: "list_all plain_elem cs \<Longrightarrow> cs \<noteq> [] \<Longrightarrow> cleanPath (path_str True cs) = path_str True cs"
proof -
  assume a: "list_all plain_elem cs" and n: "cs \<noteq> []"
  let ?p = "path_str True cs"
  have p: "?p \<noteq> []" "has_prefix ?p ''/''" "is_rooted ?p" by (simp_all add: path_str_def is_rooted_def has_prefix_def)
  then have c: "path_Clean ?p = ?p" using clean_comps_path_str [OF a] by (simp add: path_Clean_def)
  have "\<not> has_suffix ?p ''/''"
  proof -
    have l: "plain_elem (last cs)" using a n by (simp add: list_all_iff)
    obtain q where "?p = q @ last cs"
    proof (cases "butlast cs = []")
      case True
      with n have "cs = [last cs]" by (metis append_butlast_last_id append_Nil)
      then show thesis using that [of "''/''"] by (metis append.simps(1,2) join_with.simps(2) path_str_def)
    next
      case False
      with n have "?p = (path_str True (butlast cs) @ ''/'') @ last cs"
        using path_str_append [OF False, of True "[last cs]"] by simp
      then show thesis by (rule that)
    qed
    moreover have "last cs \<noteq> []" "CHR ''/'' \<notin> set (last cs)" using l by (simp_all add: plain_elem_def)
    ultimately show ?thesis
      by (auto simp: has_suffix_iff append_eq_append_conv2 append_eq_Cons_conv dest!: arg_cong [where f = last] last_in_set)
  qed
  with p c show ?thesis by (simp add: cleanPath_def Let_def)
qed

lemma interrupt_route:
  "mux_route (routes srv) ''DELETE'' (''/status/queries/'' @ qid_String i) = MuxHandler EpInterruptQuery"
proof -
  let ?cs = "[''status'', ''queries'', qid_String i]"
  have "list_all plain_elem ?cs" using qid_plain by (simp add: plain_elem_def dotdot_def)
  then have "cleanPath (path_str True ?cs) = path_str True ?cs" by (rule cleanPath_elems) simp
  moreover have "path_str True ?cs = ''/status/queries/'' @ qid_String i" by (simp add: path_str_def)
  ultimately have c: "cleanPath (''/status/queries/'' @ qid_String i) = ''/status/queries/'' @ qid_String i" by simp
  have "qid_String i \<noteq> []" "CHR ''/'' \<notin> set (qid_String i)" using qid_plain [of i] by (simp_all add: plain_elem_def)
  then have "mux_find (routes srv) ''DELETE'' (''/status/queries/'' @ qid_String i) = Some EpInterruptQuery"
    by (simp add: mux_find_def routes_def method_matches_def)
  with c show ?thesis by (simp add: mux_route_def Let_def)
qed

text \<open>
  C14. Interrupting. A \<open>DELETE\<close> on \<open>/status/queries/\<close> with the printed identifier of a running query, from
  a request that is allowed, is answered with 204; the query is gone from the listing and its context is
  cancelled, every other query is as it was, and a close of the query by its own handler afterwards does
  nothing.
\<close>

theorem interrupt_cancels:
  assumes "rq_method r = ''DELETE''" and "rq_path r = ''/status/queries/'' @ qid_String i"
    and "checkAuthz srv w r = (w1, None)" and "w_status w = None"
    and "Query (sy_queries s) i = Some q" and "q_ID q = i"
  shows "\<exists>w' qdb cs. mux_handler env ex srv du w r s = (w', s\<lparr>sy_queries := qdb, sy_ctxs := cs\<rparr>, Returned) \<and>
    w_status w' = Some 204 \<and> Query qdb i = None \<and> ctx_done cs (q_ctx q) \<and>
    (\<forall>j. Query qdb j = (if j = i then None else Query (sy_queries s) j)) \<and> q_Close qdb cs q = (qdb, cs)"
proof -
  obtain qdb cs where c: "q_Close (sy_queries s) (sy_ctxs s) q = (qdb, cs)" by fastforce
  have reg: "Query (sy_queries s) (q_ID q) = Some q" using assms(5,6) by simp
  have eff: "Query qdb i = None" "ctx_done cs (q_ctx q)" "q_Close qdb cs q = (qdb, cs)"
    using close_cancels_once [OF reg c] assms(6) by simp_all
  have others: "\<forall>j. Query qdb j = (if j = i then None else Query (sy_queries s) j)"
    using close_cancels_once [OF reg c] assms(6) eff(1) by auto
  have h: "handleInterruptQuery env srv (qid_String i) w r s =
      (w_write_header w1 204, s\<lparr>sy_queries := qdb, sy_ctxs := cs\<rparr>, HOk)"
    by (simp add: handleInterruptQuery_def assms(3,5) ParseID_String c)
  have "drop (length ''/status/queries/'') (rq_path r) = qid_String i" by (simp add: assms(2))
  then have "mux_handler env ex srv du w r s =
      (w_write_header w1 204, s\<lparr>sy_queries := qdb, sy_ctxs := cs\<rparr>, Returned)"
    using interrupt_route [of srv i] unfolding mux_handler_def assms(1,2)
    by (simp add: serve_endpoint_def errorAwareHandler_def h assms(2))
  moreover have "w_status (w_write_header w1 204) = Some 204"
    using checkAuthz_ok_resp [OF assms(3)] assms(4) by (simp add: rs_write_header_def informational_def)
  ultimately show ?thesis using eff others by blast
qed

text \<open>A request that interrupts the query 9, which is running.\<close>

definition demo_delete :: "entry request" where
  "demo_delete = (demo_post [])\<lparr>rq_method := ''DELETE'', rq_path := ''/status/queries/'' @ qid_String 9\<rparr>"

definition running_sys :: "nat sys" where
  "running_sys = demo_sys\<lparr>sy_queries := \<lparr>qd_queries = Some [9 \<mapsto>
     \<lparr>q_ID = 9, q_ConnID = 5, q_Query = ''SELECT 1'', q_Start = 0, q_ctx = 0\<rparr>]\<rparr>\<rparr>"

theorem interrupt_cancels_witness:
  "\<exists>w' qdb cs. mux_handler demo_webenv demo_extern (demo_srv None) demo_during (Plain new_response) demo_delete running_sys =
      (w', running_sys\<lparr>sy_queries := qdb, sy_ctxs := cs\<rparr>, Returned) \<and> w_status w' = Some 204 \<and> ctx_done cs 0"
proof -
  let ?q = "\<lparr>q_ID = 9, q_ConnID = 5, q_Query = ''SELECT 1'', q_Start = 0, q_ctx = 0\<rparr>"
  have "rq_method demo_delete = ''DELETE''" "rq_path demo_delete = ''/status/queries/'' @ qid_String 9"
    by (simp_all add: demo_delete_def)
  moreover have "checkAuthz (demo_srv None) (Plain new_response) demo_delete = (Plain new_response, None)"
    by (simp add: checkAuthz_def demo_srv_simps)
  moreover have "w_status (Plain new_response) = None" by (simp add: new_response_def)
  moreover have "Query (sy_queries running_sys) 9 = Some ?q" "q_ID ?q = 9"
    by (simp_all add: running_sys_def Query_def qd_map_def)
  ultimately have "\<exists>w' qdb cs. mux_handler demo_webenv demo_extern (demo_srv None) demo_during (Plain new_response) demo_delete
        running_sys = (w', running_sys\<lparr>sy_queries := qdb, sy_ctxs := cs\<rparr>, Returned) \<and>
      w_status w' = Some 204 \<and> Query qdb 9 = None \<and> ctx_done cs (q_ctx ?q) \<and>
      (\<forall>j. Query qdb j = (if j = 9 then None else Query (sy_queries running_sys) j)) \<and> q_Close qdb cs ?q = (qdb, cs)"
    by (rule interrupt_cancels)
  then show ?thesis by auto
qed

subsection \<open>The limit, as a client sees it\<close>

text \<open>
  C26. At the limit. A query that is allowed and well-formed, on a connection that has no database yet, is
  answered with 429 and the text of the error when as many databases are open as the limit allows; the
  connections, the databases, the running queries and the world are as before.
\<close>

theorem query_at_limit:
  assumes "checkAuthz srv w r = (w1, None)" and "rq_method r = ''POST''"
    and "readQuery (cf_MaxBodySize (sv_config srv)) w1 r = (w2, Inr sql)"
    and "FindAndCreate (we_lower env) factories (factory_Create (we_fmt env)) (getFormat r) = Inr fw"
    and "manager_Client (sy_mgr s) (rq_ctx r) = Inr ref" and "heap (sy_mgr s) ref = Some cl"
    and "cl_conn cl = None" and "cl_db cl = None" and "MaxDB (sy_mgr s) \<le> dbCount (sy_mgr s)"
    and "w_status w2 = None" and "rs_alive (w_resp w2)" and "rs_body (w_resp w2) = []"
  shows "\<exists>w'. errorAwareHandler fx (handleQuery env srv du) w r s = (w', s, Returned) \<and>
    w_status w' = Some 429 \<and> rs_body (w_resp w') = ''reached maximum number of DB'' @ [CHR 0x0A]"
proof -
  let ?w3 = "w_set w2 ''Duckpop-Connectionid'' (cid_String (cl_ID cl))"
  let ?err = "httperror_Newf 429 (conn_error_text ErrMaxDB) []"
  obtain f g where fw: "fw = (f, g)" by fastforce
  have full: "client_Conn (sqlapi_of (we_db env)) (sy_mgr s) (sy_world s) ref = (sy_mgr s, sy_world s, Inl ErrMaxDB)"
    using client_Conn_full [OF assms(6,9)] assms(7,8) by simp
  have same: "s\<lparr>sy_mgr := sy_mgr s, sy_world := sy_world s\<rparr> = s" by simp
  have "handleQuery env srv du w r s = (?w3, s, HErr ?err)"
    using assms(2) unfolding handleQuery_def Let_def
    by (simp add: shouldRedirectToUI_def assms(1,3-6) fw full same)
  then have h: "errorAwareHandler fx (handleQuery env srv du) w r s = (httperror_Write fx ?w3 ?err, s, Returned)"
    by (simp add: errorAwareHandler_def)
  have w3: "w_status ?w3 = None" "rs_alive (w_resp ?w3)" "rs_body (w_resp ?w3) = []" using assms(10-12) by simp_all
  have msg: "err_text fx ?err = ''reached maximum number of DB''"
    by (simp add: err_text_def httperror_Newf_def http_error_text_def conn_error_text_def sprintf_literal extra_args_def)
  have "w_status (httperror_Write fx ?w3 ?err) = Some 429"
    using w3(1) by (simp add: httperror_Write_status informational_def)
  moreover have "rs_body (w_resp (httperror_Write fx ?w3 ?err)) = ''reached maximum number of DB'' @ [CHR 0x0A]"
    unfolding httperror_Write_eq msg
    using http_Error_fresh_body [of ?w3 429] w3 by (simp add: informational_def body_allowed_def)
  ultimately show ?thesis using h by blast
qed

theorem query_at_limit_witness:
  "\<exists>w'. errorAwareHandler (\<lambda>f args. f) (handleQuery demo_webenv (demo_srv None) demo_during) (Plain new_response)
      (demo_post ''SELECT 1'') (demo_sys\<lparr>sy_mgr := demo_manager\<lparr>dbCount := 20\<rparr>\<rparr>) =
    (w', demo_sys\<lparr>sy_mgr := demo_manager\<lparr>dbCount := 20\<rparr>\<rparr>, Returned) \<and> w_status w' = Some 429"
proof -
  let ?r = "demo_post ''SELECT 1''" and ?s = "demo_sys\<lparr>sy_mgr := demo_manager\<lparr>dbCount := 20\<rparr>\<rparr>"
  let ?cl = "\<lparr>cl_ctx = with_conn_id background 5, cl_ID = 5, cl_db = None, cl_conn = None\<rparr> :: entry client"
  have az: "checkAuthz (demo_srv None) (Plain new_response) ?r = (Plain new_response, None)"
    by (simp add: checkAuthz_def demo_srv_simps)
  have m: "rq_method ?r = ''POST''" "getFormat ?r = ''csv''"
    by (simp_all add: demo_post_def getFormat_def get_first_def)
  have rd: "readQuery (cf_MaxBodySize (sv_config (demo_srv None))) (Plain new_response) ?r = (Plain new_response, Inr ''SELECT 1'')"
    by (simp add: demo_srv_simps demo_post_def readQuery_def read_body_def)
  have mc: "manager_Client (sy_mgr ?s) (rq_ctx ?r) = Inr 0" "heap (sy_mgr ?s) 0 = Some ?cl"
    by (simp_all add: demo_manager_def demo_post_def manager_Client_def with_conn_id_def store_laws)
  have lim: "MaxDB (sy_mgr ?s) \<le> dbCount (sy_mgr ?s)"
    by (simp add: demo_manager_def server_manager_def new_manager_def demo_srv_def DefaultConfig_def)
  have fresh: "w_status (Plain new_response) = None" "rs_alive (w_resp (Plain new_response))"
    "rs_body (w_resp (Plain new_response)) = []"
    by (simp_all add: new_response_def)
  have "cl_conn ?cl = None" "cl_db ?cl = None" by simp_all
  from query_at_limit [OF az m(1) rd FindAndCreate_csv [folded m(2)] mc this lim fresh] show ?thesis by blast
qed

subsection \<open>What the database of a connection is told\<close>

text \<open>\<open>Open\<close> succeeded: the statements, in two runs, the second of which ignores its errors.\<close>

lemma Open_statements:
  assumes "duckdbinit_Open dk s qs w = (w', Inr (db, conn))"
  shows "\<exists>w1 w2. run_stmts dk conn (apply_stmts s @ query_stmts qs) w1 = (w2, None) \<and>
    w' = fst (run_stmts dk conn (lock_stmts s) w2)"
  using assms
  by (auto simp: duckdbinit_Open_def settings_init_run Let_def split: prod.splits sum.splits option.splits)

lemma apply_stmts_split:
  assumes "AllowedDirectories s \<noteq> []"
  shows "apply_stmts s = map (\<lambda>(name, v). set_global name v) (filter (\<lambda>(name, v). \<not> is_zero v)
      [(''threads'', VInt (Threads s)), (''memory_limit'', VStr (MemoryLimit s)),
       (''extension_directory'', VStr (ExtensionDir s)), (''secret_directory'', VStr (SecretDir s)),
       (''temp_directory'', VStr (TempDir s)), (''max_temp_directory_size'', VStr (MaxTempDirSize s))]) @
    [set_global ''allowed_directories'' (VStrs (AllowedDirectories s))]"
  using assms by (simp add: apply_stmts_def setting_values_def)

text \<open>
  C7. What the database of a connection is told. When a database could be opened for the connection
  \<open>i\<close>, it was told the resource limits and directories of the configuration that are not zero values, then
  that the allowed directories are the shared directory and the private directory of \<open>i\<close>; then the macros
  for the two directories and the server's initialisation query were executed. All of these succeeded.
  The last statements are the one that turns external access off, if the configuration says so, and the
  one that locks the configuration, if it says so and the other one did not fail; whether these two
  succeed is not looked at.
\<close>

theorem database_is_told:
  assumes "Server_New ul quote abspath load cfg = Inr srv" and "abspath (cf_DBHomeDir cfg) = Inr homedir"
    and "is_rooted homedir" and "GetID ctx = Some i" and "AuthnEntry ctx = None"
    and "connectDuckDB env srv ctx w = (w', Inr (db, conn))"
  shows "\<exists>w1 w2. run_stmts (db_duck env) conn
      (map (\<lambda>(name, v). set_global name v) (filter (\<lambda>(name, v). \<not> is_zero v)
         [(''threads'', VInt (cf_DBThreads cfg)), (''memory_limit'', VStr (cf_DBMemoryLimit cfg)),
          (''extension_directory'', VStr (filepath_Join [homedir, ''extensions''])),
          (''secret_directory'', VStr (filepath_Join [homedir, ''stored_secrets''])),
          (''temp_directory'', VStr (filepath_Join [homedir, ''tmp''])),
          (''max_temp_directory_size'', VStr (cf_DBMaxTempDirSize cfg))]) @
       [set_global ''allowed_directories'' (VStrs [sv_dbSharedDir srv, private_dir srv i])] @
       query_stmts ([macro_query ''public_dir'' (sv_dbSharedDir srv), macro_query ''private_dir'' (private_dir srv i)] @
         [cf_DBInitQuery cfg])) w1 = (w2, None) \<and>
    w' = (let (w3, err) = (if cf_DBExternalAccess cfg then (w2, None)
              else dk_exec (db_duck env) conn (set_global ''enable_external_access'' (VBool False)) w2) in
          if err = None \<and> cf_DBLockConfig cfg
          then fst (dk_exec (db_duck env) conn (set_global ''lock_configuration'' (VBool True)) w3) else w3)"
proof -
  note dirs = server_dirs [OF assms(1-3)]
  have srv: "sv_dbPrivateRoot srv = filepath_Join [homedir, ''private'']" "sv_dbInitQuery srv = cf_DBInitQuery cfg"
    and set: "sv_dbSettings srv = \<lparr>HomeDir = homedir, Threads = cf_DBThreads cfg, MemoryLimit = cf_DBMemoryLimit cfg,
       ExtensionDir = filepath_Join [homedir, ''extensions''], SecretDir = filepath_Join [homedir, ''stored_secrets''],
       TempDir = filepath_Join [homedir, ''tmp''], MaxTempDirSize = cf_DBMaxTempDirSize cfg, AllowedDirectories = [],
       EnableExternalAccess = cf_DBExternalAccess cfg, LockConfig = cf_DBLockConfig cfg\<rparr>"
    using assms(1,2) by (auto simp: Server_New_def split: sum.splits)
  have root: "sv_dbPrivateRoot srv \<noteq> []"
    using Join_rooted [OF assms(3), of "''private''"] srv(1)
    by (simp add: plain_elem_def dotdot_def path_str_def)
  have shared: "sv_dbSharedDir srv \<noteq> []" "private_dir srv i \<noteq> []" by (simp_all add: dirs)
  let ?s = "(sv_dbSettings srv)\<lparr>AllowedDirectories := [sv_dbSharedDir srv, private_dir srv i]\<rparr>"
  have allowed: "allowed_dirs srv (private_dir srv i) = [sv_dbSharedDir srv, private_dir srv i]"
    using shared by (simp add: allowed_dirs_def dirs(3))
  obtain w0 where "duckdbinit_Open (db_duck env) ?s (conn_queries srv ctx (private_dir srv i)) w0 = (w', Inr (db, conn))"
    using assms(6) root
    by (auto simp: connectDuckDB_def getPrivateDir_def assms(4) Let_def allowed split: prod.splits option.splits sum.splits if_splits)
  from Open_statements [OF this] obtain w1 w2
    where run: "run_stmts (db_duck env) conn (apply_stmts ?s @ query_stmts (conn_queries srv ctx (private_dir srv i))) w1 = (w2, None)"
    and w': "w' = fst (run_stmts (db_duck env) conn (lock_stmts ?s) w2)" by blast
  have sel: "Threads ?s = cf_DBThreads cfg" "MemoryLimit ?s = cf_DBMemoryLimit cfg"
    "ExtensionDir ?s = filepath_Join [homedir, ''extensions'']" "SecretDir ?s = filepath_Join [homedir, ''stored_secrets'']"
    "TempDir ?s = filepath_Join [homedir, ''tmp'']" "MaxTempDirSize ?s = cf_DBMaxTempDirSize cfg"
    "AllowedDirectories ?s = [sv_dbSharedDir srv, private_dir srv i]"
    by (simp_all add: set)
  then have "AllowedDirectories ?s \<noteq> []" by simp
  note pre = apply_stmts_split [OF this, unfolded sel]
  have qs: "query_stmts (conn_queries srv ctx (private_dir srv i)) =
      query_stmts ([macro_query ''public_dir'' (sv_dbSharedDir srv), macro_query ''private_dir'' (private_dir srv i)] @
        [cf_DBInitQuery cfg])"
    using shared by (simp add: conn_queries_def assms(5) srv(2) query_stmts_def macro_query_def)
  have lock: "w' = (let (w3, err) = (if cf_DBExternalAccess cfg then (w2, None)
              else dk_exec (db_duck env) conn (set_global ''enable_external_access'' (VBool False)) w2) in
          if err = None \<and> cf_DBLockConfig cfg
          then fst (dk_exec (db_duck env) conn (set_global ''lock_configuration'' (VBool True)) w3) else w3)"
    unfolding w' set by (auto simp: run_lock_stmts Let_def split: prod.split)
  show ?thesis using run lock unfolding pre qs append.assoc by blast
qed

theorem database_is_told_witness:
  "\<exists>srv w1 w2. Server_New id id Inr (\<lambda>f. Inl []) ((DefaultConfig (Inr ''/h''))\<lparr>cf_DBExternalAccess := False\<rparr>) = Inr srv \<and>
    run_stmts (db_duck (handle_env demo_dbenv)) 0
      ([set_global ''threads'' (VInt 1), set_global ''memory_limit'' (VStr ''1GiB''),
        set_global ''extension_directory'' (VStr (filepath_Join [cf_DBHomeDir (DefaultConfig (Inr ''/h'')), ''extensions''])),
        set_global ''secret_directory'' (VStr (filepath_Join [cf_DBHomeDir (DefaultConfig (Inr ''/h'')), ''stored_secrets''])),
        set_global ''temp_directory'' (VStr (filepath_Join [cf_DBHomeDir (DefaultConfig (Inr ''/h'')), ''tmp''])),
        set_global ''max_temp_directory_size'' (VStr ''10GiB'')] @
       [set_global ''allowed_directories'' (VStrs [sv_dbSharedDir srv, private_dir srv 5])] @
       query_stmts ([macro_query ''public_dir'' (sv_dbSharedDir srv), macro_query ''private_dir'' (private_dir srv 5)] @ [[]])) w1 =
      (w2, None)"
proof -
  let ?cfg = "(DefaultConfig (Inr ''/h''))\<lparr>cf_DBExternalAccess := False\<rparr>"
  obtain srv where srv: "Server_New id id Inr (\<lambda>f. Inl []) ?cfg = Inr srv"
    by (simp add: Server_New_def parseLogFormat_def DefaultConfig_def to_lower_def is_ascii_def ascii_lower_def)
  have root: "is_rooted (cf_DBHomeDir ?cfg)" by (simp add: DefaultConfig_def getwd_def) code_simp
  have c: "GetID (with_conn_id background 5 :: entry ctx) = Some 5" "AuthnEntry (with_conn_id background 5) = None"
    "cf_DBInitQuery ?cfg = []" "cf_DBThreads ?cfg = 1" "cf_DBMemoryLimit ?cfg = ''1GiB''" "cf_DBMaxTempDirSize ?cfg = ''10GiB''"
    "cf_DBHomeDir ?cfg = cf_DBHomeDir (DefaultConfig (Inr ''/h''))"
    by (simp_all add: GetID_def AuthnEntry_def with_conn_id_def background_def DefaultConfig_def)
  have joined: "filepath_Join [cf_DBHomeDir (DefaultConfig (Inr ''/h'')), ''extensions''] \<noteq> []"
    "filepath_Join [cf_DBHomeDir (DefaultConfig (Inr ''/h'')), ''stored_secrets''] \<noteq> []"
    "filepath_Join [cf_DBHomeDir (DefaultConfig (Inr ''/h'')), ''tmp''] \<noteq> []"
    by code_simp+
  from database_is_told [OF srv refl root c(1,2) demo_connect [of srv "with_conn_id background 5" 0 "[]"]] srv
  show ?thesis using joined unfolding c(3-7) by auto
qed

end
