(* ===== verification/Duckserver_Steps.thy ===== *)
theory Duckserver_Steps
  imports Duckserver_Control
begin

section \<open>duckserver: requests that run at the same time\<close>

text \<open>
  \<open>handleQuery\<close> of \<open>duckserver/duckserver.go\<close> takes time: between its statements other requests are
  handled, connections come and go, and its query may be interrupted. Here a query request is admitted
  (everything up to \<open>queryDatabase.Add\<close>) and then runs in steps: the query is executed and the status
  sent; each look at the context is a step of its own and so is the write of the header or of the row that
  follows it; the deferred calls end it. The whole server takes one such step of one request at a time, or
  handles an interrupt, or a connection is accepted or changes its state, or a close goroutine goes on.
\<close>

subsection \<open>Admitting a query\<close>

text \<open>\<open>handleQuery\<close> up to the point where it has a connection of the database.\<close>

definition admitQuery ::
  "('fld, 'rec, 'enc, 't, 'w) webenv \<Rightarrow> server \<Rightarrow> writer \<Rightarrow> entry request \<Rightarrow> 'w sys
   \<Rightarrow> (writer \<times> 'w sys \<times> hresult) +
      (nat option \<times> u32 \<times> gostr \<times> factory \<times> ('enc, 't) fwriter \<times> writer \<times> 'w sys)" where
  "admitQuery env srv w r s =
     (if shouldRedirectToUI srv r then Inl (http_Redirect (we_rel env) w r ''/ui/'' 307, s, HOk)
      else (case checkAuthz srv w r of
          (w1, Some err) \<Rightarrow> Inl (w1, s, HErr err)
        | (w1, None) \<Rightarrow>
            if rq_method r \<noteq> ''GET'' \<and> rq_method r \<noteq> ''POST'' then Inl (w1, s, HErr (httperror_New 404))
            else (case readQuery (cf_MaxBodySize (sv_config srv)) w1 r of
                (w2, Inl MaxBytes) \<Rightarrow> Inl (w2, s, HOk)
              | (w2, Inl err) \<Rightarrow> Inl (w2, s, HErr (httperror_Newf 400 ''No queries: %s'' [read_error_text err]))
              | (w2, Inr sql) \<Rightarrow>
                  (case FindAndCreate (we_lower env) factories (factory_Create (we_fmt env)) (getFormat r) of
                     Inl err \<Rightarrow>
                       Inl (w2, s, HErr (httperror_Newf 400 ''Unsupported format: %s''
                          [format_error_text (we_show_params env) err]))
                   | Inr (factory, fw) \<Rightarrow>
                       (case manager_Client (sy_mgr s) (rq_ctx r) of
                          Inl err \<Rightarrow>
                            Inl (w2, s, HErr (httperror_Newf 500 ''No associated DB: %s'' [conn_error_text err]))
                        | Inr ref \<Rightarrow>
                            (case heap (sy_mgr s) ref of
                               None \<Rightarrow> Inl (w2, s, HPanic)
                             | Some cl \<Rightarrow>
                                 (let w3 = w_set w2 ConnectionIDHeader (cid_String (cl_ID cl));
                                      (m1, world1, cres) =
                                        client_Conn (sqlapi_of (we_db env)) (sy_mgr s) (sy_world s) ref;
                                      s1 = s\<lparr>sy_mgr := m1, sy_world := world1\<rparr> in
                                  case cres of
                                    Inl err \<Rightarrow>
                                      Inl (if err = ErrMaxDB then
                                         (w3, s1, HErr (httperror_Newf 429 (conn_error_text err) []))
                                       else (w3, s1, HErr (httperror_Newf 500 ''Failed to connect DB: %s''
                                          [conn_error_text err])))
                                  | Inr conn \<Rightarrow> Inr (conn, cl_ID cl, sql, factory, fw, w3, s1))))))))"

lemma handleQuery_admit:
  "handleQuery env srv du w r s =
     (case admitQuery env srv w r s of
        Inl out \<Rightarrow> out
      | Inr (conn, cid, sql, factory, fw, w3, s1) \<Rightarrow> registeredQuery env du conn cid sql factory fw w3 r s1)"
  unfolding handleQuery_def admitQuery_def
  by (simp add: Let_def split: prod.split option.split sum.split read_error.split)

subsection \<open>A query that is running\<close>

text \<open>Where the handler is: before \<open>QueryContext\<close>; with the rows and the status sent, before the first look
  at the context; past it, before the header; with the header written, before the second look; at the head
  of the loop over the rows; in the loop, past its look, before \<open>Scan\<close> and \<open>WriteBody\<close>; with the result it is
  going to return.\<close>

datatype run_phase =
    Registered
  | Answering rows
  | HeaderNext rows
  | HeaderWritten rows
  | Writing "(gostr + goval list) list"
  | RowNext "gostr + goval list" "(gostr + goval list) list"
  | Ending hresult

text \<open>\<open>rn_written\<close> is not in the code: it counts the calls of \<open>WriteHeader\<close> and \<open>WriteBody\<close>.\<close>

record ('enc, 't) running =
  rn_req :: "entry request"
  rn_query :: query
  rn_conn :: "nat option"
  rn_factory :: factory
  rn_fw :: "('enc, 't) fwriter"
  rn_w :: writer
  rn_phase :: run_phase
  rn_written :: nat

definition start_run ::
  "entry request \<Rightarrow> query \<Rightarrow> nat option \<Rightarrow> factory \<Rightarrow> ('enc, 't) fwriter \<Rightarrow> writer \<Rightarrow> ('enc, 't) running" where
  "start_run r q conn factory fw w =
     \<lparr>rn_req = r, rn_query = q, rn_conn = conn, rn_factory = factory, rn_fw = fw,
      rn_w = w_set w QueryIDHeader (qid_String (q_ID q)), rn_phase = Registered, rn_written = 0\<rparr>"

text \<open>What \<open>ctx.Err\<close> returns for the context of a query.\<close>

definition ctx_look :: "ctxstore \<Rightarrow> query \<Rightarrow> gostr option" where
  "ctx_look cs q = (if ctx_done cs (query_Context q) then Some ''context canceled'' else None)"

text \<open>\<open>writeRows\<close> is over: the rows are closed, and its error is the one of the handler.\<close>

definition serialized :: "write_error option \<Rightarrow> hresult" where
  "serialized werr =
     (case werr of
        None \<Rightarrow> HOk
      | Some e \<Rightarrow> if e = WPanic then HPanic
                  else HErr (httperror_Newf 500 ''Serialization error: %s'' [write_error_text e]))"

definition end_run ::
  "('fld, 'rec, 'enc, 't, 'w) webenv \<Rightarrow> ('enc, 't) running \<Rightarrow> write_error option \<Rightarrow> 'w
   \<Rightarrow> ('enc, 't) running \<times> 'w" where
  "end_run env run werr world =
     (run\<lparr>rn_phase := Ending (serialized werr)\<rparr>,
      case rn_conn run of None \<Rightarrow> world | Some conn \<Rightarrow> we_rows_close env conn world)"

text \<open>The query is executed; \<open>look\<close> is what its context says by then.\<close>

definition exec_run ::
  "('fld, 'rec, 'enc, 't, 'w) webenv \<Rightarrow> int \<Rightarrow> gostr option \<Rightarrow> ('enc, 't) running \<Rightarrow> 'w
   \<Rightarrow> ('enc, 't) running \<times> 'w" where
  "exec_run env now look run world =
     (case rn_conn run of
        None \<Rightarrow> (run\<lparr>rn_phase := Ending HPanic\<rparr>, world)
      | Some conn \<Rightarrow>
          (let w = rn_w run; sql = q_Query (rn_query run);
               w1 = (if get_first (rq_header (rn_req run)) ''Expect'' = ''100-continue'' then w_write_header w 100 else w);
               (world1, res) = we_query env conn look sql world;
               dur = now - q_Start (rn_query run);
               w2 = w_query_report w1 sql dur;
               w3 = w_set w2 DurationHeader (dur_str dur) in
           case res of
             Inl err \<Rightarrow>
               (run\<lparr>rn_w := w3, rn_phase := Ending (HErr
                  (if qe_cancelled err then httperror_Newf 504 (qe_text err) []
                   else if \<not> qe_duckdb err then httperror_Newf 500 ''DB error: %s'' [qe_text err]
                   else httperror_Newf 400 ''Query error: %s'' [qe_text err]))\<rparr>, world1)
           | Inr rows \<Rightarrow>
               (let w4 = w_set w3 ''Content-Type'' (factory_ContentType (rn_factory run)) in
                (run\<lparr>rn_w := w_write_header w4 200, rn_phase := Answering rows\<rparr>, world1))))"

text \<open>The loop over the rows is left, because \<open>rows.Next\<close> returned false.\<close>

definition flush_run ::
  "('fld, 'rec, 'enc, 't, 'w) webenv \<Rightarrow> ('enc, 't) running \<Rightarrow> 'w \<Rightarrow> ('enc, 't) running \<times> 'w" where
  "flush_run env run world =
     (let (fw, w, werr) = fw_Flush (we_fmt env) (rn_fw run) (rn_w run) in
      end_run env (run\<lparr>rn_fw := fw, rn_w := w\<rparr>) werr world)"

text \<open>
  One step. \<open>look\<close> is what the context says at that moment. \<open>seen\<close> says whether \<open>database/sql\<close>, which watches
  the context in a goroutine of its own, has closed the rows because the context is done: then \<open>Next\<close> returns
  false, and \<open>ColumnTypes\<close> and \<open>Scan\<close> return the error of the context. A handler that is ending has no step.
\<close>

definition rows_closed :: "gostr option \<Rightarrow> bool \<Rightarrow> gostr option" where
  "rows_closed look seen = (if seen then look else None)"

definition run_step ::
  "('fld, 'rec, 'enc, 't, 'w) webenv \<Rightarrow> int \<Rightarrow> gostr option \<Rightarrow> bool \<Rightarrow> ('enc, 't) running \<Rightarrow> 'w
   \<Rightarrow> (('enc, 't) running \<times> 'w) option" where
  "run_step env now look seen run world =
     (case rn_phase run of
        Registered \<Rightarrow> Some (exec_run env now look run world)
      | Answering rows \<Rightarrow>
          Some (case look of
             Some err \<Rightarrow> end_run env run (Some (WriteFailed err)) world
           | None \<Rightarrow> (run\<lparr>rn_phase := HeaderNext rows\<rparr>, world))
      | HeaderNext rows \<Rightarrow>
          Some (case rows_closed look seen of
             Some err \<Rightarrow> end_run env run (Some (WriteFailed err)) world
           | None \<Rightarrow>
               (case rw_types rows of
                  Inl err \<Rightarrow> end_run env run (Some (WriteFailed err)) world
                | Inr columnTypes \<Rightarrow>
                    (let (fw, w, werr) = fw_WriteHeader (we_fmt env) (rn_fw run) (rn_w run) columnTypes;
                         run1 = run\<lparr>rn_fw := fw, rn_w := w, rn_written := Suc (rn_written run)\<rparr> in
                     case werr of
                       Some err \<Rightarrow> end_run env run1 (Some err) world
                     | None \<Rightarrow> (run1\<lparr>rn_phase := HeaderWritten rows\<rparr>, world))))
      | HeaderWritten rows \<Rightarrow>
          Some (case look of
             Some err \<Rightarrow> end_run env run (Some (WriteFailed err)) world
           | None \<Rightarrow> (run\<lparr>rn_phase := Writing (rw_rows rows)\<rparr>, world))
      | Writing [] \<Rightarrow> Some (flush_run env run world)
      | Writing (row # rest) \<Rightarrow>
          Some (if rows_closed look seen \<noteq> None then flush_run env run world
                else (case look of
                   Some err \<Rightarrow> end_run env run (Some (WriteFailed err)) world
                 | None \<Rightarrow> (run\<lparr>rn_phase := RowNext row rest\<rparr>, world)))
      | RowNext row rest \<Rightarrow>
          Some (case rows_closed look seen of
             Some err \<Rightarrow> end_run env run (Some (WriteFailed err)) world
           | None \<Rightarrow>
               (case row of
                  Inl err \<Rightarrow> end_run env run (Some (WriteFailed err)) world
                | Inr values \<Rightarrow>
                    (let (fw, w, werr) = fw_WriteBody (we_fmt env) (rn_fw run) (rn_w run) values;
                         run1 = run\<lparr>rn_fw := fw, rn_w := w, rn_written := Suc (rn_written run)\<rparr> in
                     case werr of
                       Some err \<Rightarrow> end_run env run1 (Some err) world
                     | None \<Rightarrow> (run1\<lparr>rn_phase := Writing rest\<rparr>, world))))
      | Ending res \<Rightarrow> None)"

subsection \<open>The server\<close>

text \<open>\<open>st_run\<close> has the query handlers that have not returned, \<open>st_pend\<close> the clients whose close goroutine
  has not begun, \<open>st_ending\<close> those whose goroutine has counted down and is closing the database,
  \<open>st_cancelling\<close> the queries that an interrupt has looked up and not closed yet.\<close>

record ('enc, 't, 'w) srv_state =
  st_sys :: "'w sys"
  st_run :: "nat \<Rightarrow> ('enc, 't) running option"
  st_pend :: "nat list"
  st_ending :: "nat list"
  st_cancelling :: "query list"

definition srv_init :: "'w sys \<Rightarrow> ('enc, 't, 'w) srv_state" where
  "srv_init s = \<lparr>st_sys = s, st_run = Map.empty, st_pend = [], st_ending = [], st_cancelling = []\<rparr>"

inductive srv_step ::
  "('fld, 'rec, 'enc, 't, 'w) webenv \<Rightarrow> server \<Rightarrow> ('enc, 't, 'w) srv_state \<Rightarrow> ('enc, 't, 'w) srv_state \<Rightarrow> bool"
  for env :: "('fld, 'rec, 'enc, 't, 'w) webenv" and srv :: server where
  st_accept: "Load (connToID (sy_mgr (st_sys s))) c = None \<Longrightarrow>
    withNewClient (sy_mgr (st_sys s)) ctx c draws = Some (m, ref, rest) \<Longrightarrow>
    srv_step env srv s (s\<lparr>st_sys := (st_sys s)\<lparr>sy_mgr := m\<rparr>\<rparr>)"
| st_request: "new_root (sy_ctxs (st_sys s)) = (cs, i) \<Longrightarrow>
    srv_step env srv s (s\<lparr>st_sys := (st_sys s)\<lparr>sy_ctxs := cs\<rparr>\<rparr>)"
| st_client_gone: "i < cs_next (sy_ctxs (st_sys s)) \<Longrightarrow> map_of (cs_parent (sy_ctxs (st_sys s))) i = None \<Longrightarrow>
    srv_step env srv s (s\<lparr>st_sys := (st_sys s)\<lparr>sy_ctxs := cancel (sy_ctxs (st_sys s)) i\<rparr>\<rparr>)"
| st_refuse: "admitQuery env srv w r (st_sys s) = Inl (w', sys, res) \<Longrightarrow>
    srv_step env srv s (s\<lparr>st_sys := sys\<rparr>)"
| st_admit: "st_run s t = None \<Longrightarrow>
    admitQuery env srv w r (st_sys s) = Inr (conn, cid, sql, factory, fw, w1, sys) \<Longrightarrow>
    Add (sy_queries sys) (sy_ctxs sys) ctx cid sql now draws = Some (qdb, cs, q, rest) \<Longrightarrow>
    srv_step env srv s (s\<lparr>st_sys := sys\<lparr>sy_queries := qdb, sy_ctxs := cs\<rparr>,
      st_run := (st_run s)(t \<mapsto> start_run r q conn factory fw w1)\<rparr>)"
| st_run: "st_run s t = Some run \<Longrightarrow>
    run_step env now (ctx_look (sy_ctxs (st_sys s)) (rn_query run)) seen run (sy_world (st_sys s)) = Some (run', world) \<Longrightarrow>
    srv_step env srv s (s\<lparr>st_sys := (st_sys s)\<lparr>sy_world := world\<rparr>, st_run := (st_run s)(t \<mapsto> run')\<rparr>)"
| st_return: "st_run s t = Some run \<Longrightarrow> rn_phase run = Ending res \<Longrightarrow>
    q_Close (sy_queries (st_sys s)) (sy_ctxs (st_sys s)) (rn_query run) = (qdb, cs) \<Longrightarrow>
    srv_step env srv s (s\<lparr>st_sys := (st_sys s)\<lparr>sy_queries := qdb, sy_ctxs := cs\<rparr>, st_run := (st_run s)(t := None)\<rparr>)"
| st_interrupt: "handleInterruptQuery env srv queryID w r (st_sys s) = (w', sys, res) \<Longrightarrow>
    srv_step env srv s (s\<lparr>st_sys := sys\<rparr>)"
| st_lookup: "Query (sy_queries (st_sys s)) i = Some q \<Longrightarrow>
    srv_step env srv s (s\<lparr>st_cancelling := q # st_cancelling s\<rparr>)"
| st_cancel: "q \<in> set (st_cancelling s) \<Longrightarrow>
    q_Close (sy_queries (st_sys s)) (sy_ctxs (st_sys s)) q = (qdb, cs) \<Longrightarrow>
    srv_step env srv s (s\<lparr>st_sys := (st_sys s)\<lparr>sy_queries := qdb, sy_ctxs := cs\<rparr>,
      st_cancelling := remove1 q (st_cancelling s)\<rparr>)"
| st_conn_state: "ConnState (sy_mgr (st_sys s)) c cst = (m, spawned, unknown) \<Longrightarrow>
    srv_step env srv s (s\<lparr>st_sys := (st_sys s)\<lparr>sy_mgr := m\<rparr>,
      st_pend := (case spawned of None \<Rightarrow> st_pend s | Some ref \<Rightarrow> ref # st_pend s)\<rparr>)"
| st_close_count: "ref \<in> set (st_pend s) \<Longrightarrow>
    client_close_count (sqlapi_of (we_db env)) (sy_mgr (st_sys s)) (sy_world (st_sys s)) ref = (m, world, err) \<Longrightarrow>
    srv_step env srv s (s\<lparr>st_sys := (st_sys s)\<lparr>sy_mgr := m, sy_world := world\<rparr>,
      st_pend := remove1 ref (st_pend s), st_ending := ref # st_ending s\<rparr>)"
| st_close_finish: "ref \<in> set (st_ending s) \<Longrightarrow>
    client_close_finish (sqlapi_of (we_db env)) (sy_mgr (st_sys s)) (sy_world (st_sys s)) ref = (m, world, err) \<Longrightarrow>
    srv_step env srv s (s\<lparr>st_sys := (st_sys s)\<lparr>sy_mgr := m, sy_world := world\<rparr>,
      st_ending := remove1 ref (st_ending s)\<rparr>)"

inductive srv_reach ::
  "('fld, 'rec, 'enc, 't, 'w) webenv \<Rightarrow> server \<Rightarrow> ('enc, 't, 'w) srv_state \<Rightarrow> ('enc, 't, 'w) srv_state \<Rightarrow> bool"
  for env :: "('fld, 'rec, 'enc, 't, 'w) webenv" and srv :: server and s0 :: "('enc, 't, 'w) srv_state" where
  srv_start: "srv_reach env srv s0 s0"
| srv_next: "srv_reach env srv s0 s \<Longrightarrow> srv_step env srv s s' \<Longrightarrow> srv_reach env srv s0 s'"

end
