(* ===== verification/Duckserver_Steps_Props.thy ===== *)
theory Duckserver_Steps_Props
  imports Duckserver_Steps
begin

section \<open>duckserver: what holds under any interleaving\<close>

text \<open>
  Theorems on the theory \<open>Duckserver_Steps\<close>: in every state of the server the databases are within the
  limit, but for those that are being closed, and what is listed is running; and a query that was
  interrupted writes at most what it was about to write.
\<close>

subsection \<open>The queries\<close>

text \<open>\<open>R\<close>: the queries of the running handlers; \<open>K\<close>: all that somebody holds. What is listed is running and
  has not been cancelled.\<close>

definition queries_ok :: "querydb \<Rightarrow> ctxstore \<Rightarrow> query set \<Rightarrow> query set \<Rightarrow> bool" where
  "queries_ok db cs R K \<longleftrightarrow>
     (\<forall>i q. qd_map db i = Some q \<longrightarrow> q_ID q = i \<and> q \<in> R \<and> q_ctx q \<notin> cs_cancelled cs) \<and> R \<subseteq> K \<and>
     (\<forall>q\<in>K. q_ctx q < cs_next cs \<and> map_of (cs_parent cs) (q_ctx q) \<noteq> None) \<and> inj_on q_ctx K \<and>
     cs_cancelled cs \<subseteq> {..<cs_next cs}"

lemma queries_okD:
  assumes "queries_ok db cs R K"
  shows "qd_map db i = Some q \<Longrightarrow> q_ID q = i \<and> q \<in> R \<and> q_ctx q \<notin> cs_cancelled cs"
    and "R \<subseteq> K" and "q \<in> K \<Longrightarrow> q_ctx q < cs_next cs \<and> map_of (cs_parent cs) (q_ctx q) \<noteq> None"
    and "inj_on q_ctx K" and "cs_cancelled cs \<subseteq> {..<cs_next cs}"
  using assms unfolding queries_ok_def by blast+

lemma queries_ok_close:
  assumes "queries_ok db cs R K" and "q \<in> K" and "q_Close db cs q = (db', cs')"
    and "R - {q} \<subseteq> R'" and "R' \<subseteq> K'" and "K' \<subseteq> K"
  shows "queries_ok db' cs' R' K'"
proof -
  have db': "qd_map db' = (qd_map db)(q_ID q := None)" using q_Close_map [of db cs q] assms(3) by simp
  have cs': "cs' = cs \<or> cs' = cancel cs (q_ctx q)" using q_Close_ctx [of db cs q] assms(3) by (auto split: if_splits)
  then have same: "cs_next cs' = cs_next cs" "cs_parent cs' = cs_parent cs"
    "cs_cancelled cs' \<subseteq> insert (q_ctx q) (cs_cancelled cs)" by (auto simp: cancel_def)
  have "q_ID p = i \<and> p \<in> R' \<and> q_ctx p \<notin> cs_cancelled cs'" if p: "qd_map db' i = Some p" for i p
  proof -
    from p db' have i: "i \<noteq> q_ID q" "qd_map db i = Some p" by (auto split: if_splits)
    note ok = queries_okD(1) [OF assms(1) i(2)]
    have "p \<noteq> q" using ok i(1) by auto
    moreover have "p \<in> K" using ok queries_okD(2) [OF assms(1)] by blast
    ultimately have "q_ctx p \<noteq> q_ctx q" using inj_onD [OF queries_okD(4) [OF assms(1)]] assms(2) by blast
    with ok same(3) \<open>p \<noteq> q\<close> assms(4) show ?thesis by blast
  qed
  moreover have "q_ctx p < cs_next cs' \<and> map_of (cs_parent cs') (q_ctx p) \<noteq> None" if "p \<in> K'" for p
    using queries_okD(3) [OF assms(1)] that assms(6) same(1,2) by auto
  moreover have "inj_on q_ctx K'" using queries_okD(4) [OF assms(1)] assms(6) by (rule inj_on_subset)
  moreover have "cs_cancelled cs' \<subseteq> {..<cs_next cs'}"
    using queries_okD(5) [OF assms(1)] queries_okD(3) [OF assms(1,2)] same by auto
  ultimately show ?thesis using assms(5) unfolding queries_ok_def by blast
qed

lemma queries_ok_add:
  assumes "queries_ok db cs R K" and "Add db cs ctx cid sql now draws = Some (db', cs', q, rest)"
  shows "queries_ok db' cs' (insert q R) (insert q K)"
proof -
  obtain i where q: "q = \<lparr>q_ID = i, q_ConnID = cid, q_Query = sql, q_Start = now, q_ctx = cs_next cs\<rparr>"
    and db': "db' = \<lparr>qd_queries = Some ((qd_map db)(i \<mapsto> q))\<rparr>" and cs': "cs' = fst (WithCancel cs ctx)"
    using assms(2) by (auto simp: Add_Some_iff)
  have qf: "q_ID q = i" "q_ctx q = cs_next cs" by (simp_all add: q)
  have csf: "cs_next cs' = Suc (cs_next cs)" "cs_parent cs' = (cs_next cs, ctx) # cs_parent cs"
    "cs_cancelled cs' = cs_cancelled cs" by (simp_all add: cs' WithCancel_def)
  have fresh: "cs_next cs \<notin> cs_cancelled cs" using queries_okD(5) [OF assms(1)] by auto
  have "qd_map db' = (qd_map db)(i \<mapsto> q)" by (simp add: db' qd_map_def)
  then have "q_ID p = j \<and> p \<in> insert q R \<and> q_ctx p \<notin> cs_cancelled cs'" if "qd_map db' j = Some p" for j p
    using that queries_okD(1) [OF assms(1), of j p] fresh qf csf(3) by (auto split: if_splits)
  moreover have "q_ctx p < cs_next cs' \<and> map_of (cs_parent cs') (q_ctx p) \<noteq> None" if "p \<in> insert q K" for p
    using that queries_okD(3) [OF assms(1), of p] qf csf by auto
  moreover have "inj_on q_ctx (insert q K)"
  proof -
    have "q_ctx p \<noteq> q_ctx q" if "p \<in> K" for p using queries_okD(3) [OF assms(1) that] qf(2) by simp
    then have "q_ctx q \<notin> q_ctx ` (K - {q})" by (metis DiffD1 imageE)
    then show ?thesis using queries_okD(4) [OF assms(1)] by (simp add: inj_on_insert)
  qed
  moreover have "cs_cancelled cs' \<subseteq> {..<cs_next cs'}" using queries_okD(5) [OF assms(1)] csf by auto
  ultimately show ?thesis using queries_okD(2) [OF assms(1)] unfolding queries_ok_def by blast
qed

definition queries_of :: "(nat \<Rightarrow> ('enc, 't) running option) \<Rightarrow> query set" where
  "queries_of f = {q. \<exists>t run. f t = Some run \<and> rn_query run = q}"

definition running_queries :: "('enc, 't, 'w) srv_state \<Rightarrow> query set" where
  "running_queries s = queries_of (st_run s)"

definition sys_cm :: "('enc, 't, 'w) srv_state \<Rightarrow> (entry, 'w) cm_sys" where
  "sys_cm s = \<lparr>mgr = sy_mgr (st_sys s), wld = sy_world (st_sys s), pend = st_pend s, ending = st_ending s\<rparr>"

definition srv_inv :: "('enc, 't, 'w) srv_state \<Rightarrow> bool" where
  "srv_inv s \<longleftrightarrow> cm_inv (sys_cm s) \<and>
     queries_ok (sy_queries (st_sys s)) (sy_ctxs (st_sys s)) (running_queries s)
       (running_queries s \<union> set (st_cancelling s))"

lemma cm_inv_cong: "mgr s = mgr t \<Longrightarrow> pend s = pend t \<Longrightarrow> ending s = ending t \<Longrightarrow> cm_inv s = cm_inv t"
  by (simp add: cm_inv_def pend_ok_def)

text \<open>What admitting does to the state: at most a call of \<open>Conn\<close>, of a registered client.\<close>

definition conn_called :: "'w sqlapi \<Rightarrow> 'w sys \<Rightarrow> 'w sys \<Rightarrow> bool" where
  "conn_called api s s' \<longleftrightarrow> s' = s \<or>
     (\<exists>ref m w r. registered_client (sy_mgr s) ref \<and>
        client_Conn api (sy_mgr s) (sy_world s) ref = (m, w, r) \<and> s' = s\<lparr>sy_mgr := m, sy_world := w\<rparr>)"

lemma conn_called_same: "conn_called api s s"
  by (simp add: conn_called_def)

lemma conn_called_Conn:
  "manager_Client (sy_mgr s) ctx = Inr ref \<Longrightarrow> client_Conn api (sy_mgr s) (sy_world s) ref = (m, w, r) \<Longrightarrow>
   conn_called api s (s\<lparr>sy_mgr := m, sy_world := w\<rparr>)"
  unfolding conn_called_def registered_client_def manager_Client_def by (auto split: option.splits)

lemma admitQuery_sys:
  "(case admitQuery env srv w r s of Inl (w', s', res) \<Rightarrow> conn_called (sqlapi_of (we_db env)) s s'
    | Inr (conn, cid, sql, factory, fw, w3, s') \<Rightarrow> conn_called (sqlapi_of (we_db env)) s s')"
  unfolding admitQuery_def
  by (simp add: Let_def conn_called_same conn_called_Conn split: prod.split option.split sum.split read_error.split)

lemma conn_called_inv:
  assumes "conn_called api s s'" and "cm_inv \<lparr>mgr = sy_mgr s, wld = sy_world s, pend = p, ending = e\<rparr>"
  shows "cm_inv \<lparr>mgr = sy_mgr s', wld = sy_world s', pend = p, ending = e\<rparr> \<and> sy_queries s' = sy_queries s \<and> sy_ctxs s' = sy_ctxs s"
  using assms(1) unfolding conn_called_def
proof
  assume "s' = s"
  with assms(2) show ?thesis by simp
next
  assume "\<exists>ref m w r. registered_client (sy_mgr s) ref \<and> client_Conn api (sy_mgr s) (sy_world s) ref = (m, w, r) \<and>
    s' = s\<lparr>sy_mgr := m, sy_world := w\<rparr>"
  then obtain ref m w r where reg: "registered_client (sy_mgr s) ref" and c: "client_Conn api (sy_mgr s) (sy_world s) ref = (m, w, r)"
    and s': "s' = s\<lparr>sy_mgr := m, sy_world := w\<rparr>" by blast
  have "ref \<notin> set e" using assms(2) reg pend_okD(4) [of "\<lparr>mgr = sy_mgr s, wld = sy_world s, pend = p, ending = e\<rparr>" ref]
    by (auto simp: cm_inv_def)
  with conn_inv [OF assms(2), of ref api m w r] c s' show ?thesis by simp
qed

lemma run_step_query: "run_step env now look seen run world = Some (run', world') \<Longrightarrow> rn_query run' = rn_query run"
  by (auto simp: run_step_def exec_run_def end_run_def flush_run_def Let_def
      split: run_phase.splits option.splits sum.splits prod.splits list.splits if_splits)

lemma handleInterruptQuery_sys:
  assumes "handleInterruptQuery env srv queryID w r s = (w', s', res)"
  obtains "s' = s"
  | i q qdb cs where "Query (sy_queries s) i = Some q" "q_Close (sy_queries s) (sy_ctxs s) q = (qdb, cs)"
      "s' = s\<lparr>sy_queries := qdb, sy_ctxs := cs\<rparr>"
  using assms that
  by (fastforce simp: handleInterruptQuery_def split: prod.splits option.splits sum.splits)

lemma running_frame [simp]:
  "running_queries (s\<lparr>st_sys := x\<rparr>) = running_queries s" "running_queries (s\<lparr>st_pend := p\<rparr>) = running_queries s"
  "running_queries (s\<lparr>st_ending := p\<rparr>) = running_queries s"
  "running_queries (s\<lparr>st_cancelling := qs\<rparr>) = running_queries s"
  "running_queries (s\<lparr>st_run := f\<rparr>) = queries_of f"
  by (simp_all add: running_queries_def)

lemma queries_of_upd: "queries_of (f(t \<mapsto> run)) = insert (rn_query run) (queries_of (f(t := None)))"
  by (auto simp: queries_of_def split: if_splits)

lemma queries_of_none: "f t = None \<Longrightarrow> f(t := None) = f"
  by auto

lemma queries_of_del:
  "queries_of (f(t := None)) \<subseteq> queries_of f"
  "f t = Some run \<Longrightarrow> queries_of f = insert (rn_query run) (queries_of (f(t := None)))"
proof -
  show "queries_of (f(t := None)) \<subseteq> queries_of f" by (auto simp: queries_of_def split: if_splits)
  assume "f t = Some run"
  then have "f(t \<mapsto> run) = f" by auto
  with queries_of_upd [of f t run] show "queries_of f = insert (rn_query run) (queries_of (f(t := None)))" by simp
qed

lemma queries_ok_root:
  assumes "queries_ok db cs R K" and "i < cs_next cs" and "map_of (cs_parent cs) i = None"
  shows "queries_ok db (cancel cs i) R K"
proof -
  have "q_ctx q \<noteq> i" if "q \<in> K" for q using queries_okD(3) [OF assms(1) that] assms(3) by auto
  then show ?thesis using assms unfolding queries_ok_def cancel_def by (auto dest: subsetD)
qed

lemma queries_ok_request: "queries_ok db cs R K \<Longrightarrow> queries_ok db (fst (new_root cs)) R K"
  unfolding queries_ok_def new_root_def by (auto intro: less_SucI)

lemma srv_step_inv:
  assumes "srv_step env srv s s'" and "srv_inv s"
  shows "srv_inv s'"
  using assms
proof (induction rule: srv_step.induct)
  case (st_accept s c ctx draws m ref rest)
  have "cm_inv ((sys_cm s)\<lparr>mgr := m\<rparr>)"
    by (rule accept_inv [of _ c ctx draws m ref rest]) (use st_accept in \<open>simp_all add: srv_inv_def sys_cm_def\<close>)
  then show ?case using st_accept.prems by (simp add: srv_inv_def sys_cm_def)
next
  case (st_request s cs i)
  then show ?case using queries_ok_request by (fastforce simp: srv_inv_def sys_cm_def)
next
  case (st_client_gone i s)
  then show ?case using queries_ok_root by (simp add: srv_inv_def sys_cm_def)
next
  case (st_refuse w r s w' sys res)
  have "conn_called (sqlapi_of (we_db env)) (st_sys s) sys"
    using admitQuery_sys [where env = env and srv = srv and w = w and r = r and s = "st_sys s"] st_refuse.hyps by simp
  then show ?case using st_refuse.prems conn_called_inv [of _ "st_sys s" sys "st_pend s" "st_ending s"]
    by (simp add: srv_inv_def sys_cm_def)
next
  case (st_admit s t w r conn cid sql factory fw w1 sys ctx now draws qdb cs q rest)
  have "conn_called (sqlapi_of (we_db env)) (st_sys s) sys"
    using admitQuery_sys [where env = env and srv = srv and w = w and r = r and s = "st_sys s"] st_admit.hyps(2) by simp
  then have c: "cm_inv \<lparr>mgr = sy_mgr sys, wld = sy_world sys, pend = st_pend s, ending = st_ending s\<rparr>"
    "sy_queries sys = sy_queries (st_sys s)" "sy_ctxs sys = sy_ctxs (st_sys s)"
    using st_admit.prems conn_called_inv [of _ "st_sys s" sys "st_pend s" "st_ending s"] by (simp_all add: srv_inv_def sys_cm_def)
  have "queries_ok qdb cs (insert q (running_queries s)) (insert q (running_queries s \<union> set (st_cancelling s)))"
    using st_admit.prems st_admit.hyps(3) unfolding c(2,3) by (intro queries_ok_add) (simp_all add: srv_inv_def)
  moreover have "rn_query (start_run r q conn factory fw w1) = q" by (simp add: start_run_def)
  ultimately show ?case
    using st_admit.hyps(1) c(1)
    by (simp add: srv_inv_def sys_cm_def running_queries_def queries_of_upd queries_of_none)
next
  case (st_run s t run now seen run' world)
  have "queries_of ((st_run s)(t \<mapsto> run')) = running_queries s"
    using run_step_query [OF st_run.hyps(2)] queries_of_del(2) [of "st_run s", OF st_run.hyps(1)]
    by (simp add: running_queries_def queries_of_upd)
  moreover have "cm_inv \<lparr>mgr = sy_mgr (st_sys s), wld = world, pend = st_pend s, ending = st_ending s\<rparr>"
    using st_run.prems
      cm_inv_cong [of "\<lparr>mgr = sy_mgr (st_sys s), wld = world, pend = st_pend s, ending = st_ending s\<rparr>" "sys_cm s"]
    by (simp add: srv_inv_def sys_cm_def)
  ultimately show ?case using st_run.prems by (simp add: srv_inv_def sys_cm_def)
next
  case (st_return s t run res qdb cs)
  have R: "running_queries s = insert (rn_query run) (queries_of ((st_run s)(t := None)))"
    using queries_of_del(2) [of "st_run s", OF st_return.hyps(1)] by (simp add: running_queries_def)
  have "queries_ok qdb cs (queries_of ((st_run s)(t := None)))
      (queries_of ((st_run s)(t := None)) \<union> set (st_cancelling s))"
    by (rule queries_ok_close [OF _ _ st_return.hyps(3), of "running_queries s" "running_queries s \<union> set (st_cancelling s)"])
      (use st_return.prems R in \<open>auto simp: srv_inv_def\<close>)
  then show ?case using st_return.prems by (simp add: srv_inv_def sys_cm_def)
next
  case (st_interrupt queryID w r s w' sys res)
  from st_interrupt.hyps show ?case
  proof (cases rule: handleInterruptQuery_sys)
    case 1
    then show ?thesis using st_interrupt.prems by (simp add: srv_inv_def sys_cm_def)
  next
    case (2 i q qdb cs)
    have ok: "queries_ok (sy_queries (st_sys s)) (sy_ctxs (st_sys s)) (running_queries s)
        (running_queries s \<union> set (st_cancelling s))" using st_interrupt.prems by (simp add: srv_inv_def)
    have "qd_map (sy_queries (st_sys s)) i = Some q" using 2(1) by (simp add: Query_def)
    then have "q \<in> running_queries s \<union> set (st_cancelling s)" using queries_okD(1) [OF ok] by blast
    then have "queries_ok qdb cs (running_queries s) (running_queries s \<union> set (st_cancelling s))"
      by (intro queries_ok_close [OF ok _ 2(2)]) auto
    then show ?thesis using st_interrupt.prems 2(3) by (simp add: srv_inv_def sys_cm_def)
  qed
next
  case (st_lookup s i q)
  have ok: "queries_ok (sy_queries (st_sys s)) (sy_ctxs (st_sys s)) (running_queries s)
      (running_queries s \<union> set (st_cancelling s))" using st_lookup.prems by (simp add: srv_inv_def)
  have "qd_map (sy_queries (st_sys s)) i = Some q" using st_lookup.hyps by (simp add: Query_def)
  then have "q \<in> running_queries s" using queries_okD(1) [OF ok] by blast
  then have "running_queries s \<union> set (q # st_cancelling s) = running_queries s \<union> set (st_cancelling s)" by auto
  then show ?case using st_lookup.prems by (simp add: srv_inv_def sys_cm_def)
next
  case (st_cancel q s qdb cs)
  have "queries_ok qdb cs (running_queries s) (running_queries s \<union> set (remove1 q (st_cancelling s)))"
    by (rule queries_ok_close [OF _ _ st_cancel.hyps(2), of "running_queries s" "running_queries s \<union> set (st_cancelling s)"])
      (use st_cancel.prems st_cancel.hyps(1) set_remove1_subset [of q "st_cancelling s"] in \<open>auto simp: srv_inv_def\<close>)
  then show ?case using st_cancel.prems by (simp add: srv_inv_def sys_cm_def)
next
  case (st_conn_state s c cst m spawned unknown)
  have "cm_inv ((sys_cm s)\<lparr>mgr := m, pend := (case spawned of None \<Rightarrow> pend (sys_cm s) | Some ref \<Rightarrow> ref # pend (sys_cm s))\<rparr>)"
    by (rule state_change_inv [of _ c cst m spawned unknown])
      (use st_conn_state in \<open>simp_all add: srv_inv_def sys_cm_def\<close>)
  then show ?case using st_conn_state.prems by (simp add: srv_inv_def sys_cm_def split: option.splits)
next
  case (st_close_count ref s m world err)
  have "cm_inv ((sys_cm s)\<lparr>mgr := m, wld := world, pend := remove1 ref (pend (sys_cm s)), ending := ref # ending (sys_cm s)\<rparr>)"
    by (rule close_count_inv [of _ ref "sqlapi_of (we_db env)" m world err])
      (use st_close_count in \<open>simp_all add: srv_inv_def sys_cm_def\<close>)
  then show ?case using st_close_count.prems by (simp add: srv_inv_def sys_cm_def)
next
  case (st_close_finish ref s m world err)
  have "cm_inv ((sys_cm s)\<lparr>mgr := m, wld := world, ending := remove1 ref (ending (sys_cm s))\<rparr>)"
    by (rule close_finish_inv [of _ ref "sqlapi_of (we_db env)" m world err])
      (use st_close_finish in \<open>simp_all add: srv_inv_def sys_cm_def\<close>)
  then show ?case using st_close_finish.prems by (simp add: srv_inv_def sys_cm_def)
qed

lemma srv_reach_inv: "srv_reach env srv s0 s \<Longrightarrow> srv_inv s0 \<Longrightarrow> srv_inv s"
  by (induction rule: srv_reach.induct) (auto intro: srv_step_inv)

lemma srv_start_inv:
  assumes "sy_mgr s0 = server_manager env srv" and "sy_queries s0 = qd_zero" and "sy_ctxs s0 = cs_empty"
  shows "srv_inv (srv_init s0)"
proof -
  have "cm_inv (init_sys (sy_mgr s0) (sy_world s0))" unfolding assms(1) server_manager_def by (rule init_inv)
  then show ?thesis
    by (simp add: srv_inv_def sys_cm_def srv_init_def init_sys_def queries_ok_def assms(2,3) running_queries_def
        queries_of_def cs_empty_def)
qed

lemma srv_inv_listed:
  assumes "srv_inv s" and "Query (sy_queries (st_sys s)) i = Some q"
  shows "q_ID q = i \<and> q \<in> running_queries s \<and> q_ctx q \<notin> cs_cancelled (sy_ctxs (st_sys s))"
  using assms queries_okD(1) by (fastforce simp: srv_inv_def Query_def)

lemma admit_MaxDB: "conn_called api s s' \<Longrightarrow> MaxDB (sy_mgr s') = MaxDB (sy_mgr s)"
  by (auto simp: conn_called_def client_Conn_MaxDB)

lemma srv_step_MaxDB:
  assumes "srv_step env srv s s'"
  shows "MaxDB (sy_mgr (st_sys s')) = MaxDB (sy_mgr (st_sys s))"
  using assms
proof (induction rule: srv_step.induct)
  case (st_accept s c ctx draws m ref rest)
  then show ?case by (simp add: withNewClient_MaxDB)
next
  case (st_refuse w r s w' sys res)
  then show ?case using admitQuery_sys [where env = env and srv = srv and w = w and r = r and s = "st_sys s"] admit_MaxDB by fastforce
next
  case (st_admit s t w r conn cid sql factory fw w1 sys ctx now draws qdb cs q rest)
  then show ?case using admitQuery_sys [where env = env and srv = srv and w = w and r = r and s = "st_sys s"] admit_MaxDB by fastforce
next
  case (st_interrupt queryID w r s w' sys res)
  then show ?case by (cases rule: handleInterruptQuery_sys) auto
next
  case (st_conn_state s c cst m spawned unknown)
  then show ?case by (auto simp: ConnState_def dest: closeConn_MaxDB split: if_splits)
next
  case (st_close_count ref s m world err)
  then show ?case by (simp add: client_close_MaxDB)
next
  case (st_close_finish ref s m world err)
  then show ?case by (simp add: client_close_MaxDB)
qed simp_all

lemma srv_reach_MaxDB: "srv_reach env srv s0 s \<Longrightarrow> MaxDB (sy_mgr (st_sys s)) = MaxDB (sy_mgr (st_sys s0))"
  by (induction rule: srv_reach.induct) (auto simp: srv_step_MaxDB)

subsection \<open>What was cancelled stays cancelled\<close>

lemma q_Close_cancelled: "q_Close db cs q = (db', cs') \<Longrightarrow> cs_cancelled cs \<subseteq> cs_cancelled cs'"
  using q_Close_ctx [of db cs q] by (auto simp: cancel_def split: if_splits)

lemma Add_cancelled: "Add db cs ctx cid sql now ds = Some (db', cs', q, rest) \<Longrightarrow> cs_cancelled cs' = cs_cancelled cs"
  by (auto simp: Add_Some_iff WithCancel_def)

lemma conn_called_ctxs: "conn_called api s s' \<Longrightarrow> sy_ctxs s' = sy_ctxs s"
  by (auto simp: conn_called_def)

lemma srv_step_cancelled:
  assumes "srv_step env srv s s'"
  shows "cs_cancelled (sy_ctxs (st_sys s)) \<subseteq> cs_cancelled (sy_ctxs (st_sys s'))"
  using assms
proof (induction rule: srv_step.induct)
  case (st_refuse w r s w' sys res)
  then show ?case using admitQuery_sys [where env = env and srv = srv and w = w and r = r and s = "st_sys s"] conn_called_ctxs by fastforce
next
  case (st_admit s t w r conn cid sql factory fw w1 sys ctx now draws qdb cs q rest)
  then have "sy_ctxs sys = sy_ctxs (st_sys s)"
    using admitQuery_sys [where env = env and srv = srv and w = w and r = r and s = "st_sys s"] conn_called_ctxs by fastforce
  then show ?case using Add_cancelled [OF st_admit.hyps(3)] by simp
next
  case (st_interrupt queryID w r s w' sys res)
  then show ?case by (cases rule: handleInterruptQuery_sys) (auto dest: q_Close_cancelled)
qed (auto simp: new_root_def cancel_def dest: q_Close_cancelled)

lemma srv_reach_cancelled:
  "srv_reach env srv s0 s \<Longrightarrow> cs_cancelled (sy_ctxs (st_sys s0)) \<subseteq> cs_cancelled (sy_ctxs (st_sys s))"
  by (induction rule: srv_reach.induct) (auto dest: srv_step_cancelled)

lemma WithCancel_next: "cs_next (fst (WithCancel cs i)) = Suc (cs_next cs)"
  by (simp add: WithCancel_def)

lemma q_Close_next: "q_Close db cs q = (db', cs') \<Longrightarrow> cs_next cs' = cs_next cs"
  using q_Close_ctx [of db cs q] by (auto simp: cancel_def split: if_splits)

lemma Add_ctx: "Add db cs ctx cid sql now ds = Some (db', cs', q, rest) \<Longrightarrow> q_ctx q = cs_next cs \<and> cs_next cs' = Suc (cs_next cs)"
  by (auto simp: Add_Some_iff WithCancel_next)

lemma srv_step_next:
  assumes "srv_step env srv s s'"
  shows "cs_next (sy_ctxs (st_sys s)) \<le> cs_next (sy_ctxs (st_sys s'))"
  using assms
proof (induction rule: srv_step.induct)
  case (st_refuse w r s w' sys res)
  then show ?case using admitQuery_sys [where env = env and srv = srv and w = w and r = r and s = "st_sys s"] conn_called_ctxs by fastforce
next
  case (st_admit s t w r conn cid sql factory fw w1 sys ctx now draws qdb cs q rest)
  then have "sy_ctxs sys = sy_ctxs (st_sys s)"
    using admitQuery_sys [where env = env and srv = srv and w = w and r = r and s = "st_sys s"] conn_called_ctxs by fastforce
  then show ?case using Add_ctx [OF st_admit.hyps(3)] by simp
next
  case (st_interrupt queryID w r s w' sys res)
  then show ?case by (cases rule: handleInterruptQuery_sys) (auto dest: q_Close_next)
qed (auto simp: new_root_def cancel_def dest: q_Close_next)

subsection \<open>Writing after a cancellation\<close>

text \<open>Whether the handler has looked at the context already for the header or the row it writes next.\<close>

definition past_look :: "('enc, 't) running \<Rightarrow> nat" where
  "past_look run = (case rn_phase run of HeaderNext rows \<Rightarrow> 1 | RowNext row rest \<Rightarrow> 1 | _ \<Rightarrow> 0)"

lemma end_run_written:
  "end_run env run werr world = (run', world') \<Longrightarrow> rn_written run' = rn_written run \<and> past_look run' = 0"
  by (auto simp: end_run_def past_look_def)

lemma flush_run_written:
  "flush_run env run world = (run', world') \<Longrightarrow> rn_written run' = rn_written run \<and> past_look run' = 0"
  by (auto simp: flush_run_def split: prod.splits dest: end_run_written)

lemma exec_run_written:
  "exec_run env now look run world = (run', world') \<Longrightarrow> rn_written run' = rn_written run \<and> past_look run' = 0"
  by (auto simp: exec_run_def past_look_def Let_def split: option.splits sum.splits prod.splits if_splits)

text \<open>Once the context is done, no step opens the way to another write.\<close>

lemma run_step_written:
  assumes "run_step env now (Some e) seen run world = Some (run', world')"
  shows "rn_written run' + past_look run' \<le> rn_written run + past_look run"
proof (cases "rn_phase run")
  case Registered
  with assms exec_run_written [of env now "Some e" run world run' world'] show ?thesis by (simp add: run_step_def)
next
  case (Answering rows)
  with assms show ?thesis by (auto simp: run_step_def dest: end_run_written)
next
  case (HeaderNext rows)
  then have "past_look run = 1" by (simp add: past_look_def)
  then show ?thesis
    using assms HeaderNext
    by (auto simp: run_step_def Let_def past_look_def [of "x\<lparr>rn_phase := y\<rparr>" for x y] dest!: end_run_written
        split: option.splits sum.splits prod.splits)
next
  case (HeaderWritten rows)
  with assms show ?thesis by (auto simp: run_step_def dest: end_run_written)
next
  case (Writing rs)
  with assms show ?thesis
    by (cases rs) (auto simp: run_step_def dest: end_run_written flush_run_written split: if_splits)
next
  case (RowNext row rest)
  then have "past_look run = 1" by (simp add: past_look_def)
  then show ?thesis
    using assms RowNext
    by (auto simp: run_step_def Let_def past_look_def [of "x\<lparr>rn_phase := y\<rparr>" for x y] dest!: end_run_written
        split: option.splits sum.splits prod.splits)
next
  case (Ending res)
  with assms show ?thesis by (simp add: run_step_def)
qed

text \<open>What the whole server keeps of it: the handler in slot \<open>t\<close> writes no more than \<open>n\<close> times for \<open>q\<close>.\<close>

definition writes_bounded :: "nat \<Rightarrow> query \<Rightarrow> nat \<Rightarrow> ('enc, 't, 'w) srv_state \<Rightarrow> bool" where
  "writes_bounded n q t s \<longleftrightarrow> q_ctx q \<in> cs_cancelled (sy_ctxs (st_sys s)) \<and> q_ctx q < cs_next (sy_ctxs (st_sys s)) \<and>
     (\<forall>run. st_run s t = Some run \<longrightarrow> rn_query run = q \<longrightarrow> rn_written run + past_look run \<le> n)"

lemma ctx_look_cancelled: "q_ctx q \<in> cs_cancelled cs \<Longrightarrow> ctx_look cs q = Some ''context canceled''"
  by (simp add: ctx_look_def ctx_done_def)

lemma srv_step_bounded:
  assumes step: "srv_step env srv s s'" and "writes_bounded n q t s"
  shows "writes_bounded n q t s'"
proof -
  have old: "q_ctx q \<in> cs_cancelled (sy_ctxs (st_sys s))" "q_ctx q < cs_next (sy_ctxs (st_sys s))"
    "\<And>run. st_run s t = Some run \<Longrightarrow> rn_query run = q \<Longrightarrow> rn_written run + past_look run \<le> n"
    using assms(2) by (auto simp: writes_bounded_def)
  have "rn_written run + past_look run \<le> n" if "st_run s' t = Some run" "rn_query run = q" for run
    using step that old
  proof (induction rule: srv_step.induct)
    case (st_admit s u w r conn cid sql factory fw w1 sys ctx now draws qdb cs p rest)
    have "sy_ctxs sys = sy_ctxs (st_sys s)"
      using st_admit.hyps(2) conn_called_ctxs
        admitQuery_sys [where env = env and srv = srv and w = w and r = r and s = "st_sys s"] by fastforce
    then have "q_ctx p = cs_next (sy_ctxs (st_sys s))" using Add_ctx [OF st_admit.hyps(3)] by simp
    then have "p \<noteq> q" using st_admit.prems(4) by auto
    then show ?case using st_admit.prems(1,2,5) by (auto simp: start_run_def split: if_splits)
  next
    case (st_run s u run1 now seen run2 world)
    show ?case
    proof (cases "u = t")
      case True
      then have run: "run = run2" using st_run.prems(1) by simp
      have q: "rn_query run1 = q" using run_step_query [OF st_run.hyps(2)] st_run.prems(2) run by simp
      have "rn_written run + past_look run \<le> rn_written run1 + past_look run1"
        unfolding run by (rule run_step_written [OF st_run.hyps(2) [unfolded q ctx_look_cancelled [OF st_run.prems(3)]]])
      also have "\<dots> \<le> n" using st_run.prems(5) st_run.hyps(1) True q by simp
      finally show ?thesis .
    next
      case False
      with st_run.prems show ?thesis by simp
    qed
  qed (auto split: if_splits)
  then show ?thesis
    using old(1,2) srv_step_cancelled [OF step] srv_step_next [OF step] by (auto simp: writes_bounded_def)
qed

lemma srv_reach_bounded: "srv_reach env srv s0 s \<Longrightarrow> writes_bounded n q t s0 \<Longrightarrow> writes_bounded n q t s"
  by (induction rule: srv_reach.induct) (auto intro: srv_step_bounded)

text \<open>The steps of a handler that looks at a context that is done.\<close>

lemma run_step_stops:
  assumes "rn_phase run \<in> {Answering rows, HeaderWritten rows, Writing (row # rest)}"
  shows "\<exists>run' world'. run_step env now (Some e) seen run world = Some (run', world') \<and>
    rn_written run' = rn_written run \<and>
    (rn_w run' = rn_w run \<and> rn_phase run' = Ending (HErr (httperror_Newf 500 ''Serialization error: %s'' [e])) \<or>
     seen \<and> rn_phase run = Writing (row # rest) \<and> (run', world') = flush_run env run world)"
proof (cases "seen \<and> rn_phase run = Writing (row # rest)")
  case True
  obtain run' world' where f: "flush_run env run world = (run', world')" by fastforce
  then show ?thesis using True flush_run_written [OF f] by (simp add: run_step_def rows_closed_def)
next
  case False
  with assms show ?thesis by (auto simp: run_step_def rows_closed_def end_run_def serialized_def)
qed

subsection \<open>The properties\<close>

text \<open>A query on connection 5, which has no database yet, is admitted.\<close>

lemma demo_stmts: "run_stmts (db_duck demo_dbenv) c sts w = (w, None)"
  by (induction sts) (simp_all add: demo_dbenv_def)

lemma demo_connects: "connectDuckDB demo_dbenv srv ctx w = (Suc w, Inr (w, w))"
proof -
  have dk: "dk_open (db_duck demo_dbenv) d w = (Suc w, Inr w)" "dk_conn (db_duck demo_dbenv) w (Suc w) = (Suc w, Inr w)"
    "db_mkdir demo_dbenv d k w = (w, None)" for d k
    by (simp_all add: demo_dbenv_def)
  then have "duckdbinit_Open (db_duck demo_dbenv) st qs w = (Suc w, Inr (w, w))" for st qs
    by (simp add: duckdbinit_Open_def settings_init_run demo_stmts)
  then show ?thesis by (auto simp: connectDuckDB_def getPrivateDir_def dk Let_def split: option.split)
qed

definition demo_opened :: "(entry, nat) manager" where
  "demo_opened = demo_manager\<lparr>dbCount := 1,
     heap := Map.empty(0 \<mapsto> \<lparr>cl_ctx = with_conn_id background 5, cl_ID = 5, cl_db = Some 0, cl_conn = Some 0\<rparr>)\<rparr>"

lemma demo_Conn: "client_Conn (sqlapi_of demo_dbenv) demo_manager 0 0 = (demo_opened, 1, Inr (Some 0))"
proof -
  have "sql_set_max_idle (sqlapi_of demo_dbenv) db n v = v" for db n v by (simp add: sqlapi_of_def demo_dbenv_def)
  moreover have "MaxDB demo_manager = 20" by (simp add: demo_manager_def server_manager_def new_manager_def demo_srv_def DefaultConfig_def)
  moreover have "dbCount demo_manager = 0" "Opener demo_manager = Some (connectDuckDB demo_dbenv (demo_srv None))"
    "heap demo_manager = Map.empty(0 \<mapsto> \<lparr>cl_ctx = with_conn_id background 5, cl_ID = 5, cl_db = None, cl_conn = None\<rparr>)"
    by (simp_all add: demo_manager_def server_manager_def new_manager_def)
  ultimately show ?thesis by (simp add: client_Conn_def openDB_def demo_connects demo_opened_def)
qed

abbreviation demo_fw :: "(nat, unit) fwriter" where
  "demo_fw \<equiv> CsvWriter (csv_Create Map.empty)"

abbreviation demo_w1 :: writer where
  "demo_w1 \<equiv> w_set (Plain new_response) ''Duckpop-Connectionid'' (cid_String 5)"

definition demo_admitted :: "nat sys" where
  "demo_admitted = demo_sys\<lparr>sy_mgr := demo_opened, sy_world := 1\<rparr>"

lemma demo_admit:
  "admitQuery demo_webenv (demo_srv None) (Plain new_response) (demo_post ''SELECT 1'') demo_sys =
     Inr (Some 0, 5, ''SELECT 1'', CsvFactory, demo_fw, demo_w1, demo_admitted)"
proof -
  let ?r = "demo_post ''SELECT 1''"
  have az: "checkAuthz (demo_srv None) (Plain new_response) ?r = (Plain new_response, None)"
    by (simp add: checkAuthz_def demo_srv_simps)
  have m: "rq_method ?r = ''POST''" "getFormat ?r = ''csv''" "\<not> shouldRedirectToUI (demo_srv None) ?r"
    by (simp_all add: demo_post_def getFormat_def get_first_def shouldRedirectToUI_def)
  have rd: "readQuery (cf_MaxBodySize (sv_config (demo_srv None))) (Plain new_response) ?r = (Plain new_response, Inr ''SELECT 1'')"
    by (simp add: demo_srv_simps demo_post_def readQuery_def read_body_def)
  have mc: "manager_Client (sy_mgr demo_sys) (rq_ctx ?r) = Inr 0"
    "heap (sy_mgr demo_sys) 0 = Some \<lparr>cl_ctx = with_conn_id background 5, cl_ID = 5, cl_db = None, cl_conn = None\<rparr>"
    by (simp_all add: demo_sys_def demo_manager_def demo_post_def manager_Client_def with_conn_id_def store_laws)
  have cn: "client_Conn (sqlapi_of (we_db demo_webenv)) (sy_mgr demo_sys) (sy_world demo_sys) 0 = (demo_opened, 1, Inr (Some 0))"
    using demo_Conn by (simp add: demo_webenv_def demo_sys_def)
  show ?thesis
    by (simp add: admitQuery_def az m rd FindAndCreate_csv mc cn demo_admitted_def)
qed

definition demo_q :: query where
  "demo_q = \<lparr>q_ID = 1, q_ConnID = 5, q_Query = ''SELECT 1'', q_Start = 0, q_ctx = 1\<rparr>"

lemma demo_add:
  "Add (sy_queries demo_admitted) (sy_ctxs demo_admitted) 0 5 ''SELECT 1'' 0 [1] =
     Some (\<lparr>qd_queries = Some [1 \<mapsto> demo_q]\<rparr>, fst (WithCancel (cs_empty\<lparr>cs_next := 1\<rparr>) 0), demo_q, [])"
  by (simp add: Add_Some_iff demo_admitted_def demo_sys_def demo_q_def)

text \<open>
  C4. The server under any interleaving. From its start, whatever connections are accepted and closed, and
  however queries are admitted, executed, written row by row, interrupted and ended: the connection manager
  counts the open databases but for those that are just being closed, and never more than \<open>MaxDB\<close>; so at
  most \<open>MaxDB\<close> databases are open and one for every goroutine that is closing its own. Every listed query is
  under its own identifier and has a handler that is still running it; its own context has not been
  cancelled, so that it is done exactly if the context of its request is, as when the client is gone.
\<close>

theorem server_state_ok:
  assumes "srv_reach env srv (srv_init s0) s" and "sy_mgr s0 = server_manager (we_db env) srv"
    and "sy_queries s0 = qd_zero" and "sy_ctxs s0 = cs_empty"
  shows "dbCount (sy_mgr (st_sys s)) = int (card (open_dbs (sy_mgr (st_sys s)) - set (st_ending s))) \<and>
    dbCount (sy_mgr (st_sys s)) \<le> max 0 (cf_MaxDB (sv_config srv)) \<and>
    int (card (open_dbs (sy_mgr (st_sys s)))) \<le> max 0 (cf_MaxDB (sv_config srv)) + int (length (st_ending s)) \<and>
    (Query (sy_queries (st_sys s)) i = Some q \<longrightarrow>
       q_ID q = i \<and> (\<exists>t run. st_run s t = Some run \<and> rn_query run = q) \<and>
       q_ctx q \<notin> cs_cancelled (sy_ctxs (st_sys s)) \<and>
       (ctx_look (sy_ctxs (st_sys s)) q \<noteq> None \<longleftrightarrow>
          (\<exists>p. map_of (cs_parent (sy_ctxs (st_sys s))) (q_ctx q) = Some p \<and> p \<in> cs_cancelled (sy_ctxs (st_sys s)))))"
proof -
  have inv: "srv_inv s" using srv_start_inv [OF assms(2-4)] by (rule srv_reach_inv [OF assms(1)])
  have "MaxDB (sy_mgr (st_sys s)) = cf_MaxDB (sv_config srv)"
    using srv_reach_MaxDB [OF assms(1)] by (simp add: srv_init_def assms(2) server_manager_def new_manager_def)
  with inv have "count_ok (sy_mgr (st_sys s)) (set (st_ending s))" "MaxDB (sy_mgr (st_sys s)) = cf_MaxDB (sv_config srv)"
    by (simp_all add: srv_inv_def sys_cm_def cm_inv_def)
  moreover from this have "card (open_dbs (sy_mgr (st_sys s))) \<le>
      card (open_dbs (sy_mgr (st_sys s)) - set (st_ending s)) + length (st_ending s)"
    by (intro card_minus_ending) (simp add: count_ok_def)
  moreover have "q_ID q = i \<and> q \<in> running_queries s \<and> q_ctx q \<notin> cs_cancelled (sy_ctxs (st_sys s))"
    if "Query (sy_queries (st_sys s)) i = Some q"
    using srv_inv_listed [OF inv that] .
  ultimately show ?thesis
    by (auto simp: count_ok_def running_queries_def queries_of_def ctx_look_def ctx_done_def split: option.splits)
qed

text \<open>The server before its first connection.\<close>

definition demo_start :: "nat sys" where
  "demo_start = \<lparr>sy_mgr = server_manager demo_dbenv (demo_srv None), sy_world = 0, sy_queries = qd_zero,
     sy_ctxs = cs_empty, sy_log = []\<rparr>"

definition demo_run1 :: "(nat, unit) running" where
  "demo_run1 = start_run (demo_post ''SELECT 1'') demo_q (Some 0) CsvFactory demo_fw demo_w1"

definition demo_serving :: "(nat, unit, nat) srv_state" where
  "demo_serving = \<lparr>st_sys = demo_admitted\<lparr>sy_queries := \<lparr>qd_queries = Some [1 \<mapsto> demo_q]\<rparr>,
       sy_ctxs := fst (WithCancel (cs_empty\<lparr>cs_next := 1\<rparr>) 0)\<rparr>,
     st_run = Map.empty(0 \<mapsto> demo_run1), st_pend = [], st_ending = [], st_cancelling = []\<rparr>"

lemma demo_serving_reach: "srv_reach demo_webenv (demo_srv None) (srv_init demo_start) demo_serving"
proof -
  let ?s0 = "srv_init demo_start :: (nat, unit, nat) srv_state"
  have free: "Load (connToID (sy_mgr (st_sys ?s0))) 7 = None"
    by (simp add: srv_init_def demo_start_def server_manager_def new_manager_def store_laws)
  have new: "withNewClient (sy_mgr (st_sys ?s0)) background 7 [5] = Some (demo_manager, 0, [])"
    by (simp add: srv_init_def demo_start_def withNewClient_def demo_manager_def server_manager_def new_manager_def
        new_id_loop_eq store_laws)
  have "?s0\<lparr>st_sys := (st_sys ?s0)\<lparr>sy_mgr := demo_manager\<rparr>\<rparr> = srv_init (demo_sys\<lparr>sy_ctxs := cs_empty\<rparr>)"
    by (simp add: srv_init_def demo_start_def demo_sys_def)
  with st_accept [OF free new, of demo_webenv "demo_srv None"]
  have one: "srv_reach demo_webenv (demo_srv None) (srv_init demo_start) (srv_init (demo_sys\<lparr>sy_ctxs := cs_empty\<rparr>))"
    using srv_next [OF srv_start] by metis
  have "srv_step demo_webenv (demo_srv None) (srv_init (demo_sys\<lparr>sy_ctxs := cs_empty\<rparr>)) (srv_init demo_sys)"
    using st_request [of "srv_init (demo_sys\<lparr>sy_ctxs := cs_empty\<rparr>)" "cs_empty\<lparr>cs_next := 1\<rparr>" 0]
    by (simp add: srv_init_def demo_sys_def new_root_def cs_empty_def)
  then have two: "srv_reach demo_webenv (demo_srv None) (srv_init demo_start) (srv_init demo_sys)" by (rule srv_next [OF one])
  have a: "admitQuery demo_webenv (demo_srv None) (Plain new_response) (demo_post ''SELECT 1'') (st_sys (srv_init demo_sys)) =
     Inr (Some 0, 5, ''SELECT 1'', CsvFactory, demo_fw, demo_w1, demo_admitted)" using demo_admit by (simp add: srv_init_def)
  have "st_run (srv_init demo_sys) 0 = None" by (simp add: srv_init_def)
  from st_admit [OF this a demo_add]
  have "srv_step demo_webenv (demo_srv None) (srv_init demo_sys) demo_serving"
    by (simp add: srv_init_def demo_serving_def demo_run1_def)
  with two show ?thesis by (rule srv_next)
qed

lemma demo_serving_query: "Query (sy_queries (st_sys demo_serving)) 1 = Some demo_q"
  by (simp add: demo_serving_def Query_def qd_map_def)

theorem server_state_ok_witness:
  "dbCount (sy_mgr (st_sys demo_serving)) = 1 \<and>
   card (open_dbs (sy_mgr (st_sys demo_serving)) - set (st_ending demo_serving)) = 1 \<and>
   (\<exists>t run. st_run demo_serving t = Some run \<and> rn_query run = demo_q)"
proof -
  have s: "sy_mgr demo_start = server_manager (we_db demo_webenv) (demo_srv None)" "sy_queries demo_start = qd_zero"
    "sy_ctxs demo_start = cs_empty" by (simp_all add: demo_start_def demo_webenv_def)
  have "dbCount (sy_mgr (st_sys demo_serving)) = 1" by (simp add: demo_serving_def demo_admitted_def demo_opened_def)
  with server_state_ok [OF demo_serving_reach s, of 1 demo_q] demo_serving_query show ?thesis by simp
qed

text \<open>
  C15. An interrupted query writes at most what it was about to write. Once an interrupt has found a query in
  the listing of a running server, then, whatever happens on the server afterwards, its handler calls
  \<open>WriteHeader\<close> or \<open>WriteBody\<close> at most once more, and only if it had looked at the context before the
  interrupt and not written yet. Wherever it looks at the context it writes neither a header nor a row: it
  ends with an error, or, when \<open>rows.Next\<close> returns false because the rows were closed, it flushes.
\<close>

theorem interrupt_stops_rows:
  assumes "srv_reach env srv (srv_init s0) s" and "sy_mgr s0 = server_manager (we_db env) srv"
    and "sy_queries s0 = qd_zero" and "sy_ctxs s0 = cs_empty"
    and "checkAuthz srv w r = (w1, None)" and "Query (sy_queries (st_sys s)) i = Some q"
    and "handleInterruptQuery env srv (qid_String i) w r (st_sys s) = (w', sys, res)"
    and "st_run s t = Some run" and "rn_query run = q"
    and "srv_reach env srv (s\<lparr>st_sys := sys\<rparr>) s2" and "st_run s2 t = Some run2" and "rn_query run2 = q"
  shows "rn_written run2 + past_look run2 \<le> rn_written run + past_look run \<and>
    (rn_phase run2 \<in> {Answering rows, HeaderWritten rows, Writing (row # rest)} \<longrightarrow>
     (\<exists>run' world'. run_step env now (ctx_look (sy_ctxs (st_sys s2)) q) seen run2 world = Some (run', world') \<and>
        rn_written run' = rn_written run2 \<and>
        (rn_w run' = rn_w run2 \<and>
         rn_phase run' = Ending (HErr (httperror_Newf 500 ''Serialization error: %s'' [''context canceled''])) \<or>
         seen \<and> rn_phase run2 = Writing (row # rest) \<and> (run', world') = flush_run env run2 world)))"
proof -
  have inv: "srv_inv s" using srv_start_inv [OF assms(2-4)] by (rule srv_reach_inv [OF assms(1)])
  have id: "q_ID q = i" using srv_inv_listed [OF inv assms(6)] by blast
  have "qd_map (sy_queries (st_sys s)) (q_ID q) = Some q" using assms(6) id by (simp add: Query_def)
  moreover have "q_ctx q < cs_next (sy_ctxs (st_sys s))"
    using queries_okD(3) [of "sy_queries (st_sys s)" "sy_ctxs (st_sys s)" "running_queries s" "running_queries s \<union> set (st_cancelling s)" q]
      inv srv_inv_listed [OF inv assms(6)] by (simp add: srv_inv_def)
  moreover obtain qdb cs where c: "q_Close (sy_queries (st_sys s)) (sy_ctxs (st_sys s)) q = (qdb, cs)" by fastforce
  moreover have "sy_ctxs sys = cs" using assms(7) by (auto simp: handleInterruptQuery_def assms(5,6) ParseID_String c)
  ultimately have ctx: "q_ctx q \<in> cs_cancelled (sy_ctxs sys)" "q_ctx q < cs_next (sy_ctxs sys)"
    using q_Close_ctx [of "sy_queries (st_sys s)" "sy_ctxs (st_sys s)" q] by (simp_all add: cancel_def)
  then have "writes_bounded (rn_written run + past_look run) q t (s\<lparr>st_sys := sys\<rparr>)"
    using assms(8) by (simp add: writes_bounded_def)
  then have later: "writes_bounded (rn_written run + past_look run) q t s2" by (rule srv_reach_bounded [OF assms(10)])
  then have "ctx_look (sy_ctxs (st_sys s2)) q = Some ''context canceled''"
    by (simp add: writes_bounded_def ctx_look_cancelled)
  with later assms(11,12) show ?thesis
    using run_step_stops [of run2 rows row rest env now "''context canceled''" seen world] by (auto simp: writes_bounded_def)
qed

text \<open>The query is executed, the handler looks at the context, and then the query is interrupted.\<close>

definition demo_w200 :: writer where
  "demo_w200 = rn_w (fst (exec_run demo_webenv 0 None demo_run1 1))"

definition demo_in :: "run_phase \<Rightarrow> (nat, unit, nat) srv_state" where
  "demo_in ph = demo_serving\<lparr>st_run := Map.empty(0 \<mapsto> demo_run1\<lparr>rn_w := demo_w200, rn_phase := ph\<rparr>)\<rparr>"

lemma demo_exec: "exec_run demo_webenv 0 None demo_run1 1 = (demo_run1\<lparr>rn_w := demo_w200, rn_phase := Answering demo_rows\<rparr>, 1)"
proof -
  have "we_query demo_webenv c cx sql x = (x, Inr demo_rows)" for c cx sql x by (simp add: demo_webenv_def)
  moreover have "rn_conn demo_run1 = Some 0" by (simp add: demo_run1_def start_run_def)
  ultimately show ?thesis unfolding demo_w200_def by (simp add: exec_run_def Let_def)
qed

lemma demo_look: "ctx_look (sy_ctxs (st_sys demo_serving)) demo_q = None"
  by (simp add: demo_serving_def ctx_look_def ctx_done_def WithCancel_def demo_q_def cs_empty_def)

lemma demo_header_reach: "srv_reach demo_webenv (demo_srv None) (srv_init demo_start) (demo_in (HeaderNext demo_rows))"
proof -
  have w: "sy_world (st_sys demo_serving) = 1" by (simp add: demo_serving_def demo_admitted_def)
  have run: "st_run demo_serving 0 = Some demo_run1" "rn_query demo_run1 = demo_q" "rn_phase demo_run1 = Registered"
    by (simp_all add: demo_serving_def demo_run1_def start_run_def)
  have sys: "demo_in ph\<lparr>st_sys := (st_sys (demo_in ph))\<lparr>sy_world := 1\<rparr>,
      st_run := (st_run (demo_in ph))(0 \<mapsto> demo_run1\<lparr>rn_w := demo_w200, rn_phase := ph'\<rparr>)\<rparr> = demo_in ph'" for ph ph'
    by (simp add: demo_in_def demo_serving_def demo_admitted_def)
  have up: "demo_serving\<lparr>st_sys := (st_sys demo_serving)\<lparr>sy_world := 1\<rparr>,
      st_run := (st_run demo_serving)(0 \<mapsto> demo_run1\<lparr>rn_w := demo_w200, rn_phase := ph\<rparr>)\<rparr> = demo_in ph" for ph
    by (simp add: demo_in_def demo_serving_def demo_admitted_def)
  have "run_step demo_webenv 0 (ctx_look (sy_ctxs (st_sys demo_serving)) (rn_query demo_run1)) False demo_run1
      (sy_world (st_sys demo_serving)) = Some (demo_run1\<lparr>rn_w := demo_w200, rn_phase := Answering demo_rows\<rparr>, 1)"
    using demo_exec by (simp add: run_step_def run w demo_look)
  from st_run [OF run(1) this, of "demo_srv None"]
  have one: "srv_reach demo_webenv (demo_srv None) (srv_init demo_start) (demo_in (Answering demo_rows))"
    unfolding up by (rule srv_next [OF demo_serving_reach])
  let ?run = "demo_run1\<lparr>rn_w := demo_w200, rn_phase := Answering demo_rows\<rparr>"
  have at: "st_run (demo_in (Answering demo_rows)) 0 = Some ?run" "sy_ctxs (st_sys (demo_in (Answering demo_rows))) = sy_ctxs (st_sys demo_serving)"
    "sy_world (st_sys (demo_in (Answering demo_rows))) = 1"
    by (simp_all add: demo_in_def w)
  have "run_step demo_webenv 0 (ctx_look (sy_ctxs (st_sys (demo_in (Answering demo_rows)))) (rn_query ?run)) False ?run
      (sy_world (st_sys (demo_in (Answering demo_rows)))) = Some (demo_run1\<lparr>rn_w := demo_w200, rn_phase := HeaderNext demo_rows\<rparr>, 1)"
    using run(2) by (simp add: run_step_def at(2,3) demo_look)
  from st_run [OF at(1) this, of "demo_srv None"] show ?thesis
    unfolding sys by (rule srv_next [OF one])
qed

lemma demo_header:
  "\<exists>fw. fw_WriteHeader (we_fmt demo_webenv) demo_fw w [\<lparr>ct_Name = ''a'', ct_DatabaseTypeName = ''VARCHAR''\<rparr>] = (fw, w, None)"
proof -
  have "csv_record [''a''] = [CHR ''a'', CHR 0x0A]" by code_simp
  then show ?thesis
    by (simp add: demo_webenv_def demo_fmt_api_def csv_WriteHeader_def csv_Write_def csv_Create_def bw_new_def bw_size_def io_result_def Let_def)
qed

theorem interrupt_stops_rows_witness:
  "\<exists>sys s2 run2. handleInterruptQuery demo_webenv (demo_srv None) (qid_String 1) (Plain new_response)
      (demo_post []) (st_sys (demo_in (HeaderNext demo_rows))) = (w_write_header (Plain new_response) 204, sys, HOk) \<and>
    srv_step demo_webenv (demo_srv None) ((demo_in (HeaderNext demo_rows))\<lparr>st_sys := sys\<rparr>) s2 \<and>
    st_run s2 0 = Some run2 \<and> rn_phase run2 = HeaderWritten demo_rows \<and> rn_written run2 = 1 \<and>
    (\<exists>run' world'. run_step demo_webenv 0 (ctx_look (sy_ctxs (st_sys s2)) demo_q) True run2 1 = Some (run', world') \<and>
      rn_written run' = 1 \<and> rn_w run' = rn_w run2)"
proof -
  let ?s = "demo_in (HeaderNext demo_rows)" and ?run = "demo_run1\<lparr>rn_w := demo_w200, rn_phase := HeaderNext demo_rows\<rparr>"
  have az: "checkAuthz (demo_srv None) (Plain new_response) (demo_post []) = (Plain new_response, None)"
    by (simp add: checkAuthz_def demo_srv_simps)
  have q: "Query (sy_queries (st_sys ?s)) 1 = Some demo_q" using demo_serving_query by (simp add: demo_in_def)
  have start: "sy_mgr demo_start = server_manager (we_db demo_webenv) (demo_srv None)" "sy_queries demo_start = qd_zero"
    "sy_ctxs demo_start = cs_empty" by (simp_all add: demo_start_def demo_webenv_def)
  obtain qdb cs where c: "q_Close (sy_queries (st_sys ?s)) (sy_ctxs (st_sys ?s)) demo_q = (qdb, cs)" by fastforce
  define sys where "sys = (st_sys ?s)\<lparr>sy_queries := qdb, sy_ctxs := cs\<rparr>"
  have h: "handleInterruptQuery demo_webenv (demo_srv None) (qid_String 1) (Plain new_response)
      (demo_post []) (st_sys ?s) = (w_write_header (Plain new_response) 204, sys, HOk)"
    using q(1) c by (simp add: handleInterruptQuery_def az ParseID_String sys_def)
  have run: "st_run ?s 0 = Some ?run" "rn_query ?run = demo_q" "rn_written ?run = 0" "past_look ?run = 1"
    by (simp_all add: demo_in_def demo_run1_def start_run_def past_look_def)
  obtain fw where fw: "fw_WriteHeader (we_fmt demo_webenv) demo_fw demo_w200 [\<lparr>ct_Name = ''a'', ct_DatabaseTypeName = ''VARCHAR''\<rparr>] =
      (fw, demo_w200, None)" using demo_header by blast
  let ?run2 = "?run\<lparr>rn_fw := fw, rn_w := demo_w200, rn_written := 1, rn_phase := HeaderWritten demo_rows\<rparr>"
  let ?s' = "?s\<lparr>st_sys := sys\<rparr>"
  let ?s2 = "?s'\<lparr>st_sys := sys\<lparr>sy_world := 1\<rparr>, st_run := (st_run ?s')(0 \<mapsto> ?run2)\<rparr>"
  have "rn_fw ?run = demo_fw" "rw_types demo_rows = Inr [\<lparr>ct_Name = ''a'', ct_DatabaseTypeName = ''VARCHAR''\<rparr>]"
    by (simp_all add: demo_run1_def start_run_def demo_rows_def)
  then have "run_step demo_webenv 0 look False ?run 1 = Some (?run2, 1)" for look
    using fw run(3) by (simp add: run_step_def rows_closed_def)
  moreover have "sy_world sys = 1" by (simp add: sys_def demo_in_def demo_serving_def demo_admitted_def)
  ultimately have go: "srv_step demo_webenv (demo_srv None) ?s' ?s2"
    using st_run [of ?s' 0 ?run demo_webenv 0 False ?run2 1 "demo_srv None"] run(1) by simp
  have r2: "st_run ?s2 0 = Some ?run2" "rn_query ?run2 = demo_q" using run(2) by simp_all
  from interrupt_stops_rows [OF demo_header_reach start az q h run(1,2) srv_next [OF srv_start go] r2,
      of demo_rows "Inl []" "[]" 0 True 1] run(3,4)
  obtain run' world' where "run_step demo_webenv 0 (ctx_look (sy_ctxs (st_sys ?s2)) demo_q) True ?run2 1 = Some (run', world')"
    "rn_written run' = 1" "rn_w run' = rn_w ?run2" by auto
  moreover have "rn_phase ?run2 = HeaderWritten demo_rows" "rn_written ?run2 = 1" by simp_all
  ultimately show ?thesis using h go r2(1) by blast
qed

end
