(* ===== verification/Duckserver_Fair.thy ===== *)
theory Duckserver_Fair
  imports Duckserver_Steps_Props
begin

section \<open>duckserver: every handler returns\<close>

text \<open>
  A schedule says which handler goes on next. On the theory \<open>Duckserver_Steps\<close>: under every schedule that
  never forgets a handler that is running, all of them return, whatever DuckDB answers, whenever
  \<open>database/sql\<close> closes the rows of a cancelled query and however their steps are interleaved, and then
  nothing is listed. Before \<open>QueryContext\<close> has returned nobody knows how
  many rows there will be, so the measure first counts the handlers that are not that far.
\<close>

subsection \<open>Steps of the handlers\<close>

text \<open>The next step of handler \<open>t\<close>: a step of its request, or its return with the deferred close. \<open>seen\<close> is
  that of \<open>run_step\<close>.\<close>

definition handler_step ::
  "('fld, 'rec, 'enc, 't, 'w) webenv \<Rightarrow> int \<Rightarrow> bool \<Rightarrow> nat \<Rightarrow> ('enc, 't, 'w) srv_state \<Rightarrow> ('enc, 't, 'w) srv_state" where
  "handler_step env now seen t s =
     (case st_run s t of
        None \<Rightarrow> s
      | Some run \<Rightarrow>
          (case run_step env now (ctx_look (sy_ctxs (st_sys s)) (rn_query run)) seen run (sy_world (st_sys s)) of
             Some (run', world) \<Rightarrow>
               s\<lparr>st_sys := (st_sys s)\<lparr>sy_world := world\<rparr>, st_run := (st_run s)(t \<mapsto> run')\<rparr>
           | None \<Rightarrow>
               (let (qdb, cs) = q_Close (sy_queries (st_sys s)) (sy_ctxs (st_sys s)) (rn_query run) in
                s\<lparr>st_sys := (st_sys s)\<lparr>sy_queries := qdb, sy_ctxs := cs\<rparr>, st_run := (st_run s)(t := None)\<rparr>)))"

fun handler_steps ::
  "('fld, 'rec, 'enc, 't, 'w) webenv \<Rightarrow> (nat \<Rightarrow> int) \<Rightarrow> (nat \<Rightarrow> bool) \<Rightarrow> (nat \<Rightarrow> nat) \<Rightarrow> nat \<Rightarrow> nat
   \<Rightarrow> ('enc, 't, 'w) srv_state \<Rightarrow> ('enc, 't, 'w) srv_state" where
  "handler_steps env now seen sched k 0 s = s"
| "handler_steps env now seen sched k (Suc n) s =
     handler_steps env now seen sched (Suc k) n (handler_step env (now k) (seen k) (sched k) s)"

definition fair_for :: "(nat \<Rightarrow> nat) \<Rightarrow> nat set \<Rightarrow> bool" where
  "fair_for sched ts \<longleftrightarrow> (\<forall>t\<in>ts. \<forall>k. \<exists>m\<ge>k. sched m = t)"

lemma fair_forD: "fair_for sched ts \<Longrightarrow> t \<in> ts \<Longrightarrow> \<exists>m\<ge>k. sched m = t"
  unfolding fair_for_def by blast

lemma fair_for_mono: "fair_for sched ts \<Longrightarrow> ts' \<subseteq> ts \<Longrightarrow> fair_for sched ts'"
  unfolding fair_for_def by blast

lemma run_step_None: "run_step env now look seen run world = None \<longleftrightarrow> (\<exists>res. rn_phase run = Ending res)"
  by (auto simp: run_step_def split: run_phase.splits list.splits prod.splits)

lemma handler_step_idle: "st_run s t = None \<Longrightarrow> handler_step env now seen t s = s"
  by (simp add: handler_step_def)

lemma handler_step_cases:
  assumes "st_run s t = Some run"
  obtains (go) run' world where
      "run_step env now (ctx_look (sy_ctxs (st_sys s)) (rn_query run)) seen run (sy_world (st_sys s)) = Some (run', world)"
      "handler_step env now seen t s = s\<lparr>st_sys := (st_sys s)\<lparr>sy_world := world\<rparr>, st_run := (st_run s)(t \<mapsto> run')\<rparr>"
    | (return) res qdb cs where "rn_phase run = Ending res"
      "q_Close (sy_queries (st_sys s)) (sy_ctxs (st_sys s)) (rn_query run) = (qdb, cs)"
      "handler_step env now seen t s =
        s\<lparr>st_sys := (st_sys s)\<lparr>sy_queries := qdb, sy_ctxs := cs\<rparr>, st_run := (st_run s)(t := None)\<rparr>"
proof (cases "run_step env now (ctx_look (sy_ctxs (st_sys s)) (rn_query run)) seen run (sy_world (st_sys s))")
  case None
  obtain res where res: "rn_phase run = Ending res" using None run_step_None by metis
  obtain qdb cs where c: "q_Close (sy_queries (st_sys s)) (sy_ctxs (st_sys s)) (rn_query run) = (qdb, cs)" by fastforce
  have "handler_step env now seen t s =
      s\<lparr>st_sys := (st_sys s)\<lparr>sy_queries := qdb, sy_ctxs := cs\<rparr>, st_run := (st_run s)(t := None)\<rparr>"
    by (simp add: handler_step_def assms None c)
  with res c show ?thesis by (rule return)
next
  case (Some p)
  obtain run' world where p: "p = (run', world)" by fastforce
  have "handler_step env now seen t s = s\<lparr>st_sys := (st_sys s)\<lparr>sy_world := world\<rparr>, st_run := (st_run s)(t \<mapsto> run')\<rparr>"
    by (simp add: handler_step_def assms Some p)
  with Some p show ?thesis using go by simp
qed

lemma handler_step_reach:
  assumes "srv_reach env srv s0 s"
  shows "srv_reach env srv s0 (handler_step env now seen t s)"
proof (cases "st_run s t")
  case None
  then show ?thesis using assms by (simp add: handler_step_idle)
next
  case (Some run)
  then show ?thesis
  proof (cases rule: handler_step_cases [where env = env and now = now and seen = seen])
    case (go run' world)
    then show ?thesis using srv_next [OF assms st_run [OF Some go(1)]] by simp
  next
    case (return res qdb cs)
    then show ?thesis using srv_next [OF assms st_return [OF Some return(1,2)]] by simp
  qed
qed

lemma handler_steps_reach:
  "srv_reach env srv s0 s \<Longrightarrow> srv_reach env srv s0 (handler_steps env now seen sched k n s)"
  by (induction n arbitrary: k s) (simp_all add: handler_step_reach)

lemma handler_step_frame:
  "sy_mgr (st_sys (handler_step env now seen t s)) = sy_mgr (st_sys s) \<and> st_pend (handler_step env now seen t s) = st_pend s"
  by (simp add: handler_step_def split: option.split prod.split)

lemma handler_steps_frame:
  "sy_mgr (st_sys (handler_steps env now seen sched k n s)) = sy_mgr (st_sys s) \<and>
   st_pend (handler_steps env now seen sched k n s) = st_pend s"
  by (induction n arbitrary: k s) (simp_all add: handler_step_frame)

subsection \<open>The measure\<close>

fun phase_rank :: "run_phase \<Rightarrow> nat" where
  "phase_rank Registered = 0"
| "phase_rank (Ending res) = 1"
| "phase_rank (Writing rs) = 2 * length rs + 2"
| "phase_rank (RowNext row rest) = 2 * length rest + 3"
| "phase_rank (HeaderWritten rows) = 2 * length (rw_rows rows) + 3"
| "phase_rank (HeaderNext rows) = 2 * length (rw_rows rows) + 4"
| "phase_rank (Answering rows) = 2 * length (rw_rows rows) + 5"

fun run_rank :: "('enc, 't) running option \<Rightarrow> nat" where
  "run_rank None = 0"
| "run_rank (Some run) = phase_rank (rn_phase run)"

fun registered :: "('enc, 't) running option \<Rightarrow> bool" where
  "registered None = False"
| "registered (Some run) \<longleftrightarrow> rn_phase run = Registered"

definition rows_left :: "('enc, 't, 'w) srv_state \<Rightarrow> nat" where
  "rows_left s = (\<Sum>t | st_run s t \<noteq> None. run_rank (st_run s t))"

definition waiting :: "('enc, 't, 'w) srv_state \<Rightarrow> nat" where
  "waiting s = card {t. registered (st_run s t)}"

definition fewer :: "(('enc, 't, 'w) srv_state \<times> ('enc, 't, 'w) srv_state) set" where
  "fewer = measures [waiting, rows_left]"

lemma exec_run_rank: "exec_run env now look run world = (run', world') \<Longrightarrow> rn_phase run' \<noteq> Registered"
  by (auto simp: exec_run_def Let_def split: option.splits sum.splits prod.splits)

lemma end_run_rank: "end_run env run werr world = (run', world') \<Longrightarrow> phase_rank (rn_phase run') = 1 \<and> rn_phase run' \<noteq> Registered"
  by (auto simp: end_run_def)

lemma flush_run_rank:
  "flush_run env run world = (run', world') \<Longrightarrow> phase_rank (rn_phase run') = 1 \<and> rn_phase run' \<noteq> Registered"
  by (auto simp: flush_run_def dest!: end_run_rank split: prod.splits)

lemma run_step_rank:
  assumes "run_step env now look seen run world = Some (run', world')"
  shows "rn_phase run' \<noteq> Registered \<and>
    (rn_phase run \<noteq> Registered \<longrightarrow> phase_rank (rn_phase run') < phase_rank (rn_phase run))"
proof (cases "rn_phase run")
  case Registered
  with assms show ?thesis using exec_run_rank by (fastforce simp: run_step_def)
next
  case (Answering rows)
  with assms show ?thesis by (auto simp: run_step_def dest!: end_run_rank split: option.splits)
next
  case (HeaderNext rows)
  with assms show ?thesis
    by (auto simp: run_step_def Let_def dest!: end_run_rank split: option.splits sum.splits prod.splits)
next
  case (HeaderWritten rows)
  with assms show ?thesis by (auto simp: run_step_def dest!: end_run_rank split: option.splits)
next
  case (Writing rs)
  with assms show ?thesis
    by (cases rs) (auto simp: run_step_def dest!: end_run_rank flush_run_rank split: option.splits if_splits)
next
  case (RowNext row rest)
  with assms show ?thesis
    by (auto simp: run_step_def Let_def dest!: end_run_rank split: option.splits sum.splits prod.splits)
next
  case (Ending res)
  with assms show ?thesis by (simp add: run_step_def)
qed

lemma handler_step_thread:
  assumes "st_run s t = Some run"
  obtains x where "st_run (handler_step env now seen t s) = (st_run s)(t := x)" "\<not> registered x"
    "rn_phase run \<noteq> Registered \<Longrightarrow> run_rank x < run_rank (st_run s t)"
  using assms
proof (cases rule: handler_step_cases [where env = env and now = now and seen = seen])
  case (go run' world)
  show ?thesis
    by (rule that [of "Some run'"]) (use go run_step_rank [OF go(1)] assms in auto)
next
  case (return res qdb cs)
  show ?thesis by (rule that [of None]) (use return assms in auto)
qed

lemma handler_step_fewer:
  assumes "st_run s t = Some run" and "finite (dom (st_run s))"
  shows "(handler_step env now seen t s, s) \<in> fewer"
proof -
  let ?s' = "handler_step env now seen t s"
  obtain x where x: "st_run ?s' = (st_run s)(t := x)" "\<not> registered x"
    "rn_phase run \<noteq> Registered \<Longrightarrow> run_rank x < run_rank (st_run s t)"
    using handler_step_thread [OF assms(1)] by metis
  have "{u. registered (st_run s u)} \<subseteq> dom (st_run s)" by (auto simp: dom_def elim: registered.elims)
  then have fin: "finite {u. registered (st_run s u)}" using assms(2) by (rule finite_subset)
  have set: "{u. registered (st_run ?s' u)} = {u. registered (st_run s u)} - {t}"
    using x(2) by (auto simp: x(1))
  show ?thesis
  proof (cases "rn_phase run = Registered")
    case True
    then have "t \<in> {u. registered (st_run s u)}" using assms(1) by simp
    then have "waiting ?s' < waiting s" unfolding waiting_def set by (rule card_Diff1_less [OF fin])
    then show ?thesis by (simp add: fewer_def)
  next
    case False
    then have "t \<notin> {u. registered (st_run s u)}" using assms(1) by simp
    then have "waiting ?s' = waiting s" unfolding waiting_def set by simp
    moreover have "finite {u. st_run s u \<noteq> None}" using assms(2) by (simp add: dom_def)
    then have "rows_left ?s' < rows_left s"
      unfolding rows_left_def x(1) by (rule work_decreases) (use x(3) False in simp_all)
    ultimately show ?thesis by (simp add: fewer_def)
  qed
qed

subsection \<open>Fair schedules\<close>

lemma handler_step_dom: "dom (st_run (handler_step env now seen t s)) \<subseteq> dom (st_run s)"
proof (cases "st_run s t")
  case None
  then show ?thesis by (simp add: handler_step_idle)
next
  case (Some run)
  then obtain x where "st_run (handler_step env now seen t s) = (st_run s)(t := x)" using handler_step_thread by metis
  then show ?thesis using Some by (auto split: if_splits)
qed

lemma handler_steps_skip:
  "(\<And>i. i < n \<Longrightarrow> st_run s (sched (k + i)) = None) \<Longrightarrow> handler_steps env now seen sched k (n + j) s = handler_steps env now seen sched (k + n) j s"
proof (induction n arbitrary: k)
  case 0
  then show ?case by simp
next
  case (Suc n)
  have "st_run s (sched k) = None" using Suc.prems [of 0] by simp
  moreover have "st_run s (sched (Suc k + i)) = None" if "i < n" for i using Suc.prems [of "Suc i"] that by simp
  ultimately show ?case using Suc.IH [of "Suc k"] by (simp add: handler_step_idle)
qed

lemma all_handlers_return:
  "finite (dom (st_run s)) \<Longrightarrow> fair_for sched (dom (st_run s)) \<Longrightarrow> \<exists>n. st_run (handler_steps env now seen sched k n s) = Map.empty"
proof (induction s arbitrary: k rule: wf_induct_rule [OF wf_measures, of "[waiting, rows_left]", folded fewer_def])
  case (1 s)
  show ?case
  proof (cases "st_run s = Map.empty")
    case True
    then have "st_run (handler_steps env now seen sched k 0 s) = Map.empty" by simp
    then show ?thesis by (rule exI)
  next
    case False
    then obtain t0 where "t0 \<in> dom (st_run s)" by fastforce
    then obtain m0 where "k \<le> m0" "sched m0 = t0" using fair_forD [OF "1.prems"(2)] by blast
    with \<open>t0 \<in> dom (st_run s)\<close> have ex: "\<exists>i. st_run s (sched (k + i)) \<noteq> None"
      by (metis domD le_add_diff_inverse option.distinct(1))
    define n where "n = (LEAST i. st_run s (sched (k + i)) \<noteq> None)"
    have at: "st_run s (sched (k + n)) \<noteq> None" unfolding n_def by (rule LeastI_ex [OF ex])
    have before: "st_run s (sched (k + i)) = None" if "i < n" for i using not_less_Least that unfolding n_def by blast
    let ?s1 = "handler_step env (now (k + n)) (seen (k + n)) (sched (k + n)) s"
    obtain run where run: "st_run s (sched (k + n)) = Some run" using at by auto
    note dom = handler_step_dom [of env "now (k + n)" "seen (k + n)" "sched (k + n)" s]
    have "\<exists>j. st_run (handler_steps env now seen sched (Suc (k + n)) j ?s1) = Map.empty"
      by (rule "1.IH" [OF handler_step_fewer [OF run "1.prems"(1)] finite_subset [OF dom "1.prems"(1)]
            fair_for_mono [OF "1.prems"(2) dom]])
    then obtain j where j: "st_run (handler_steps env now seen sched (Suc (k + n)) j ?s1) = Map.empty" by blast
    have "handler_steps env now seen sched k (n + Suc j) s = handler_steps env now seen sched (Suc (k + n)) j ?s1"
      using handler_steps_skip [of n s sched k env now seen "Suc j"] before by simp
    with j show ?thesis by metis
  qed
qed

lemma srv_step_finite: "srv_step env srv s s' \<Longrightarrow> finite (dom (st_run s)) \<Longrightarrow> finite (dom (st_run s'))"
  by (induction rule: srv_step.induct) (auto intro: finite_subset)

lemma srv_reach_finite: "srv_reach env srv s0 s \<Longrightarrow> finite (dom (st_run s0)) \<Longrightarrow> finite (dom (st_run s))"
  by (induction rule: srv_reach.induct) (auto intro: srv_step_finite)

subsection \<open>The property\<close>

text \<open>
  C11. Every handler returns. From every state that the server can reach, under every schedule in which
  each handler that is running gets its turn again and again, all of them return after finitely many
  steps, whatever the database answers; then no query is listed, and no database was opened or closed.
\<close>

theorem handlers_return:
  assumes "srv_reach env srv (srv_init s0) s" and "sy_mgr s0 = server_manager (we_db env) srv"
    and "sy_queries s0 = qd_zero" and "sy_ctxs s0 = cs_empty"
    and "\<And>t k. st_run s t \<noteq> None \<Longrightarrow> \<exists>m\<ge>k. sched m = t"
  shows "\<exists>n s'. handler_steps env now seen sched 0 n s = s' \<and> st_run s' = Map.empty \<and>
    Query (sy_queries (st_sys s')) i = None \<and> sy_mgr (st_sys s') = sy_mgr (st_sys s)"
proof -
  have fin: "finite (dom (st_run s))" by (rule srv_reach_finite [OF assms(1)]) (simp add: srv_init_def)
  have "fair_for sched (dom (st_run s))" unfolding fair_for_def using assms(5) by blast
  then obtain n where n: "st_run (handler_steps env now seen sched 0 n s) = Map.empty" using all_handlers_return [OF fin] by blast
  let ?s' = "handler_steps env now seen sched 0 n s"
  have "srv_inv ?s'" using srv_start_inv [OF assms(2-4)] by (rule srv_reach_inv [OF handler_steps_reach [OF assms(1)]])
  from srv_inv_listed [OF this] n have "Query (sy_queries (st_sys ?s')) i = None"
    by (cases "Query (sy_queries (st_sys ?s')) i") (auto simp: running_queries_def queries_of_def)
  with n handler_steps_frame [of env now seen sched 0 n s] show ?thesis by blast
qed

theorem handlers_return_witness:
  "\<exists>n s'. handler_steps demo_webenv (\<lambda>k. 0) (\<lambda>k. False) (\<lambda>k. 0) 0 n demo_serving = s' \<and> st_run s' = Map.empty \<and>
    Query (sy_queries (st_sys s')) 1 = None"
proof -
  have s: "sy_mgr demo_start = server_manager (we_db demo_webenv) (demo_srv None)" "sy_queries demo_start = qd_zero"
    "sy_ctxs demo_start = cs_empty" by (simp_all add: demo_start_def demo_webenv_def)
  have "\<exists>m\<ge>k. (0 :: nat) = t" if "st_run demo_serving t \<noteq> None" for t k :: nat
    using that by (auto simp: demo_serving_def split: if_splits)
  from handlers_return [OF demo_serving_reach s this, of "\<lambda>k. 0" "\<lambda>k. False" 1] show ?thesis by blast
qed

end
