(* ===== verification/Duckserver_Mux.thy ===== *)
theory Duckserver_Mux
  imports Duckserver_Props
begin

section \<open>duckserver: the patterns do not conflict\<close>

text \<open>
  \<open>http.ServeMux\<close> panics when two patterns are registered of which neither is more specific although some
  request matches both, and otherwise takes the most specific pattern that matches. \<open>Duckserver_Routes\<close>
  takes the first one in the order of \<open>routes\<close>. Here it is shown that this is the same, and that starting
  the server never panics, whatever of the shared directory, the UI and the profiler is configured.
\<close>

fun route_matches :: "route \<Rightarrow> gostr \<Rightarrow> gostr \<Rightarrow> bool" where
  "route_matches (pm, pp, ep) m path \<longleftrightarrow> method_matches pm m \<and> path_matches pp path"

text \<open>The precedence of \<open>net/http\<close>: every request that matches the one matches the other, and not
  conversely.\<close>

definition more_specific :: "route \<Rightarrow> route \<Rightarrow> bool" where
  "more_specific r1 r2 \<longleftrightarrow>
     (\<forall>m path. route_matches r1 m path \<longrightarrow> route_matches r2 m path) \<and>
     (\<exists>m path. route_matches r2 m path \<and> \<not> route_matches r1 m path)"

text \<open>A sufficient test that no request matches both, which evaluates.\<close>

fun paths_apart :: "pathpat \<Rightarrow> pathpat \<Rightarrow> bool" where
  "paths_apart (PExact p) (PExact q) \<longleftrightarrow> p \<noteq> q"
| "paths_apart (PExact p) (PBelow q) \<longleftrightarrow> \<not> has_prefix p q"
| "paths_apart (PBelow p) (PExact q) \<longleftrightarrow> \<not> has_prefix q p"
| "paths_apart (PBelow p) (PBelow q) \<longleftrightarrow> \<not> has_prefix p q \<and> \<not> has_prefix q p"
| "paths_apart (PElem p) (PBelow q) \<longleftrightarrow> \<not> has_prefix p q \<and> \<not> has_prefix q p"
| "paths_apart (PBelow p) (PElem q) \<longleftrightarrow> \<not> has_prefix p q \<and> \<not> has_prefix q p"
| "paths_apart (PExact p) (PElem q) \<longleftrightarrow> \<not> has_prefix p q \<or> p = q"
| "paths_apart (PElem p) (PExact q) \<longleftrightarrow> \<not> has_prefix q p \<or> p = q"
| "paths_apart (PElem p) (PElem q) \<longleftrightarrow> False"

fun apart :: "route \<Rightarrow> route \<Rightarrow> bool" where
  "apart (pm, pp, ep) (pm', pp', ep') \<longleftrightarrow> paths_apart pp pp'"

lemma prefix_comparable: "has_prefix s p \<Longrightarrow> has_prefix s q \<Longrightarrow> has_prefix p q \<or> has_prefix q p"
  unfolding has_prefix_iff by (metis append_eq_append_conv2)

lemma paths_apart_sound: "paths_apart p q \<Longrightarrow> path_matches p path \<Longrightarrow> \<not> path_matches q path"
  by (cases "(p, q)" rule: paths_apart.cases) (auto simp: Let_def dest: prefix_comparable)

lemma apart_sound: "apart r1 r2 \<Longrightarrow> route_matches r1 m path \<Longrightarrow> \<not> route_matches r2 m path"
  by (cases r1; cases r2) (auto dest: paths_apart_sound)

lemma more_specific_exact:
  assumes "has_prefix p q" and "p \<noteq> q"
  shows "more_specific (pm, PExact p, ep) (pm, PBelow q, ep')"
proof -
  obtain m where "method_matches pm m" by (cases pm) (auto simp: method_matches_def)
  then have "route_matches (pm, PBelow q, ep') m q \<and> \<not> route_matches (pm, PExact p, ep) m q"
    using assms(2) by (simp add: has_prefix_iff)
  moreover have "route_matches (pm, PExact p, ep) m' path \<Longrightarrow> route_matches (pm, PBelow q, ep') m' path" for m' path
    using assms(1) by simp
  ultimately show ?thesis unfolding more_specific_def by blast
qed

text \<open>Each pattern of the list against those that come later.\<close>

fun ordered :: "route \<Rightarrow> route \<Rightarrow> bool" where
  "ordered (pm, pp, ep) (pm', pp', ep') \<longleftrightarrow>
     paths_apart pp pp' \<or>
     (case (pp, pp') of (PExact p, PBelow q) \<Rightarrow> pm = pm' \<and> p \<noteq> q | _ \<Rightarrow> False)"

lemma ordered_sound:
  assumes "ordered r1 r2" and "route_matches r1 m path" and "route_matches r2 m path"
  shows "more_specific r1 r2"
proof -
  obtain pm pp ep pm' pp' ep' where r: "r1 = (pm, pp, ep)" "r2 = (pm', pp', ep')" by (metis prod_cases3)
  have "\<not> paths_apart pp pp'" using assms(2,3) paths_apart_sound unfolding r by auto
  then obtain p q where "pp = PExact p" "pp' = PBelow q" "pm = pm'" "p \<noteq> q" "has_prefix p q"
    using assms(1) unfolding r by (auto split: pathpat.splits)
  then show ?thesis unfolding r by (simp add: more_specific_exact)
qed

text \<open>The list with everything configured; what is configured is a part of it.\<close>

definition all_routes :: "route list" where
  "all_routes =
     [(None, PExact ''/'', EpQuery),
      (Some ''GET'', PExact ''/ping/'', EpPing),
      (Some ''GET'', PBelow ''/config/'', EpConfig),
      (Some ''GET'', PExact ''/status/connections/'', EpStatusConnections),
      (Some ''GET'', PExact ''/status/queries/'', EpStatusQueries),
      (Some ''DELETE'', PElem ''/status/queries/'', EpInterruptQuery),
      (None, PBelow ''/shared/'', EpShared),
      (None, PBelow ''/ui/'', EpUI),
      (Some ''GET'', PExact ''/debug/pprof/cmdline'', EpPprof ''cmdline''),
      (Some ''GET'', PExact ''/debug/pprof/profile'', EpPprof ''profile''),
      (Some ''GET'', PExact ''/debug/pprof/symbol'', EpPprof ''symbol''),
      (Some ''GET'', PExact ''/debug/pprof/trace'', EpPprof ''trace''),
      (Some ''GET'', PBelow ''/debug/pprof/'', EpPprof '''')]"

fun configured :: "server \<Rightarrow> endpoint \<Rightarrow> bool" where
  "configured srv EpShared \<longleftrightarrow> sv_dbSharedDir srv \<noteq> []"
| "configured srv EpUI \<longleftrightarrow> cf_UIResourceFS (sv_config srv) \<noteq> None"
| "configured srv (EpPprof name) \<longleftrightarrow> cf_EnablePprof (sv_config srv)"
| "configured srv _ \<longleftrightarrow> True"

lemma routes_configured: "routes srv = filter (\<lambda>r. configured srv (snd (snd r))) all_routes"
  by (simp add: routes_def all_routes_def)

lemma all_routes_ordered: "sorted_wrt ordered all_routes"
  unfolding all_routes_def sorted_wrt.simps list.set ball_simps by (intro conjI; simp)

lemma routes_ordered: "sorted_wrt ordered (routes srv)"
  unfolding routes_configured by (rule sorted_wrt_filter [OF all_routes_ordered])

lemma sorted_find:
  assumes "sorted_wrt P xs" and "find Q xs = Some x" and "y \<in> set xs" and "Q y" and "y \<noteq> x"
  shows "P x y"
  using assms by (induction xs) (auto split: if_splits)

lemma sorted_two:
  "sorted_wrt P xs \<Longrightarrow> x \<in> set xs \<Longrightarrow> y \<in> set xs \<Longrightarrow> x = y \<or> P x y \<or> P y x"
  by (induction xs) auto

lemma mux_find_eq:
  "mux_find rs m path = map_option (\<lambda>r. snd (snd r)) (find (\<lambda>r. route_matches r m path) rs)"
proof -
  have a: "(\<lambda>(pm, pp, ep). method_matches pm m \<and> path_matches pp path) = (\<lambda>r. route_matches r m path)"
    by (rule ext) auto
  have b: "(\<lambda>(pm, pp, ep). ep) = (\<lambda>r :: route. snd (snd r))" by (rule ext) (simp add: split_beta)
  show ?thesis by (simp only: mux_find_def a b)
qed

text \<open>
  C20. Requests reach the handler that is registered for them. Whatever is configured, of two patterns of
  \<open>newDuckpopHandler\<close> that a request matches one is more specific, so registering them does not panic; and
  the request is given to the endpoint of the most specific of all the patterns it matches.
\<close>

theorem routes_most_specific:
  assumes "r1 \<in> set (routes srv)" and "r2 \<in> set (routes srv)"
    and "route_matches r1 m path" and "route_matches r2 m path"
  shows "(r1 = r2 \<or> more_specific r1 r2 \<or> more_specific r2 r1) \<and>
    (\<exists>r. r \<in> set (routes srv) \<and> route_matches r m path \<and> mux_find (routes srv) m path = Some (snd (snd r)) \<and>
       (\<forall>r'\<in>set (routes srv). route_matches r' m path \<longrightarrow> r' = r \<or> more_specific r r'))"
proof
  show "r1 = r2 \<or> more_specific r1 r2 \<or> more_specific r2 r1"
    using sorted_two [OF routes_ordered assms(1,2)] ordered_sound assms(3,4) by blast
  obtain r where f: "find (\<lambda>r. route_matches r m path) (routes srv) = Some r"
    using assms(1,3) find_None_iff [of "\<lambda>r. route_matches r m path" "routes srv"] by (metis option.exhaust)
  then have r: "r \<in> set (routes srv)" "route_matches r m path" by (auto simp: find_Some_iff)
  have "r' = r \<or> more_specific r r'" if "r' \<in> set (routes srv)" "route_matches r' m path" for r'
    using sorted_find [OF routes_ordered f that] ordered_sound [OF _ r(2) that(2)] by blast
  with r f show "\<exists>r. r \<in> set (routes srv) \<and> route_matches r m path \<and> mux_find (routes srv) m path = Some (snd (snd r)) \<and>
       (\<forall>r'\<in>set (routes srv). route_matches r' m path \<longrightarrow> r' = r \<or> more_specific r r')"
    by (intro exI [of _ r]) (simp add: mux_find_eq)
qed

definition demo_profiled :: server where
  "demo_profiled = (demo_srv None)\<lparr>sv_config := (DefaultConfig (Inr ''/h''))\<lparr>cf_EnablePprof := True\<rparr>\<rparr>"

theorem routes_most_specific_witness:
  "more_specific (Some ''GET'', PExact ''/debug/pprof/trace'', EpPprof ''trace'')
     (Some ''GET'', PBelow ''/debug/pprof/'', EpPprof [])"
proof -
  let ?r1 = "(Some ''GET'', PExact ''/debug/pprof/trace'', EpPprof ''trace'')"
    and ?r2 = "(Some ''GET'', PBelow ''/debug/pprof/'', EpPprof [])"
  have r: "?r1 \<in> set (routes demo_profiled)" "?r2 \<in> set (routes demo_profiled)"
    by (simp_all add: routes_def demo_profiled_def)
  have m: "route_matches ?r1 ''GET'' ''/debug/pprof/trace''" "route_matches ?r2 ''GET'' ''/debug/pprof/trace''"
    by (simp_all add: method_matches_def)
  have "\<not> more_specific ?r2 ?r1"
    unfolding more_specific_def by (auto simp: method_matches_def intro!: exI [of _ "''GET''"] exI [of _ "''/debug/pprof/''"])
  with routes_most_specific [OF r m] show ?thesis by simp
qed

end
