(* ===== verification/Avrofmt_Props.thy ===== *)
theory Avrofmt_Props
  imports Avrofmt
begin

section \<open>What the Avro formatter guarantees\<close>

text \<open>
  The properties of \<open>internal/formatter/avro/avro.go\<close>: the bytes of large integers mean the same
  number when read as two's complement, and the table of types is consistent with what the columns of
  each type hold.
\<close>

subsection \<open>Large integers\<close>

lemma be_val_fill:
  "fill_bytes k i = Some bs \<Longrightarrow> length bs = k \<and> be_val bs = nat \<bar>i\<bar>"
  by (auto simp: fill_bytes_def be_val_be_bytes split: if_splits)

lemma twos_val_small: "int (be_val bs) * 2 < 256 ^ length bs \<Longrightarrow> twos_val bs = int (be_val bs)"
  by (simp add: twos_val_def Let_def)

lemma twos_val_large:
  "256 ^ length bs \<le> int (be_val bs) * 2 \<Longrightarrow> twos_val bs = int (be_val bs) - 256 ^ length bs"
  by (simp add: twos_val_def Let_def)

lemma uint64_bytes:
  "twos_val (CHR 0x00 # be_bytes 8 (unat (n :: u64))) = int (unat n)"
proof -
  have lt: "unat n < 256 ^ 8" using unsigned_less [of n] by simp
  then have v: "be_val (CHR 0x00 # be_bytes 8 (unat n)) = unat n"
    by (simp only: be_val_zero_Cons be_val_be_bytes)
  have "int (unat n) < 2 ^ 64" using uint_bounded [of n] by simp
  then have "twos_val (CHR 0x00 # be_bytes 8 (unat n)) = int (be_val (CHR 0x00 # be_bytes 8 (unat n)))"
    by (intro twos_val_small) (simp add: v del: of_nat_unat)
  then show ?thesis by (simp only: v)
qed

text \<open>Unsigned 64-bit integers: nine bytes, read as a signed number, are the value, as the leading zero
  keeps the sign bit clear. NULL stays NULL, and another dynamic type panics.\<close>

lemma uint64_decimal:
  "(\<exists>bs. uint64ToDecimalBytes (GUint64 n) = Some (GBytes bs) \<and> length bs = 9 \<and> twos_val bs = int (unat n)) \<and>
   uint64ToDecimalBytes GNil = Some GNil \<and> uint64ToDecimalBytes (GBigInt i) = None"
  using uint64_bytes [of n] by (auto simp: uint64ToDecimalBytes_def intro!: exI [of _ "CHR 0x00 # be_bytes 8 (unat n)"])

lemma huge_fits:
  assumes "- (2 ^ 135) \<le> n" and "n < (2 ^ 135 :: int)"
  shows "\<exists>bs. hugeIntToDecimalBytes (GBigInt n) = Some (GBytes bs) \<and> length bs = 17 \<and> twos_val bs = n"
proof (cases "n < 0")
  case True
  let ?i = "n + 2 ^ 136" and ?bs = "be_bytes 17 (nat (n + 2 ^ 136))"
  have i: "0 \<le> ?i" "?i < 256 ^ 17" "2 ^ 135 \<le> ?i" using True assms by simp_all
  then have "fill_bytes 17 ?i = Some ?bs" by (simp add: fill_bytes_def nat_less_iff)
  moreover from i have v: "be_val ?bs = nat ?i" by (intro be_val_be_bytes) (simp add: nat_less_iff)
  have "twos_val ?bs = int (be_val ?bs) - 256 ^ length ?bs"
  proof (rule twos_val_large)
    show "256 ^ length ?bs \<le> int (be_val ?bs) * 2" unfolding v using i by simp
  qed
  then have "twos_val ?bs = n" unfolding v using i by simp
  ultimately show ?thesis using True by (simp add: hugeIntToDecimalBytes_def Let_def)
next
  case False
  let ?bs = "be_bytes 17 (nat n)"
  have i: "0 \<le> n" "nat n < 256 ^ 17" using False assms by (simp_all add: nat_less_iff)
  then have "fill_bytes 17 n = Some ?bs" by (simp add: fill_bytes_def)
  moreover from i(2) have v: "be_val ?bs = nat n" by (rule be_val_be_bytes)
  have "twos_val ?bs = int (be_val ?bs)"
  proof (rule twos_val_small)
    show "int (be_val ?bs) * 2 < 256 ^ length ?bs" unfolding v using i assms by simp
  qed
  then have "twos_val ?bs = n" unfolding v using i by simp
  ultimately show ?thesis using False by (simp add: hugeIntToDecimalBytes_def Let_def)
qed

lemma huge_misread:
  assumes "2 ^ 135 \<le> n" and "n < (2 ^ 136 :: int)"
  shows "\<exists>bs. hugeIntToDecimalBytes (GBigInt n) = Some (GBytes bs) \<and> twos_val bs = n - 2 ^ 136"
proof -
  let ?bs = "be_bytes 17 (nat n)"
  have i: "0 \<le> n" "\<not> n < 0" "nat n < 256 ^ 17" using assms by (simp_all add: nat_less_iff)
  then have "fill_bytes 17 n = Some ?bs" by (simp add: fill_bytes_def)
  moreover from i(3) have v: "be_val ?bs = nat n" by (rule be_val_be_bytes)
  have "twos_val ?bs = int (be_val ?bs) - 256 ^ length ?bs"
  proof (rule twos_val_large)
    show "256 ^ length ?bs \<le> int (be_val ?bs) * 2" unfolding v using i assms by simp
  qed
  then have "twos_val ?bs = n - 2 ^ 136" unfolding v using i by simp
  ultimately show ?thesis using i by (simp add: hugeIntToDecimalBytes_def Let_def)
qed

text \<open>
  C30. Huge integers keep their value within 135 bits. The 17 bytes of the conversion read as two's
  complement are the number, which covers HUGEINT and UHUGEINT; from \<open>2 ^ 135\<close> up the bytes would read
  as a negative number, and from \<open>2 ^ 136\<close> up the conversion panics.
\<close>

theorem huge_decimal:
  "(- (2 ^ 135) \<le> n \<and> n < 2 ^ 135 \<longrightarrow>
     (\<exists>bs. hugeIntToDecimalBytes (GBigInt n) = Some (GBytes bs) \<and> length bs = 17 \<and> twos_val bs = n)) \<and>
   (2 ^ 135 \<le> n \<and> n < 2 ^ 136 \<longrightarrow>
     (\<exists>bs. hugeIntToDecimalBytes (GBigInt n) = Some (GBytes bs) \<and> twos_val bs = n - 2 ^ 136)) \<and>
   (2 ^ 136 \<le> n \<longrightarrow> hugeIntToDecimalBytes (GBigInt n) = None)"
proof (intro conjI impI)
  assume "2 ^ 136 \<le> n"
  then have "\<not> n < 0" "\<not> nat \<bar>n\<bar> < 256 ^ 17" by (simp_all add: nat_less_iff)
  then show "hugeIntToDecimalBytes (GBigInt n) = None"
    by (simp add: hugeIntToDecimalBytes_def fill_bytes_def Let_def)
qed (use huge_fits huge_misread in blast)+

theorem huge_decimal_witness:
  "\<exists>bs. hugeIntToDecimalBytes (GBigInt (- (2 ^ 127))) = Some (GBytes bs) \<and> length bs = 17 \<and>
     twos_val bs = - (2 ^ 127)"
  using huge_decimal [of "- (2 ^ 127)"] by simp

subsection \<open>Which columns can be written\<close>

text \<open>The dynamic values a driver delivers for a column of a type, as far as a conversion looks at them.\<close>

definition avro_value_ok :: "coltype \<Rightarrow> goval \<Rightarrow> bool" where
  "avro_value_ok t v \<longleftrightarrow>
     (if ct_DatabaseTypeName t = ''UBIGINT'' then v = GNil \<or> (\<exists>n. v = GUint64 n)
      else if ct_DatabaseTypeName t \<in> {''HUGEINT'', ''UHUGEINT''}
      then v = GNil \<or> (\<exists>n. v = GBigInt n \<and> - (2 ^ 135) \<le> n \<and> n < 2 ^ 135)
      else True)"

lemma type2field_conv:
  assumes "type2field api t = Inr (f, c)"
  shows "c = (if ct_DatabaseTypeName t = ''UBIGINT'' then Uint64ToDecimalBytes
              else if ct_DatabaseTypeName t \<in> {''HUGEINT'', ''UHUGEINT''} then HugeIntToDecimalBytes
              else NonConvert)"
proof -
  obtain a where m: "map_of avro_types (ct_DatabaseTypeName t) = Some (a, c)"
    using assms by (auto simp: type2field_def Let_def split: option.splits sum.splits if_splits)
  have all: "list_all (\<lambda>(n, a, c). c = (if n = ''UBIGINT'' then Uint64ToDecimalBytes
              else if n \<in> {''HUGEINT'', ''UHUGEINT''} then HugeIntToDecimalBytes else NonConvert)) avro_types"
    by (simp add: avro_types_def)
  from map_of_SomeD [OF m] all show ?thesis by (auto simp: list_all_iff)
qed

lemma schema_fields_convs:
  "schema_fields api ts = (fcs, None) \<Longrightarrow> list_all2 (\<lambda>t fc. type2field api t = Inr fc) ts fcs"
proof (induction ts arbitrary: fcs)
  case Nil
  then show ?case by simp
next
  case (Cons t ts)
  obtain fc where fc: "type2field api t = Inr fc"
    using Cons.prems by (cases "type2field api t") auto
  obtain fcs' e where s: "schema_fields api ts = (fcs', e)" by fastforce
  with fc Cons.prems have "e = None" "fcs = fc # fcs'" by simp_all
  with s fc Cons.IH show ?case by simp
qed

end
