(* ===== verification/Formats_Avro.thy ===== *)
theory Formats_Avro
  imports Formats Avrofmt_Props
begin

section \<open>A result as Avro, end to end\<close>

text \<open>
  What \<open>writeRows\<close> of \<open>duckserver/duckserver.go\<close> does with the Avro writer, down to the encoder of the
  library: which records it is given, in which order, and that they mean what the rows say.
\<close>

subsection \<open>A use of the encoder\<close>

text \<open>The records one after the other up to the first error, and \<open>Close\<close> if there was none.\<close>

fun avro_session ::
  "('fld, 'rec, 'enc, 'w) avro_api \<Rightarrow> 'enc \<Rightarrow> 'w \<Rightarrow> (gostr \<rightharpoonup> goval) list \<Rightarrow> 'w \<times> write_error option" where
  "avro_session api enc w [] = (case av_close api enc w of (w1, enc1, err) \<Rightarrow> (w1, io_result err))"
| "avro_session api enc w (r # rs) =
     (case av_encode api enc r w of
        (w1, enc1, Some err) \<Rightarrow> (w1, Some (WriteFailed err))
      | (w1, enc1, None) \<Rightarrow> avro_session api enc1 w1 rs)"

text \<open>The value \<open>v\<close> of a column of type \<open>t\<close> is represented by \<open>v'\<close>: the large integers are bytes that read,
  in two's complement, as the number.\<close>

definition avro_means :: "coltype \<Rightarrow> goval \<Rightarrow> goval \<Rightarrow> bool" where
  "avro_means t v v' \<longleftrightarrow>
     (if v = GNil then v' = GNil
      else if ct_DatabaseTypeName t = ''UBIGINT''
      then \<exists>n bs. v = GUint64 n \<and> v' = GBytes bs \<and> length bs = 9 \<and> twos_val bs = int (unat n)
      else if ct_DatabaseTypeName t \<in> {''HUGEINT'', ''UHUGEINT''}
      then \<exists>n bs. v = GBigInt n \<and> v' = GBytes bs \<and> length bs = 17 \<and> twos_val bs = n
      else v' = v)"

text \<open>A record has the fields \<open>ns\<close> and no other, each with what represents the value of its column, the last
  one if several columns have the name.\<close>

definition avro_record :: "gostr list \<Rightarrow> coltype list \<Rightarrow> goval list \<Rightarrow> (gostr \<rightharpoonup> goval) \<Rightarrow> bool" where
  "avro_record ns ts vs r \<longleftrightarrow> dom r = set ns \<and>
     (\<forall>j < length ts. ns ! j \<notin> set (drop (Suc j) ns) \<longrightarrow>
        (\<exists>v'. r (ns ! j) = Some v' \<and> avro_means (ts ! j) (vs ! j) v'))"

lemma conv_means:
  assumes "type2field api t = Inr (f, c)" and "avro_value_ok t v"
  shows "\<exists>v'. apply_conv c v = Some v' \<and> avro_means t v v'"
proof -
  note c = type2field_conv [OF assms(1)]
  consider (u) "ct_DatabaseTypeName t = ''UBIGINT''" | (h) "ct_DatabaseTypeName t \<in> {''HUGEINT'', ''UHUGEINT''}"
    | (o) "ct_DatabaseTypeName t \<noteq> ''UBIGINT''" "ct_DatabaseTypeName t \<notin> {''HUGEINT'', ''UHUGEINT''}" by blast
  then show ?thesis
  proof cases
    case u
    then have "c = Uint64ToDecimalBytes" unfolding c by simp
    moreover have "v = GNil \<or> (\<exists>n. v = GUint64 n)" using u assms(2) by (simp add: avro_value_ok_def)
    moreover have "\<exists>bs. uint64ToDecimalBytes (GUint64 n) = Some (GBytes bs) \<and> length bs = 9 \<and> twos_val bs = int (unat n)" for n
      using uint64_decimal by blast
    moreover have "uint64ToDecimalBytes GNil = Some GNil" by (simp add: uint64ToDecimalBytes_def)
    ultimately show ?thesis using u by (fastforce simp: avro_means_def)
  next
    case h
    then have "c = HugeIntToDecimalBytes" unfolding c by auto
    moreover have "v = GNil \<or> (\<exists>n bs. v = GBigInt n \<and> hugeIntToDecimalBytes (GBigInt n) = Some (GBytes bs) \<and>
        length bs = 17 \<and> twos_val bs = n)"
      using h assms(2) huge_fits by (fastforce simp: avro_value_ok_def)
    moreover have "hugeIntToDecimalBytes GNil = Some GNil" by (simp add: hugeIntToDecimalBytes_def)
    ultimately show ?thesis using h by (auto simp: avro_means_def)
  next
    case o
    then have "c = NonConvert" unfolding c by simp
    with o show ?thesis by (auto simp: avro_means_def)
  qed
qed

lemma avro_row_other: "avro_row ns cs vs m = Some r \<Longrightarrow> n \<notin> set ns \<Longrightarrow> r n = m n"
  by (induction ns cs vs m rule: avro_row.induct) (auto split: option.splits)

lemma avro_row_means:
  assumes "list_all2 (\<lambda>t fc. type2field api t = Inr fc) ts fcs" and "list_all2 avro_value_ok ts vs"
    and "length ns = length fcs"
  shows "\<exists>r. avro_row ns (map (\<lambda>(f, c). Some c) fcs) vs m = Some r \<and> dom r = dom m \<union> set ns \<and>
    (\<forall>j < length ts. ns ! j \<notin> set (drop (Suc j) ns) \<longrightarrow>
       (\<exists>v'. r (ns ! j) = Some v' \<and> avro_means (ts ! j) (vs ! j) v'))"
  using assms
proof (induction ts arbitrary: fcs vs ns m)
  case Nil
  then show ?case by simp
next
  case (Cons t ts)
  obtain f c fcs' where fcs: "fcs = (f, c) # fcs'" "type2field api t = Inr (f, c)"
    "list_all2 (\<lambda>t fc. type2field api t = Inr fc) ts fcs'"
    using Cons.prems(1) by (auto simp: list_all2_Cons1)
  obtain v vs' where vs: "vs = v # vs'" "avro_value_ok t v" "list_all2 avro_value_ok ts vs'"
    using Cons.prems(2) by (auto simp: list_all2_Cons1)
  obtain n ns' where ns: "ns = n # ns'" "length ns' = length fcs'"
    using Cons.prems(3) fcs(1) by (cases ns) auto
  obtain v' where v': "apply_conv c v = Some v'" "avro_means t v v'" using conv_means [OF fcs(2) vs(2)] by blast
  obtain r where r: "avro_row ns' (map (\<lambda>(f, c). Some c) fcs') vs' (m(n \<mapsto> v')) = Some r"
    "dom r = dom (m(n \<mapsto> v')) \<union> set ns'"
    "\<forall>j < length ts. ns' ! j \<notin> set (drop (Suc j) ns') \<longrightarrow> (\<exists>v'. r (ns' ! j) = Some v' \<and> avro_means (ts ! j) (vs' ! j) v')"
    using Cons.IH [OF fcs(3) vs(3) ns(2)] by blast
  have "r n = Some v'" if "n \<notin> set ns'" using avro_row_other [OF r(1) that] by simp
  with r(3) v'(2) have "\<forall>j < length (t # ts). ns ! j \<notin> set (drop (Suc j) ns) \<longrightarrow>
      (\<exists>v'. r (ns ! j) = Some v' \<and> avro_means ((t # ts) ! j) (vs ! j) v')"
    unfolding ns(1) vs(1) by (simp add: All_less_Suc2)
  moreover have "avro_row ns (map (\<lambda>(f, c). Some c) fcs) vs m = Some r"
    using r(1) v'(1) by (simp add: fcs(1) vs(1) ns(1))
  moreover have "dom r = dom m \<union> set ns" unfolding r(2) ns(1) by auto
  ultimately show ?case by blast
qed

subsection \<open>The rows\<close>

text \<open>An Avro writer whose header was written for the columns \<open>ts\<close> with the field names \<open>ns\<close>.\<close>

definition avro_ready :: "('fld, 'rec, 'enc, 'w) avro_api \<Rightarrow> coltype list \<Rightarrow> gostr list \<Rightarrow> 'enc \<Rightarrow> 'enc avro_writer \<Rightarrow> bool" where
  "avro_ready api ts ns enc aw \<longleftrightarrow> aw_encoder aw = Some enc \<and> aw_names aw = Some ns \<and>
     (\<exists>fcs. list_all2 (\<lambda>t fc. type2field api t = Inr fc) ts fcs \<and> length ns = length fcs \<and>
        aw_convs aw = map (\<lambda>(f, c). Some c) fcs)"

lemma avro_body_ready:
  assumes "avro_ready api ts ns enc aw" and "list_all2 avro_value_ok ts vs"
  obtains r where "avro_record ns ts vs r"
    "avro_WriteBody api aw w vs =
       (let (w1, enc1, err) = av_encode api enc r w in (aw\<lparr>aw_encoder := Some enc1\<rparr>, w1, io_result err))"
proof -
  obtain fcs where a: "aw_encoder aw = Some enc" "aw_names aw = Some ns"
    "list_all2 (\<lambda>t fc. type2field api t = Inr fc) ts fcs" "length ns = length fcs"
    "aw_convs aw = map (\<lambda>(f, c). Some c) fcs"
    using assms(1) by (auto simp: avro_ready_def)
  have "length vs = length ns" 
    using list_all2_lengthD [OF a(3)] list_all2_lengthD [OF assms(2)] a(4) by simp
  moreover obtain r where r: "avro_row ns (map (\<lambda>(f, c). Some c) fcs) vs Map.empty = Some r" "avro_record ns ts vs r"
    using avro_row_means [OF a(3) assms(2) a(4), of Map.empty] by (auto simp: avro_record_def)
  ultimately have "avro_WriteBody api aw w vs =
      (let (w1, enc1, err) = av_encode api enc r w in (aw\<lparr>aw_encoder := Some enc1\<rparr>, w1, io_result err))"
    using a by (simp add: avro_WriteBody_def)
  with r(2) show ?thesis by (rule that)
qed

lemma avro_rows_loop:
  "avro_ready (fa_avro api) ts ns enc aw \<Longrightarrow> list_all (list_all2 avro_value_ok ts) vss \<Longrightarrow>
   \<exists>rs fw. list_all2 (avro_record ns ts) vss rs \<and>
     rows_loop api (\<lambda>k. None) k (AvroWriter aw) w (map Inr vss) = (fw, avro_session (fa_avro api) enc w rs)"
proof (induction vss arbitrary: k enc aw w)
  case Nil
  obtain w1 enc1 err where c: "av_close (fa_avro api) enc w = (w1, enc1, err)" by (metis prod_cases3)
  with Nil.prems(1) have "avro_Flush (fa_avro api) aw w = (aw\<lparr>aw_encoder := Some enc1\<rparr>, w1, io_result err)"
    by (simp add: avro_ready_def avro_Flush_def)
  with c show ?case by (intro exI [of _ "[]"]) simp
next
  case (Cons vs vss)
  from Cons.prems(2) have v: "list_all2 avro_value_ok ts vs" "list_all (list_all2 avro_value_ok ts) vss" by simp_all
  obtain r where r: "avro_record ns ts vs r" "avro_WriteBody (fa_avro api) aw w vs =
      (let (w1, enc1, err) = av_encode (fa_avro api) enc r w in (aw\<lparr>aw_encoder := Some enc1\<rparr>, w1, io_result err))"
    by (rule avro_body_ready [OF Cons.prems(1) v(1)])
  obtain w1 enc1 err where e: "av_encode (fa_avro api) enc r w = (w1, enc1, err)" by (metis prod_cases3)
  have "avro_ready (fa_avro api) ts ns enc1 (aw\<lparr>aw_encoder := Some enc1\<rparr>)"
    using Cons.prems(1) by (simp add: avro_ready_def)
  from Cons.IH [OF this v(2), of "Suc k" w1] obtain rs fw where rs: "list_all2 (avro_record ns ts) vss rs"
    "rows_loop api (\<lambda>k. None) (Suc k) (AvroWriter (aw\<lparr>aw_encoder := Some enc1\<rparr>)) w1 (map Inr vss) =
       (fw, avro_session (fa_avro api) enc1 w1 rs)" by blast
  have "list_all2 (avro_record ns ts) (vs # vss) (r # rs)" using r(1) rs(1) by simp
  moreover have "\<exists>fw. rows_loop api (\<lambda>k. None) k (AvroWriter aw) w (map Inr (vs # vss)) =
      (fw, avro_session (fa_avro api) enc w (r # rs))"
    using r(2) e rs(2) by (cases err) (simp_all add: io_result_def)
  ultimately show ?case by blast
qed

text \<open>
  C17. A result in Avro says what the rows say. When the columns have supported types, the library accepts
  the schema, the values are what the driver delivers for the types, and the query is not cancelled while the
  rows are written, then the encoder is given one record for each row in the order of the rows, up to its
  first error, and is closed if it has none; a record has exactly the fields of the schema, each with the
  value of its column, the large integers as bytes that read as the number. If several columns have the same
  name, the record keeps the value of the last of them only. What \<open>writeRows\<close> leaves and returns is what the
  encoder leaves and reports: there is no panic.
\<close>

theorem avro_result_complete:
  assumes "schema_fields (fa_avro api) ts = (fcs, None)"
    and "av_record (fa_avro api) (param_Get ps ''name'' ''Table'') (param_Get ps ''ns'' ''net.kaoriya.duckpop'') (map fst fcs) = Inr rec"
    and "av_encoder (fa_avro api) rec w = (w1, Inr enc)" and "list_all (list_all2 avro_value_ok ts) vss"
  shows "\<exists>rs fw. list_all2 (avro_record (map (\<lambda>(f, c). av_field_name (fa_avro api) f) fcs) ts) vss rs \<and>
    writeRows api (\<lambda>k. None) (AvroWriter (avro_Create ps)) w \<lparr>rw_types = Inr ts, rw_rows = map Inr vss, rw_err = broken\<rparr> =
      (fw, avro_session (fa_avro api) enc w1 rs)"
proof -
  let ?ns = "map (\<lambda>(f, c). av_field_name (fa_avro api) f) fcs"
  let ?aw = "(avro_Create ps)\<lparr>aw_names := Some ?ns, aw_convs := map (\<lambda>(f, c). Some c) fcs, aw_encoder := Some enc\<rparr>"
  have len: "length fcs = length ts" using schema_fields_length [of "fa_avro api" ts] assms(1) by simp
  have h: "avro_WriteHeader (fa_avro api) (avro_Create ps) w ts = (?aw, w1, None)"
    using assms(1-3) len by (simp add: avro_WriteHeader_def types2schema_def avro_Create_def)
  have "avro_ready (fa_avro api) ts ?ns enc ?aw"
    using schema_fields_convs [OF assms(1)] by (auto simp: avro_ready_def)
  from avro_rows_loop [OF this assms(4), of 2 w1] h show ?thesis by (simp add: writeRows_def)
qed

text \<open>Two columns of the same name: the record has one field, and the first value is lost.\<close>

lemma avro_same_name_lost:
  "avro_row [n, n] [Some NonConvert, Some NonConvert] [v, v'] Map.empty = Some [n \<mapsto> v']"
  by simp

text \<open>An encoder that collects the records it is given.\<close>

definition collect_api :: "(gostr, unit, unit, unit, (gostr \<rightharpoonup> goval) list) fmt_api" where
  "collect_api = \<lparr>fa_put = (\<lambda>w s. (w, 0, None)), fa_sprint = (\<lambda>v. []),
     fa_avro = \<lparr>av_union = (\<lambda>t. None), av_field = (\<lambda>n t. Inr n), av_field_name = id,
       av_record = (\<lambda>n ns fs. Inr ()), av_encoder = (\<lambda>r w. (w, Inr ())),
       av_encode = (\<lambda>e r w. (w @ [r], e, None)), av_close = (\<lambda>e w. (w, e, None))\<rparr>,
     fa_table = \<lparr>tw_new = (\<lambda>s. ()), tw_header = (\<lambda>t ns. t), tw_append = (\<lambda>t vs. (t, None)),
       tw_render = (\<lambda>t w. (t, w, None))\<rparr>\<rparr>"

theorem avro_result_complete_witness:
  "\<exists>fw r bs. writeRows collect_api (\<lambda>k. None) (AvroWriter (avro_Create Map.empty)) []
      \<lparr>rw_types = Inr [\<lparr>ct_Name = ''N'', ct_DatabaseTypeName = ''UBIGINT''\<rparr>], rw_rows = map Inr [[GUint64 7]],
        rw_err = None\<rparr> = (fw, [r], None) \<and> r ''N'' = Some (GBytes bs) \<and> twos_val bs = 7"
proof -
  let ?ts = "[\<lparr>ct_Name = ''N'', ct_DatabaseTypeName = ''UBIGINT''\<rparr>]"
  have schema: "schema_fields (fa_avro collect_api) ?ts = ([(''N'', Uint64ToDecimalBytes)], None)"
    by (simp add: type2field_def avro_types_def collect_api_def)
  have lib: "av_record (fa_avro collect_api) n ns fs = Inr ()" "av_encoder (fa_avro collect_api) () [] = ([], Inr ())" for n ns fs
    by (simp_all add: collect_api_def)
  have ok: "list_all (list_all2 avro_value_ok ?ts) [[GUint64 7]]" by (simp add: avro_value_ok_def)
  obtain rs fw where rs: "list_all2 (avro_record [''N''] ?ts) [[GUint64 7]] rs"
    "writeRows collect_api (\<lambda>k. None) (AvroWriter (avro_Create Map.empty)) []
      \<lparr>rw_types = Inr ?ts, rw_rows = map Inr [[GUint64 7]], rw_err = None\<rparr> = (fw, avro_session (fa_avro collect_api) () [] rs)"
    using avro_result_complete [OF schema lib ok, of Map.empty None] by (auto simp: collect_api_def)
  then obtain r where r: "rs = [r]" "avro_record [''N''] ?ts [GUint64 7] r" by (auto simp: list_all2_Cons1)
  from r(2) obtain bs where "r ''N'' = Some (GBytes bs)" "twos_val bs = 7"
    by (auto simp: avro_record_def avro_means_def)
  moreover have "avro_session (fa_avro collect_api) () [] rs = ([r], None)"
    by (simp add: r(1) collect_api_def io_result_def)
  ultimately show ?thesis using rs(2) by auto
qed

end
