(* ===== verification/Goflag.thy ===== *)
theory Goflag
  imports Gostd
begin

section \<open>The Go standard library: flags and their values\<close>

text \<open>
  \<open>strconv.ParseBool\<close>, \<open>strconv.ParseInt\<close> with the base 0 that \<open>flag\<close> uses, which takes the base from the
  prefix of the number and allows underscores, and \<open>FlagSet.Parse\<close> of package \<open>flag\<close>.
\<close>

subsection \<open>strconv.ParseBool and strconv.ParseInt\<close>

definition ParseBool :: "gostr \<Rightarrow> bool option" where
  "ParseBool s =
     (if s \<in> set [''1'', ''t'', ''T'', ''TRUE'', ''true'', ''True''] then Some True
      else if s \<in> set [''0'', ''f'', ''F'', ''FALSE'', ''false'', ''False''] then Some False
      else None)"

text \<open>The value of a letter or digit; the underscore is handled before.\<close>

definition alnum_val :: "char \<Rightarrow> nat option" where
  "alnum_val c =
     (let n = of_char c :: nat; l = of_char (ascii_lower c) :: nat in
      if 48 \<le> n \<and> n \<le> 57 then Some (n - 48)
      else if 97 \<le> l \<and> l \<le> 122 then Some (l - 87)
      else None)"

text \<open>The digits of \<open>ParseUint\<close>, with 64 bits: underscores are skipped; the first digit that is none or
  overflows ends the loop.\<close>

fun parse_digits :: "nat \<Rightarrow> nat \<Rightarrow> gostr \<Rightarrow> num_error + nat" where
  "parse_digits base acc [] = Inr acc"
| "parse_digits base acc (c # cs) =
     (if c = CHR ''_'' then parse_digits base acc cs
      else (case alnum_val c of
          None \<Rightarrow> Inl ErrSyntax
        | Some d \<Rightarrow>
            if base \<le> d then Inl ErrSyntax
            else if 2 ^ 64 \<le> acc * base + d then Inl ErrRange
            else parse_digits base (acc * base + d) cs))"

text \<open>The base and the digits after its prefix. A number that starts with 0 is octal.\<close>

definition split_base :: "gostr \<Rightarrow> nat \<times> gostr" where
  "split_base s =
     (if has_prefix s ''0'' then
        (if 3 \<le> length s \<and> ascii_lower (s ! 1) = CHR ''b'' then (2, drop 2 s)
         else if 3 \<le> length s \<and> ascii_lower (s ! 1) = CHR ''o'' then (8, drop 2 s)
         else if 3 \<le> length s \<and> ascii_lower (s ! 1) = CHR ''x'' then (16, drop 2 s)
         else (8, drop 1 s))
      else (10, s))"

text \<open>\<open>underscoreOK\<close>: underscores only between digits, or after the prefix of the base. What was seen
  last is the start, a digit, an underscore or something else.\<close>

datatype last_seen = SeenStart | SeenDigit | SeenUnderscore | SeenOther

fun underscore_loop :: "bool \<Rightarrow> last_seen \<Rightarrow> gostr \<Rightarrow> bool" where
  "underscore_loop hex seen [] \<longleftrightarrow> seen \<noteq> SeenUnderscore"
| "underscore_loop hex seen (c # cs) \<longleftrightarrow>
     (let n = of_char c :: nat; l = of_char (ascii_lower c) :: nat in
      if 48 \<le> n \<and> n \<le> 57 \<or> hex \<and> 97 \<le> l \<and> l \<le> 102 then underscore_loop hex SeenDigit cs
      else if c = CHR ''_'' then seen = SeenDigit \<and> underscore_loop hex SeenUnderscore cs
      else seen \<noteq> SeenUnderscore \<and> underscore_loop hex SeenOther cs)"

definition underscoreOK :: "gostr \<Rightarrow> bool" where
  "underscoreOK s =
     (if 2 \<le> length s \<and> s ! 0 = CHR ''0'' \<and> ascii_lower (s ! 1) \<in> set ''box''
      then underscore_loop (ascii_lower (s ! 1) = CHR ''x'') SeenDigit (drop 2 s)
      else underscore_loop False SeenStart s)"

definition ParseUint0 :: "gostr \<Rightarrow> num_error + nat" where
  "ParseUint0 s =
     (if s = [] then Inl ErrSyntax
      else (let (base, ds) = split_base s in
        case parse_digits base 0 ds of
          Inl err \<Rightarrow> Inl err
        | Inr n \<Rightarrow> if CHR ''_'' \<in> set ds \<and> \<not> underscoreOK s then Inl ErrSyntax else Inr n))"

text \<open>\<open>ParseInt(s, 0, 64)\<close>.\<close>

definition ParseInt0 :: "gostr \<Rightarrow> num_error + int" where
  "ParseInt0 s =
     (let neg = has_prefix s ''-'';
          digits = (if neg \<or> has_prefix s ''+'' then drop 1 s else s) in
      if s = [] then Inl ErrSyntax
      else (case ParseUint0 digits of
          Inl err \<Rightarrow> Inl err
        | Inr n \<Rightarrow>
            if \<not> neg \<and> 2 ^ 63 \<le> n then Inl ErrRange
            else if neg \<and> 2 ^ 63 < n then Inl ErrRange
            else Inr (if neg then - int n else int n)))"

text \<open>Printing an integer of 64 bits and parsing it gives it back.\<close>

lemma digit_cases: "d < 10 \<Longrightarrow> d \<in> {0, 1, 2, 3, 4, 5, 6, 7, 8, 9 :: nat}"
  by auto

lemma alnum_digit: "d < 10 \<Longrightarrow> alnum_val (digit_char d) = Some d \<and> digit_char d \<noteq> CHR ''_''"
  by (drule digit_cases, elim insertE) (simp_all add: alnum_val_def digit_char_def digit_chars_def)

lemma parse_digits_append:
  "parse_digits b acc s = Inr n \<Longrightarrow> parse_digits b acc (s @ t) = parse_digits b n t"
  by (induction s arbitrary: acc) (auto split: if_splits option.splits)

lemma parse_digits_nat_dec: "n < 2 ^ 64 \<Longrightarrow> parse_digits 10 0 (nat_dec n) = Inr n"
proof (induction n rule: nat_dec.induct)
  case (1 n)
  show ?case
  proof (cases "n < 10")
    case True
    then show ?thesis using alnum_digit [of n] by (simp add: nat_dec.simps [of n])
  next
    case False
    then have "parse_digits 10 0 (nat_dec (n div 10)) = Inr (n div 10)" using "1" by simp
    then show ?thesis
      using False "1.prems" alnum_digit [of "n mod 10"]
      by (simp add: nat_dec.simps [of n] parse_digits_append)
  qed
qed

lemma nat_dec_first: "\<exists>d ds. nat_dec n = digit_char d # ds \<and> d < 10 \<and> (d = 0 \<longrightarrow> n = 0)"
proof (induction n rule: nat_dec.induct)
  case (1 n)
  show ?case
  proof (cases "n < 10")
    case True
    then show ?thesis by (intro exI [of _ n] exI [of _ "[]"]) (simp add: nat_dec.simps [of n])
  next
    case False
    with "1" obtain d ds where d: "nat_dec (n div 10) = digit_char d # ds" "d < 10" "d = 0 \<longrightarrow> n div 10 = 0" by blast
    with False have "d \<noteq> 0" by auto
    with d False show ?thesis
      by (intro exI [of _ d] exI [of _ "ds @ [digit_char (n mod 10)]"]) (simp add: nat_dec.simps [of n])
  qed
qed

lemma digit_char_cmp:
  "d < 10 \<Longrightarrow> (digit_char d = CHR ''0'' \<longleftrightarrow> d = 0) \<and> digit_char d \<noteq> CHR ''-'' \<and> digit_char d \<noteq> CHR ''+''"
  by (drule digit_cases, elim insertE) (simp_all add: digit_char_def digit_chars_def)

lemma nat_dec_no_underscore: "CHR ''_'' \<notin> set (nat_dec n)"
  using nat_dec_digits [of "CHR ''_''" n] by (auto simp: digit_chars_def)

lemma ParseUint0_nat_dec: "n < 2 ^ 64 \<Longrightarrow> ParseUint0 (nat_dec n) = Inr n"
proof -
  assume n: "n < 2 ^ 64"
  obtain d ds where d: "nat_dec n = digit_char d # ds" "d < 10" "d = 0 \<longrightarrow> n = 0" using nat_dec_first by blast
  show ?thesis
  proof (cases "d = 0")
    case True
    with d have "n = 0" by simp
    then show ?thesis
      by (simp add: nat_dec.simps ParseUint0_def split_base_def digit_char_def digit_chars_def)
  next
    case False
    then have "split_base (nat_dec n) = (10, nat_dec n)"
      using d digit_char_cmp [of d] by (simp add: split_base_def)
    then show ?thesis using parse_digits_nat_dec [OF n] nat_dec_no_underscore [of n] d(1) by (simp add: ParseUint0_def)
  qed
qed

lemma ParseInt0_int_dec:
  assumes "- (2 ^ 63) \<le> i" and "i < 2 ^ 63"
  shows "ParseInt0 (int_dec i) = Inr i"
proof (cases "i < 0")
  case True
  then have "ParseUint0 (nat_dec (nat (- i))) = Inr (nat (- i))" using assms(1) by (intro ParseUint0_nat_dec) auto
  with True assms show ?thesis by (simp add: ParseInt0_def int_dec_def)
next
  case False
  obtain d ds where d: "nat_dec (nat i) = digit_char d # ds" "d < 10" using nat_dec_first by blast
  have "ParseUint0 (nat_dec (nat i)) = Inr (nat i)" using assms(2) False by (intro ParseUint0_nat_dec) auto
  with False assms d digit_char_cmp [of d] show ?thesis by (simp add: ParseInt0_def int_dec_def)
qed

subsection \<open>FlagSet.Parse\<close>

text \<open>A flag that is defined: whether it is a boolean one, and how its value is set on what the flags
  are parsed into.\<close>

record 'c flag =
  fl_bool :: bool
  fl_set :: "gostr \<Rightarrow> 'c \<Rightarrow> 'c option"

datatype flag_error = ErrHelp | BadSyntax gostr | NotDefined gostr | NeedsArgument gostr | InvalidValue gostr gostr

text \<open>Name and value of a flag: the first equals sign that is not the first character splits them.\<close>

definition flag_split :: "gostr \<Rightarrow> gostr \<times> gostr option" where
  "flag_split nm =
     (let k = length (takeWhile (\<lambda>c. c \<noteq> CHR ''='') (drop 1 nm)) + 1 in
      if k < length nm then (take k nm, Some (drop (Suc k) nm)) else (nm, None))"

text \<open>\<open>parseOne\<close> until there is no flag any more; the result is what was parsed into and the arguments
  that are left.\<close>

fun flag_parse :: "(gostr \<rightharpoonup> 'c flag) \<Rightarrow> 'c \<Rightarrow> gostr list \<Rightarrow> flag_error + 'c \<times> gostr list" where
  "flag_parse flags c [] = Inr (c, [])"
| "flag_parse flags c (s # args) =
     (if length s < 2 \<or> s ! 0 \<noteq> CHR ''-'' then Inr (c, s # args)
      else if s = ''--'' then Inr (c, args)
      else (let nm = (if s ! 1 = CHR ''-'' then drop 2 s else drop 1 s) in
        if nm = [] \<or> hd nm = CHR ''-'' \<or> hd nm = CHR ''='' then Inl (BadSyntax s)
        else (case flag_split nm of
            (key, val) \<Rightarrow>
              (case flags key of
                 None \<Rightarrow> if key = ''help'' \<or> key = ''h'' then Inl ErrHelp else Inl (NotDefined key)
               | Some fl \<Rightarrow>
                   if fl_bool fl then
                     (let v = (case val of Some v \<Rightarrow> v | None \<Rightarrow> ''true'') in
                      case fl_set fl v c of
                        None \<Rightarrow> Inl (InvalidValue key v)
                      | Some c1 \<Rightarrow> flag_parse flags c1 args)
                   else (case val of
                       Some v \<Rightarrow>
                         (case fl_set fl v c of
                            None \<Rightarrow> Inl (InvalidValue key v)
                          | Some c1 \<Rightarrow> flag_parse flags c1 args)
                     | None \<Rightarrow>
                         (case args of
                            [] \<Rightarrow> Inl (NeedsArgument key)
                          | v # args1 \<Rightarrow>
                              (case fl_set fl v c of
                                 None \<Rightarrow> Inl (InvalidValue key v)
                               | Some c1 \<Rightarrow> flag_parse flags c1 args1)))))))"

declare flag_parse.simps(2) [simp del]

lemma flag_split_eq:
  assumes "CHR ''='' \<notin> set key" and "key \<noteq> []"
  shows "flag_split (key @ CHR ''='' # v) = (key, Some v)"
proof -
  obtain k ks where key: "key = k # ks" using assms(2) by (cases key) auto
  then have "takeWhile (\<lambda>c. c \<noteq> CHR ''='') (drop 1 (key @ CHR ''='' # v)) = ks"
    using assms(1) by (auto simp: takeWhile_append)
  with key show ?thesis by (simp add: flag_split_def Let_def)
qed

text \<open>A flag given with its value in one argument.\<close>

definition flag_arg :: "gostr \<Rightarrow> gostr \<Rightarrow> gostr" where
  "flag_arg key v = CHR ''-'' # key @ CHR ''='' # v"

lemma flag_parse_arg:
  assumes "flags key = Some fl" and "CHR ''='' \<notin> set key" and "key \<noteq> []" and "hd key \<noteq> CHR ''-''"
    and "fl_set fl v c = Some c1"
  shows "flag_parse flags c (flag_arg key v # args) = flag_parse flags c1 args"
proof -
  obtain k ks where key: "key = k # ks" using assms(3) by (cases key) auto
  have hd: "hd (key @ CHR ''='' # v) = k" "k \<noteq> CHR ''-''" "k \<noteq> CHR ''=''" using assms(2,4) key by auto
  show ?thesis
    using hd assms(1,5) flag_split_eq [OF assms(2,3), of v] key
    by (subst flag_parse.simps(2)) (simp add: flag_arg_def Let_def)
qed

end
