(* ===== verification/Mainprog.thy ===== *)
theory Mainprog
  imports Duckserver_Routes Goflag
begin

section \<open>main: the command line and the life of the server\<close>

text \<open>
  \<open>main.go\<close>, and \<open>setupAccessLogger\<close> and \<open>Serve\<close> of \<open>duckserver/duckserver.go\<close>: how a configuration comes
  from the command line, and in which order the server checks its database, writes its process
  identifier, opens its log and serves. Listening and the shutdown on a signal are a parameter.
\<close>

subsection \<open>The flags\<close>

text \<open>The flags are parsed into the configuration and the variable \<open>uiResourceDir\<close>.\<close>

type_synonym flag_vars = "config \<times> gostr"

definition bool_flag :: "(bool \<Rightarrow> config \<Rightarrow> config) \<Rightarrow> flag_vars flag" where
  "bool_flag upd = \<lparr>fl_bool = True, fl_set = (\<lambda>v (c, ui). map_option (\<lambda>b. (upd b c, ui)) (ParseBool v))\<rparr>"

definition int_flag :: "(int \<Rightarrow> config \<Rightarrow> config) \<Rightarrow> flag_vars flag" where
  "int_flag upd = \<lparr>fl_bool = False, fl_set = (\<lambda>v (c, ui).
     (case ParseInt0 v of Inl err \<Rightarrow> None | Inr i \<Rightarrow> Some (upd i c, ui)))\<rparr>"

definition str_flag :: "(gostr \<Rightarrow> config \<Rightarrow> config) \<Rightarrow> flag_vars flag" where
  "str_flag upd = \<lparr>fl_bool = False, fl_set = (\<lambda>v (c, ui). Some (upd v c, ui))\<rparr>"

definition config_flags :: "gostr \<rightharpoonup> flag_vars flag" where
  "config_flags =
     [''debug'' \<mapsto> bool_flag (\<lambda>b c. c\<lparr>cf_EnableDebugLog := b\<rparr>),
      ''pprof'' \<mapsto> bool_flag (\<lambda>b c. c\<lparr>cf_EnablePprof := b\<rparr>),
      ''addr'' \<mapsto> str_flag (\<lambda>v c. c\<lparr>cf_Address := v\<rparr>),
      ''maxbodysize'' \<mapsto> int_flag (\<lambda>i c. c\<lparr>cf_MaxBodySize := i\<rparr>),
      ''maxdb'' \<mapsto> int_flag (\<lambda>i c. c\<lparr>cf_MaxDB := i\<rparr>),
      ''pidfile'' \<mapsto> str_flag (\<lambda>v c. c\<lparr>cf_PIDFile := v\<rparr>),
      ''accesslog.file'' \<mapsto> str_flag (\<lambda>v c. c\<lparr>cf_AccessLogFile := v\<rparr>),
      ''accesslog.format'' \<mapsto> str_flag (\<lambda>v c. c\<lparr>cf_AccessLogFormat := v\<rparr>),
      ''authnfile'' \<mapsto> str_flag (\<lambda>v c. c\<lparr>cf_AuthnFile := v\<rparr>),
      ''noauthz'' \<mapsto> bool_flag (\<lambda>b c. c\<lparr>cf_NoAuthz := b\<rparr>),
      ''db.homedir'' \<mapsto> str_flag (\<lambda>v c. c\<lparr>cf_DBHomeDir := v\<rparr>),
      ''db.threads'' \<mapsto> int_flag (\<lambda>i c. c\<lparr>cf_DBThreads := i\<rparr>),
      ''db.memorylimit'' \<mapsto> str_flag (\<lambda>v c. c\<lparr>cf_DBMemoryLimit := v\<rparr>),
      ''db.maxtempdirsize'' \<mapsto> str_flag (\<lambda>v c. c\<lparr>cf_DBMaxTempDirSize := v\<rparr>),
      ''db.externalaccess'' \<mapsto> bool_flag (\<lambda>b c. c\<lparr>cf_DBExternalAccess := b\<rparr>),
      ''db.lockconfig'' \<mapsto> bool_flag (\<lambda>b c. c\<lparr>cf_DBLockConfig := b\<rparr>),
      ''db.initquery'' \<mapsto> str_flag (\<lambda>v c. c\<lparr>cf_DBInitQuery := v\<rparr>),
      ''ui.resourcedir'' \<mapsto> \<lparr>fl_bool = False, fl_set = (\<lambda>v (c, ui). Some (c, v))\<rparr>]"

text \<open>\<open>main.go\<close> has a \<open>getwd\<close> of its own.\<close>

definition main_getwd :: "gostr + gostr \<Rightarrow> gostr" where
  "main_getwd wd = (case wd of Inl err \<Rightarrow> [] | Inr d \<Rightarrow> d)"

text \<open>Defining a flag sets its variable to the default.\<close>

definition flag_defaults :: "gostr + gostr \<Rightarrow> config \<Rightarrow> config" where
  "flag_defaults wd c =
     c\<lparr>cf_EnableDebugLog := False, cf_EnablePprof := False, cf_Address := ''localhost:9281'',
       cf_MaxBodySize := 1048576, cf_MaxDB := 20, cf_PIDFile := [], cf_AccessLogFile := [],
       cf_AccessLogFormat := ''text'', cf_AuthnFile := [], cf_NoAuthz := False,
       cf_DBHomeDir := filepath_Join [main_getwd wd, ''.duckpop''], cf_DBThreads := 1, cf_DBMemoryLimit := ''1GiB'',
       cf_DBMaxTempDirSize := ''10GiB'', cf_DBExternalAccess := True, cf_DBLockConfig := True,
       cf_DBInitQuery := []\<rparr>"

text \<open>\<open>fs.Sub\<close> of the embedded files cannot fail: the name of the directory is valid.\<close>

definition getUIFS :: "gostr \<Rightarrow> gostr + ui_fs" where
  "getUIFS override = (if override \<noteq> [] then Inr (UIDir override) else Inr UIEmbedded)"

text \<open>\<open>flag.Parse\<close> exits with 0 when help is asked for and with 2 on an error.\<close>

datatype flag_result = FlagExit nat | FlagErr gostr | FlagConfig config

definition flag2config ::
  "gostr + gostr \<Rightarrow> (gostr \<Rightarrow> gostr + gostr) \<Rightarrow> gostr list \<Rightarrow> config \<Rightarrow> flag_result" where
  "flag2config wd readfile args c =
     (case flag_parse config_flags (flag_defaults wd c, []) args of
        Inl err \<Rightarrow> FlagExit (if err = ErrHelp then 0 else 2)
      | Inr ((c1, uiResourceDir), rest) \<Rightarrow>
          if cf_NoAuthz c1 \<and> cf_AuthnFile c1 = [] then FlagErr ''-noauthz needs to be used with -authnfile''
          else (case (if has_prefix (cf_DBInitQuery c1) ''@'' then readfile (drop 1 (cf_DBInitQuery c1))
                      else Inr (cf_DBInitQuery c1)) of
              Inl err \<Rightarrow> FlagErr (''failed to read init query: '' @ err)
            | Inr q \<Rightarrow>
                (case getUIFS uiResourceDir of
                   Inl err \<Rightarrow> FlagErr err
                 | Inr fs \<Rightarrow> FlagConfig (c1\<lparr>cf_DBInitQuery := q, cf_UIResourceFS := Some fs\<rparr>))))"

subsection \<open>Serving\<close>

datatype log_sink = LogStdout | LogFile gostr

record access_logger =
  lg_format :: logFormat
  lg_sink :: log_sink

text \<open>The process around the server: the file with its identifier, the log file, and \<open>ctxsrv\<close>, which
  listens until a signal and returns an error or nil.\<close>

record 'w host =
  ho_pid_write :: "gostr \<Rightarrow> 'w \<Rightarrow> 'w \<times> gostr option"
  ho_pid_close :: "'w \<Rightarrow> 'w"
  ho_log_open :: "gostr \<Rightarrow> 'w \<Rightarrow> 'w \<times> gostr option"
  ho_log_close :: "gostr \<Rightarrow> 'w \<Rightarrow> 'w"
  ho_serve :: "server \<Rightarrow> access_logger option \<Rightarrow> 'w \<Rightarrow> 'w \<times> gostr option"

text \<open>The result is the logger, if there is one, and what is to be closed. The case of a format that is
  neither text nor JSON does not arise: \<open>New\<close> sets one of the two.\<close>

definition setupAccessLogger ::
  "'w host \<Rightarrow> server \<Rightarrow> 'w \<Rightarrow> 'w \<times> (gostr + access_logger option \<times> gostr option)" where
  "setupAccessLogger host srv w =
     (if sv_accessLogFile srv = ''test.discard'' then (w, Inr (None, None))
      else if sv_accessLogFile srv \<noteq> [] then
        (case ho_log_open host (sv_accessLogFile srv) w of
           (w1, Some err) \<Rightarrow> (w1, Inl (''failed to open access log file: '' @ err))
         | (w1, None) \<Rightarrow>
             (w1, Inr (Some \<lparr>lg_format = sv_accessLogFormat srv, lg_sink = LogFile (sv_accessLogFile srv)\<rparr>,
                Some (sv_accessLogFile srv))))
      else (w, Inr (Some \<lparr>lg_format = sv_accessLogFormat srv, lg_sink = LogStdout\<rparr>, None)))"

text \<open>\<open>Serve\<close>; the deferred calls close the log, then the file with the process identifier.\<close>

definition Serve :: "'w dbenv \<Rightarrow> 'w host \<Rightarrow> server \<Rightarrow> 'w \<Rightarrow> 'w \<times> gostr option" where
  "Serve env host srv w =
     (case checkDB env srv w of
        (w1, Some err) \<Rightarrow> (w1, Some err)
      | (w1, None) \<Rightarrow>
          (case (if sv_pidFile srv \<noteq> [] then ho_pid_write host (sv_pidFile srv) w1 else (w1, None)) of
             (w2, Some err) \<Rightarrow> (w2, Some (''failed to create PID file: '' @ err))
           | (w2, None) \<Rightarrow>
               (let (w5, err) =
                  (case setupAccessLogger host srv w2 of
                     (w3, Inl err) \<Rightarrow> (w3, Some err)
                   | (w3, Inr (logger, closer)) \<Rightarrow>
                       (let (w4, err) = ho_serve host srv logger w3 in
                        ((case closer of None \<Rightarrow> w4 | Some f \<Rightarrow> ho_log_close host f w4), err))) in
                ((if sv_pidFile srv \<noteq> [] then ho_pid_close host w5 else w5), err))))"

text \<open>\<open>run\<close> and \<open>main\<close>: the exit code.\<close>

definition main_run ::
  "(gostr \<Rightarrow> gostr) \<Rightarrow> (gostr \<Rightarrow> gostr) \<Rightarrow> (gostr \<Rightarrow> gostr + gostr) \<Rightarrow> (gostr \<Rightarrow> gostr + authenticator)
   \<Rightarrow> gostr + gostr \<Rightarrow> (gostr \<Rightarrow> gostr + gostr) \<Rightarrow> 'w dbenv \<Rightarrow> 'w host \<Rightarrow> gostr list \<Rightarrow> 'w \<Rightarrow> 'w \<times> nat" where
  "main_run ul quote abspath load wd readfile env host args w =
     (case flag2config wd readfile args (DefaultConfig wd) of
        FlagExit n \<Rightarrow> (w, n)
      | FlagErr err \<Rightarrow> (w, 1)
      | FlagConfig c \<Rightarrow>
          (case Server_New ul quote abspath load c of
             Inl err \<Rightarrow> (w, 1)
           | Inr srv \<Rightarrow>
               (case Serve env host srv w of (w1, Some err) \<Rightarrow> (w1, 1) | (w1, None) \<Rightarrow> (w1, 0))))"

subsection \<open>The properties\<close>

text \<open>A configuration as the arguments that give it.\<close>

definition bool_str :: "bool \<Rightarrow> gostr" where
  "bool_str b = (if b then ''true'' else ''false'')"

definition config_args :: "config \<Rightarrow> gostr \<Rightarrow> gostr list" where
  "config_args c ui = map (\<lambda>(k, v). flag_arg k v)
     [(''debug'', bool_str (cf_EnableDebugLog c)), (''pprof'', bool_str (cf_EnablePprof c)),
      (''addr'', cf_Address c), (''maxbodysize'', int_dec (cf_MaxBodySize c)), (''maxdb'', int_dec (cf_MaxDB c)),
      (''pidfile'', cf_PIDFile c), (''accesslog.file'', cf_AccessLogFile c),
      (''accesslog.format'', cf_AccessLogFormat c), (''authnfile'', cf_AuthnFile c),
      (''noauthz'', bool_str (cf_NoAuthz c)), (''db.homedir'', cf_DBHomeDir c),
      (''db.threads'', int_dec (cf_DBThreads c)), (''db.memorylimit'', cf_DBMemoryLimit c),
      (''db.maxtempdirsize'', cf_DBMaxTempDirSize c), (''db.externalaccess'', bool_str (cf_DBExternalAccess c)),
      (''db.lockconfig'', bool_str (cf_DBLockConfig c)), (''db.initquery'', cf_DBInitQuery c),
      (''ui.resourcedir'', ui)]"

lemma ParseBool_str: "ParseBool (bool_str b) = Some b"
  by (simp add: ParseBool_def bool_str_def)

lemma set_flags:
  "fl_set (bool_flag ub) (bool_str b) (c, ui) = Some (ub b c, ui)"
  "fl_set (str_flag us) v (c, ui) = Some (us v c, ui)"
  "- (2 ^ 63) \<le> i \<Longrightarrow> i < 2 ^ 63 \<Longrightarrow> fl_set (int_flag un) (int_dec i) (c, ui) = Some (un i c, ui)"
  by (simp_all add: bool_flag_def str_flag_def int_flag_def ParseBool_str ParseInt0_int_dec)

definition int64_ok :: "int \<Rightarrow> bool" where
  "int64_ok i \<longleftrightarrow> - (2 ^ 63) \<le> i \<and> i < 2 ^ 63"

lemma config_flag_lookup:
  "config_flags ''debug'' = Some (bool_flag (\<lambda>b c. c\<lparr>cf_EnableDebugLog := b\<rparr>))"
  "config_flags ''pprof'' = Some (bool_flag (\<lambda>b c. c\<lparr>cf_EnablePprof := b\<rparr>))"
  "config_flags ''addr'' = Some (str_flag (\<lambda>v c. c\<lparr>cf_Address := v\<rparr>))"
  "config_flags ''maxbodysize'' = Some (int_flag (\<lambda>i c. c\<lparr>cf_MaxBodySize := i\<rparr>))"
  "config_flags ''maxdb'' = Some (int_flag (\<lambda>i c. c\<lparr>cf_MaxDB := i\<rparr>))"
  "config_flags ''pidfile'' = Some (str_flag (\<lambda>v c. c\<lparr>cf_PIDFile := v\<rparr>))"
  "config_flags ''accesslog.file'' = Some (str_flag (\<lambda>v c. c\<lparr>cf_AccessLogFile := v\<rparr>))"
  "config_flags ''accesslog.format'' = Some (str_flag (\<lambda>v c. c\<lparr>cf_AccessLogFormat := v\<rparr>))"
  "config_flags ''authnfile'' = Some (str_flag (\<lambda>v c. c\<lparr>cf_AuthnFile := v\<rparr>))"
  "config_flags ''noauthz'' = Some (bool_flag (\<lambda>b c. c\<lparr>cf_NoAuthz := b\<rparr>))"
  "config_flags ''db.homedir'' = Some (str_flag (\<lambda>v c. c\<lparr>cf_DBHomeDir := v\<rparr>))"
  "config_flags ''db.threads'' = Some (int_flag (\<lambda>i c. c\<lparr>cf_DBThreads := i\<rparr>))"
  "config_flags ''db.memorylimit'' = Some (str_flag (\<lambda>v c. c\<lparr>cf_DBMemoryLimit := v\<rparr>))"
  "config_flags ''db.maxtempdirsize'' = Some (str_flag (\<lambda>v c. c\<lparr>cf_DBMaxTempDirSize := v\<rparr>))"
  "config_flags ''db.externalaccess'' = Some (bool_flag (\<lambda>b c. c\<lparr>cf_DBExternalAccess := b\<rparr>))"
  "config_flags ''db.lockconfig'' = Some (bool_flag (\<lambda>b c. c\<lparr>cf_DBLockConfig := b\<rparr>))"
  "config_flags ''db.initquery'' = Some (str_flag (\<lambda>v c. c\<lparr>cf_DBInitQuery := v\<rparr>))"
  "config_flags ''ui.resourcedir'' = Some (\<lparr>fl_bool = False, fl_set = (\<lambda>v (c, ui). Some (c, v))\<rparr>)"
  by (simp_all add: config_flags_def)

lemma flag_steps:
  "config_flags key = Some (bool_flag ub) \<Longrightarrow> CHR ''='' \<notin> set key \<Longrightarrow> key \<noteq> [] \<Longrightarrow> hd key \<noteq> CHR ''-'' \<Longrightarrow>
   flag_parse config_flags (c, ui) (flag_arg key (bool_str b) # args) = flag_parse config_flags (ub b c, ui) args"
  "config_flags key = Some (str_flag us) \<Longrightarrow> CHR ''='' \<notin> set key \<Longrightarrow> key \<noteq> [] \<Longrightarrow> hd key \<noteq> CHR ''-'' \<Longrightarrow>
   flag_parse config_flags (c, ui) (flag_arg key v # args) = flag_parse config_flags (us v c, ui) args"
  "config_flags key = Some (int_flag un) \<Longrightarrow> CHR ''='' \<notin> set key \<Longrightarrow> key \<noteq> [] \<Longrightarrow> hd key \<noteq> CHR ''-'' \<Longrightarrow> int64_ok i \<Longrightarrow>
   flag_parse config_flags (c, ui) (flag_arg key (int_dec i) # args) = flag_parse config_flags (un i c, ui) args"
  by (simp_all add: flag_parse_arg [where flags = config_flags] set_flags int64_ok_def)

lemma ui_flag_step:
  "flag_parse config_flags (c, ui) [flag_arg ''ui.resourcedir'' v] = Inr ((c, v), [])"
  by (simp add: flag_parse_arg [where flags = config_flags and key = "''ui.resourcedir''"] config_flag_lookup)

lemma flag_parse_config:
  assumes "int64_ok (cf_MaxBodySize c)" "int64_ok (cf_MaxDB c)" "int64_ok (cf_DBThreads c)"
  shows "flag_parse config_flags (flag_defaults wd c0, []) (config_args c ui) =
    Inr ((c\<lparr>cf_UIResourceFS := cf_UIResourceFS c0\<rparr>, ui), [])"
  unfolding config_args_def list.map prod.case
  using assms
  by (simp add: flag_steps config_flag_lookup ui_flag_step) (simp add: flag_defaults_def)

text \<open>
  C27. The command line. When the values of a configuration are each printed as one argument, with numbers
  of at most 64 bits, the flags are parsed back to it, with two exceptions: \<open>-noauthz\<close> without a credential
  file is an error, and an initialisation query that starts with \<open>@\<close> stands for the content of the file it
  names, which is read, and an error if that fails. Without arguments the configuration is the one of
  \<open>DefaultConfig\<close>, so the defaults that the code states twice agree, with the embedded UI.
\<close>

theorem flags_round_trip:
  assumes "int64_ok (cf_MaxBodySize c)" and "int64_ok (cf_MaxDB c)" and "int64_ok (cf_DBThreads c)"
  shows "flag2config wd readfile (config_args c ui) c0 =
      (if cf_NoAuthz c \<and> cf_AuthnFile c = [] then FlagErr ''-noauthz needs to be used with -authnfile''
       else if has_prefix (cf_DBInitQuery c) ''@'' then
         (case readfile (drop 1 (cf_DBInitQuery c)) of
            Inl err \<Rightarrow> FlagErr (''failed to read init query: '' @ err)
          | Inr q \<Rightarrow> FlagConfig (c\<lparr>cf_DBInitQuery := q,
              cf_UIResourceFS := Some (if ui = [] then UIEmbedded else UIDir ui)\<rparr>))
       else FlagConfig (c\<lparr>cf_UIResourceFS := Some (if ui = [] then UIEmbedded else UIDir ui)\<rparr>)) \<and>
    flag2config wd readfile [] c0 = FlagConfig ((DefaultConfig wd)\<lparr>cf_UIResourceFS := Some UIEmbedded\<rparr>)"
proof
  show "flag2config wd readfile [] c0 = FlagConfig ((DefaultConfig wd)\<lparr>cf_UIResourceFS := Some UIEmbedded\<rparr>)"
    by (simp add: flag2config_def flag_defaults_def DefaultConfig_def getUIFS_def getwd_def main_getwd_def)
qed (simp add: flag2config_def flag_parse_config [OF assms] getUIFS_def split: sum.split)

theorem flags_round_trip_witness:
  "flag2config (Inr ''/h'') Inr (config_args ((DefaultConfig (Inr ''/h''))\<lparr>cf_MaxDB := -3, cf_PIDFile := ''=a''\<rparr>) ''ui'')
      (DefaultConfig (Inr [])) =
    FlagConfig ((DefaultConfig (Inr ''/h''))\<lparr>cf_MaxDB := -3, cf_PIDFile := ''=a'', cf_UIResourceFS := Some (UIDir ''ui'')\<rparr>) \<and>
   flag2config (Inr ''/h'') (\<lambda>f. Inr (''SELECT '' @ f)) (config_args ((DefaultConfig (Inr ''/h''))\<lparr>cf_DBInitQuery := ''@1''\<rparr>) [])
      (DefaultConfig (Inr [])) =
    FlagConfig ((DefaultConfig (Inr ''/h''))\<lparr>cf_DBInitQuery := ''SELECT 1'', cf_UIResourceFS := Some UIEmbedded\<rparr>)"
  using flags_round_trip [of "(DefaultConfig (Inr ''/h''))\<lparr>cf_MaxDB := -3, cf_PIDFile := ''=a''\<rparr>" "Inr ''/h''" Inr
      "''ui''" "DefaultConfig (Inr [])"]
    flags_round_trip [of "(DefaultConfig (Inr ''/h''))\<lparr>cf_DBInitQuery := ''@1''\<rparr>" "Inr ''/h''" "\<lambda>f. Inr (''SELECT '' @ f)"
      "[]" "DefaultConfig (Inr [])"]
  by (simp add: int64_ok_def DefaultConfig_def has_prefix_def)

subsection \<open>What is opened is closed\<close>

text \<open>A host that records what is done to it, in its world.\<close>

datatype host_event = PidWritten | PidClosed | LogOpened | LogClosed | Served

definition recording :: "'w host \<Rightarrow> ('w \<times> host_event list) host" where
  "recording host =
     \<lparr>ho_pid_write = (\<lambda>f (w, tr). (case ho_pid_write host f w of
        (w1, None) \<Rightarrow> ((w1, tr @ [PidWritten]), None) | (w1, Some err) \<Rightarrow> ((w1, tr), Some err))),
      ho_pid_close = (\<lambda>(w, tr). (ho_pid_close host w, tr @ [PidClosed])),
      ho_log_open = (\<lambda>f (w, tr). (case ho_log_open host f w of
        (w1, None) \<Rightarrow> ((w1, tr @ [LogOpened]), None) | (w1, Some err) \<Rightarrow> ((w1, tr), Some err))),
      ho_log_close = (\<lambda>f (w, tr). (ho_log_close host f w, tr @ [LogClosed])),
      ho_serve = (\<lambda>srv lg (w, tr). (case ho_serve host srv lg w of (w1, err) \<Rightarrow> ((w1, tr @ [Served]), err)))\<rparr>"

text \<open>The events of a run: nested, each resource released in the reverse order.\<close>

fun nested :: "host_event list \<Rightarrow> host_event list \<Rightarrow> bool" where
  "nested held [] \<longleftrightarrow> held = []"
| "nested held (PidWritten # tr) \<longleftrightarrow> held = [] \<and> nested [PidWritten] tr"
| "nested held (LogOpened # tr) \<longleftrightarrow> LogOpened \<notin> set held \<and> nested (LogOpened # held) tr"
| "nested held (LogClosed # tr) \<longleftrightarrow> (case held of LogOpened # below \<Rightarrow> nested below tr | _ \<Rightarrow> False)"
| "nested held (PidClosed # tr) \<longleftrightarrow> (case held of PidWritten # below \<Rightarrow> nested below tr | _ \<Rightarrow> False)"
| "nested held (Served # tr) \<longleftrightarrow> nested held tr"

text \<open>
  C28. Serving in order. Nothing is written and nothing is served unless the database could be opened;
  whichever step fails and however serving ends, the log file is closed before the file with the
  process identifier is removed, each of them exactly once and only if it was opened; and \<open>Serve\<close>
  returns nil only after it has served.
\<close>

theorem serve_releases:
  assumes "checkDB env srv (w, []) = ((w1, []), e)"
    and "Serve env (recording host) srv (w, []) = ((w', tr), err)"
  shows "nested [] tr \<and> (e \<noteq> None \<longrightarrow> tr = [] \<and> err = e) \<and> (err = None \<longrightarrow> Served \<in> set tr)"
  using assms
  by (auto simp: Serve_def setupAccessLogger_def recording_def Let_def
      split: option.splits prod.splits sum.splits if_splits)

text \<open>A world in which everything succeeds but serving, which ends with an error.\<close>

definition trace_env :: "(nat \<times> host_event list) dbenv" where
  "trace_env = \<lparr>db_mkdir = (\<lambda>d k w. (w, None)), db_remove_all = (\<lambda>d w. (w, None)),
     db_duck = \<lparr>dk_open = (\<lambda>d w. (w, Inr 0)), dk_conn = (\<lambda>db w. (w, Inr 0)),
       dk_exec = (\<lambda>c st w. (w, None)), dk_conn_close = (\<lambda>c w. (w, None)), dk_db_close = (\<lambda>db w. (w, None))\<rparr>,
     db_ping = (\<lambda>c w. (w, None)), db_set_max_idle = (\<lambda>db n w. w)\<rparr>"

definition failing_host :: "nat host" where
  "failing_host = \<lparr>ho_pid_write = (\<lambda>f w. (w, None)), ho_pid_close = Suc, ho_log_open = (\<lambda>f w. (w, None)),
     ho_log_close = (\<lambda>f w. w), ho_serve = (\<lambda>srv lg w. (w, Some ''listen''))\<rparr>"

definition logging_srv :: server where
  "logging_srv = \<lparr>sv_config = DefaultConfig (Inr ''/h''), sv_address = [], sv_pidFile = ''pid'',
     sv_accessLogFile = ''log'', sv_accessLogFormat = TextLog, sv_authenticator = None, sv_withoutAuthz = False,
     sv_dbSharedDir = [], sv_dbPrivateRoot = [],
     sv_dbSettings = \<lparr>HomeDir = ''/h'', Threads = 1, MemoryLimit = [], ExtensionDir = [], SecretDir = [],
       TempDir = [], MaxTempDirSize = [], AllowedDirectories = [], EnableExternalAccess = True, LockConfig = True\<rparr>,
     sv_dbInitQuery = []\<rparr>"

lemma trace_checkDB: "checkDB trace_env logging_srv w = (w, None)"
proof -
  have run: "run_stmts (db_duck trace_env) conn sts x = (x, None)" for conn sts x
    by (induction sts) (simp_all add: trace_env_def)
  have dk: "dk_open (db_duck trace_env) d x = (x, Inr 0)" "dk_conn (db_duck trace_env) db x = (x, Inr 0)"
    "dk_db_close (db_duck trace_env) db x = (x, None)" "dk_conn_close (db_duck trace_env) c x = (x, None)"
    "db_ping trace_env c x = (x, None)" for d db c x
    by (simp_all add: trace_env_def)
  have "connectDuckDB trace_env logging_srv background w = (w, Inr (0, 0))"
    by (simp add: connectDuckDB_def getPrivateDir_def duckdbinit_Open_def settings_init_run run dk logging_srv_def Let_def)
  then show ?thesis by (simp add: checkDB_def dk)
qed

theorem serve_releases_witness:
  "\<exists>w'. Serve trace_env (recording failing_host) logging_srv (0, []) =
      ((w', [PidWritten, LogOpened, Served, LogClosed, PidClosed]), Some ''listen'') \<and>
    nested [] [PidWritten, LogOpened, Served, LogClosed, PidClosed]"
proof -
  have f: "sv_pidFile logging_srv = ''pid''" "sv_accessLogFile logging_srv = ''log''" by (simp_all add: logging_srv_def)
  have s: "Serve trace_env (recording failing_host) logging_srv (0, []) =
      ((1, [PidWritten, LogOpened, Served, LogClosed, PidClosed]), Some ''listen'')"
    by (simp add: Serve_def trace_checkDB setupAccessLogger_def f recording_def failing_host_def Let_def)
  from serve_releases [OF trace_checkDB s] s show ?thesis by blast
qed

end
