(* ===== verification/Conndb_Refine.thy ===== *)
theory Conndb_Refine
  imports Conndb_Props "HOL-Library.Multiset"
begin

section \<open>The connection manager refines a bounded pool\<close>

text \<open>
  An abstract specification of \<open>internal/conndb/conndb.go\<close> without its tables, pointers and counter: a
  pool says which connections there are and which database each has, which databases of closed
  connections still have to be closed, and which are being closed with their slot given back already.
  The manager is mapped to a pool by \<open>pool_of\<close>, and every step it takes under the HTTP/1 discipline is a
  step of the pool.
\<close>

subsection \<open>The pool\<close>

record pool =
  pl_conns :: "nat \<rightharpoonup> nat option"
  pl_closing :: "nat option multiset"
  pl_ending :: "nat option multiset"

definition empty_pool :: pool where
  "empty_pool = \<lparr>pl_conns = Map.empty, pl_closing = {#}, pl_ending = {#}\<rparr>"

definition with_db :: "pool \<Rightarrow> nat set" where
  "with_db p = {c. \<exists>db. pl_conns p c = Some (Some db)}"

text \<open>The number of slots that are taken, and the number of databases that are open.\<close>

definition dbs_in :: "nat option multiset \<Rightarrow> nat" where
  "dbs_in M = size (filter_mset (\<lambda>d. d \<noteq> None) M)"

definition pool_size :: "pool \<Rightarrow> nat" where
  "pool_size p = card (with_db p) + dbs_in (pl_closing p)"

definition pool_open_dbs :: "pool \<Rightarrow> nat" where
  "pool_open_dbs p = pool_size p + dbs_in (pl_ending p)"

inductive pool_step :: "int \<Rightarrow> pool \<Rightarrow> pool \<Rightarrow> bool" for n :: int where
  pool_enter: "pl_conns p c = None \<Longrightarrow> pool_step n p (p\<lparr>pl_conns := (pl_conns p)(c \<mapsto> None)\<rparr>)"
| pool_open: "pl_conns p c = Some None \<Longrightarrow> int (pool_size p) < n \<Longrightarrow>
    pool_step n p (p\<lparr>pl_conns := (pl_conns p)(c \<mapsto> Some db)\<rparr>)"
| pool_leave: "pl_conns p c = Some d \<Longrightarrow>
    pool_step n p (p\<lparr>pl_conns := (pl_conns p)(c := None), pl_closing := add_mset d (pl_closing p)\<rparr>)"
| pool_free: "d \<in># pl_closing p \<Longrightarrow>
    pool_step n p (p\<lparr>pl_closing := pl_closing p - {#d#}, pl_ending := add_mset d (pl_ending p)\<rparr>)"
| pool_clean: "d \<in># pl_ending p \<Longrightarrow> pool_step n p (p\<lparr>pl_ending := pl_ending p - {#d#}\<rparr>)"
| pool_idle: "pool_step n p p"

text \<open>What the pool promises: no more slots are taken than the limit allows.\<close>

lemma with_db_upd:
  "with_db (p\<lparr>pl_conns := (pl_conns p)(c \<mapsto> d)\<rparr>) = (if d = None then with_db p - {c} else insert c (with_db p))"
  "with_db (p\<lparr>pl_conns := (pl_conns p)(c := None), pl_closing := M\<rparr>) = with_db p - {c}"
  by (auto simp: with_db_def)

lemma pool_step_bound:
  assumes "pool_step n p q" and "finite (with_db p)" and "int (pool_size p) \<le> max 0 n"
  shows "finite (with_db q) \<and> int (pool_size q) \<le> max 0 n"
  using assms
proof (induction rule: pool_step.induct)
  case (pool_enter p c)
  then have "c \<notin> with_db p" by (auto simp: with_db_def)
  with pool_enter.prems show ?case by (simp add: pool_size_def with_db_upd)
next
  case (pool_open p c db)
  then have "c \<notin> with_db p" by (auto simp: with_db_def)
  with pool_open show ?case by (simp add: pool_size_def with_db_upd)
next
  case (pool_leave p c d)
  have "d \<noteq> None \<longleftrightarrow> c \<in> with_db p" using pool_leave.hyps by (auto simp: with_db_def)
  then have "card (with_db p) + dbs_in (pl_closing p) = card (with_db p - {c}) + dbs_in (add_mset d (pl_closing p))"
    using card_Suc_Diff1 [OF pool_leave.prems(1), of c] by (cases "c \<in> with_db p") (auto simp: dbs_in_def)
  with pool_leave.prems show ?case by (simp add: pool_size_def with_db_upd)
next
  case (pool_free d p)
  have "dbs_in (pl_closing p - {#d#}) \<le> dbs_in (pl_closing p)"
    unfolding dbs_in_def by (intro size_mset_mono multiset_filter_mono) simp
  with pool_free.prems show ?case by (simp add: pool_size_def with_db_def)
next
  case (pool_clean d p)
  then show ?case by (simp add: pool_size_def with_db_def)
next
  case (pool_idle p)
  then show ?case by simp
qed

lemma pool_bounded:
  "(pool_step n)\<^sup>*\<^sup>* empty_pool p \<Longrightarrow> finite (with_db p) \<and> int (pool_size p) \<le> max 0 n"
proof (induction rule: rtranclp_induct)
  case base
  show ?case by (simp add: with_db_def empty_pool_def pool_size_def dbs_in_def)
next
  case (step p q)
  then show ?case using pool_step_bound by blast
qed

subsection \<open>The manager as a pool\<close>

definition ref_of :: "('e, 'w) manager \<Rightarrow> nat \<Rightarrow> nat option" where
  "ref_of m c = Option.bind (Load (connToID m) c) (Load (clients m))"

definition db_of :: "('e, 'w) manager \<Rightarrow> nat \<Rightarrow> nat option" where
  "db_of m ref = Option.bind (heap m ref) cl_db"

definition pool_of :: "('e, 'w) cm_sys \<Rightarrow> pool" where
  "pool_of s = \<lparr>pl_conns = (\<lambda>c. map_option (db_of (mgr s)) (ref_of (mgr s) c)),
     pl_closing = image_mset (db_of (mgr s)) (mset (pend s)),
     pl_ending = image_mset (db_of (mgr s)) (mset (ending s))\<rparr>"

lemma has_db_of: "has_db m ref \<longleftrightarrow> db_of m ref \<noteq> None"
  by (auto simp: has_db_def db_of_def bind_eq_Some_conv split: bind_splits)

lemma ref_of_Some: "ref_of m c = Some r \<longleftrightarrow> (\<exists>i. Load (connToID m) c = Some i \<and> Load (clients m) i = Some r)"
  by (auto simp: ref_of_def bind_eq_Some_conv)

text \<open>Different connections have different clients.\<close>

lemma ref_of_inj:
  assumes "tables_ok m" and "ref_of m c = Some r" and "ref_of m d = Some r"
  shows "c = d"
proof -
  from assms(2) obtain i where i: "Load (connToID m) c = Some i" "Load (clients m) i = Some r"
    by (auto simp: ref_of_Some)
  from assms(3) obtain j where j: "Load (connToID m) d = Some j" "Load (clients m) j = Some r"
    by (auto simp: ref_of_Some)
  from assms(1) i(2) j(2) have "i = j" unfolding tables_ok_def by (metis option.inject)
  with assms(1) i(1) j(1) show ?thesis unfolding tables_ok_def by metis
qed

lemma registered_ref_of:
  "owned s \<Longrightarrow> registered_client (mgr s) r \<Longrightarrow> \<exists>c. ref_of (mgr s) c = Some r"
  unfolding owned_def registered_client_def ref_of_Some by (metis option.distinct(1))

lemma ref_of_registered: "ref_of m c = Some r \<Longrightarrow> registered_client m r"
  by (auto simp: ref_of_Some registered_client_def)

text \<open>The slots taken in the pool are what the manager counts, and its databases are the open ones.\<close>

lemma dbs_in_clients:
  assumes "distinct rs"
  shows "dbs_in (image_mset (db_of m) (mset rs)) = card {r \<in> set rs. has_db m r}"
proof -
  have "dbs_in (image_mset (db_of m) (mset rs)) = length (filter (has_db m) rs)"
    by (simp add: dbs_in_def filter_mset_image_mset has_db_of [abs_def] flip: mset_filter)
  also have "\<dots> = card (set (filter (has_db m) rs))" using assms by (intro distinct_card [symmetric]) simp
  finally show ?thesis by simp
qed

lemma with_db_card:
  assumes tables: "tables_ok (mgr s)" and own: "owned s"
  shows "card (with_db (pool_of s)) = card {r. registered_client (mgr s) r \<and> has_db (mgr s) r}" (is "card ?C = card ?A")
proof -
  let ?m = "mgr s"
  have C: "?C = {c. \<exists>r. ref_of ?m c = Some r \<and> has_db ?m r}"
    by (auto simp: with_db_def pool_of_def has_db_of)
  have img: "(\<lambda>c. the (ref_of ?m c)) ` ?C = ?A"
  proof (intro equalityI subsetI)
    fix r assume "r \<in> ?A"
    with registered_ref_of [OF own] obtain c where "ref_of ?m c = Some r" "has_db ?m r" by blast
    then show "r \<in> (\<lambda>c. the (ref_of ?m c)) ` ?C" unfolding C by force
  qed (auto simp: C dest: ref_of_registered)
  have "inj_on (\<lambda>c. the (ref_of ?m c)) ?C"
    unfolding C by (rule inj_onI) (auto intro: ref_of_inj [OF tables])
  with card_image [OF this] img show ?thesis by simp
qed

lemma pool_size_count:
  assumes inv: "cm_inv s" and own: "owned s"
  shows "int (pool_size (pool_of s)) = dbCount (mgr s)" and "pool_open_dbs (pool_of s) = card (open_dbs (mgr s))"
proof -
  let ?m = "mgr s"
  let ?A = "{r. registered_client ?m r \<and> has_db ?m r}" and ?B = "{r \<in> set (pend s). has_db ?m r}"
    and ?E = "{r \<in> set (ending s). has_db ?m r}"
  from inv have tables: "tables_ok ?m" and count: "count_ok ?m (set (ending s))" and pend: "pend_ok s"
    by (simp_all add: cm_inv_def)
  note p = pend_okD [OF pend]
  have size: "pool_size (pool_of s) = card ?A + card ?B"
    using dbs_in_clients [OF p(5), of ?m] with_db_card [OF tables own] by (simp add: pool_size_def pool_of_def)
  have all: "pool_open_dbs (pool_of s) = card ?A + card ?B + card ?E"
    using size dbs_in_clients [OF p(6), of ?m] by (simp add: pool_open_dbs_def pool_of_def)
  have sub: "open_dbs ?m = (?A \<union> ?B) \<union> ?E" using own by (auto simp: owned_def open_dbs_def)
  have minus: "open_dbs ?m - set (ending s) = ?A \<union> ?B" using sub p(4,7) by auto
  have disj: "?A \<inter> ?B = {}" "(?A \<union> ?B) \<inter> ?E = {}" using p(3,4,7) by auto
  have "finite (open_dbs ?m)" using count by (simp add: count_ok_def)
  then have fin: "finite ?A" "finite ?B" "finite ?E" using sub by simp_all
  have AB: "card (?A \<union> ?B) = card ?A + card ?B" by (rule card_Un_disjoint [OF fin(1,2) disj(1)])
  then show "int (pool_size (pool_of s)) = dbCount ?m" using count size minus by (simp add: count_ok_def)
  have "card ((?A \<union> ?B) \<union> ?E) = card (?A \<union> ?B) + card ?E"
    by (rule card_Un_disjoint) (use fin disj(2) in simp_all)
  then show "pool_open_dbs (pool_of s) = card (open_dbs ?m)" unfolding sub all AB by simp
qed

subsection \<open>Each step is a step of the pool\<close>

lemma pool_of_cong:
  "ref_of (mgr t) = ref_of (mgr s) \<Longrightarrow> db_of (mgr t) = db_of (mgr s) \<Longrightarrow> pend t = pend s \<Longrightarrow>
    ending t = ending s \<Longrightarrow> pool_of t = pool_of s"
  by (simp add: pool_of_def)

lemma db_of_upd: "heap m' = (heap m)(r \<mapsto> cl) \<Longrightarrow> db_of m' = (db_of m)(r := cl_db cl)"
  by (auto simp: db_of_def fun_eq_iff)

lemma accept_pool:
  assumes inv: "cm_inv s" and free: "Load (connToID (mgr s)) c = None"
    and new: "withNewClient (mgr s) ctx c draws = Some (m, ref, rest)"
  shows "pool_step n (pool_of s) (pool_of (s\<lparr>mgr := m\<rparr>))"
proof -
  from new obtain i where i: "Load (clients (mgr s)) i = None" and ref: "ref = next_ref (mgr s)"
    and m: "m = (mgr s)\<lparr>clients := Store (clients (mgr s)) i ref, connToID := Store (connToID (mgr s)) c i,
       heap := (heap (mgr s))(ref \<mapsto> \<lparr>cl_ctx = with_conn_id ctx i, cl_ID = i, cl_db = None, cl_conn = None\<rparr>),
       next_ref := Suc ref\<rparr>"
    by (elim withNewClient_Some)
  have unused: "Load (connToID (mgr s)) d \<noteq> Some i" for d
    using inv i unfolding cm_inv_def tables_ok_def by blast
  have refs: "ref_of m = (ref_of (mgr s))(c \<mapsto> ref)"
    using unused by (auto simp: ref_of_def m store_laws fun_eq_iff bind_eq_None_conv split: bind_splits)
  have "heap (mgr s) ref = None"
    using inv ref unfolding cm_inv_def heap_ok_def by (metis less_irrefl option.exhaust)
  then have none: "db_of (mgr s) ref = None" by (simp add: db_of_def)
  then have dbs: "db_of m = db_of (mgr s)"
    using db_of_upd [of m "mgr s" ref] by (simp add: m fun_upd_idem)
  have "pl_conns (pool_of s) c = None" using free by (simp add: pool_of_def ref_of_def)
  moreover have "pool_of (s\<lparr>mgr := m\<rparr>) = (pool_of s)\<lparr>pl_conns := (pl_conns (pool_of s))(c \<mapsto> None)\<rparr>"
    using none by (simp add: pool_of_def refs dbs fun_eq_iff)
  ultimately show ?thesis by (simp add: pool_enter)
qed

lemma conn_pool:
  assumes inv: "cm_inv s" and own: "owned s" and reg: "registered_client (mgr s) ref"
    and conn: "client_Conn api (mgr s) (wld s) ref = (m, w, r)"
  shows "pool_step (MaxDB (mgr s)) (pool_of s) (pool_of (s\<lparr>mgr := m, wld := w\<rparr>))"
  using conn
proof (cases rule: client_Conn_cases)
  case same
  then show ?thesis using pool_of_cong [of "s\<lparr>mgr := m, wld := w\<rparr>" s] by (simp add: pool_idle)
next
  case (opened cl db conn)
  from registered_ref_of [OF own reg] obtain c where c: "ref_of (mgr s) c = Some ref" by blast
  have refs: "ref_of m = ref_of (mgr s)" using opened(5) by (simp add: ref_of_def fun_eq_iff)
  have dbs: "db_of m = (db_of (mgr s))(ref := Some db)"
    using db_of_upd [of m "mgr s" ref] opened(5) by simp
  have only: "ref_of (mgr s) d = Some ref \<longleftrightarrow> d = c" for d
    using c ref_of_inj [of "mgr s" d ref c] inv by (auto simp: cm_inv_def)
  have fresh: "ref \<notin> set (pend s)" "ref \<notin> set (ending s)" using inv reg pend_okD(3,4) by (auto simp: cm_inv_def)
  have "map_option (db_of m) (ref_of m d) = ((\<lambda>d. map_option (db_of (mgr s)) (ref_of (mgr s) d))(c \<mapsto> Some db)) d" for d
  proof (cases "d = c")
    case False
    with only [of d] show ?thesis by (cases "ref_of (mgr s) d") (simp_all add: refs dbs)
  qed (simp add: c refs dbs)
  moreover have "image_mset (db_of m) (mset (pend s)) = image_mset (db_of (mgr s)) (mset (pend s))"
    "image_mset (db_of m) (mset (ending s)) = image_mset (db_of (mgr s)) (mset (ending s))"
    using fresh by (intro image_mset_cong; auto simp: dbs)+
  ultimately have "pool_of (s\<lparr>mgr := m, wld := w\<rparr>) = (pool_of s)\<lparr>pl_conns := (pl_conns (pool_of s))(c \<mapsto> Some db)\<rparr>"
    by (simp add: pool_of_def fun_eq_iff)
  moreover have "pl_conns (pool_of s) c = Some None" using c opened(1,2) by (simp add: pool_of_def db_of_def)
  ultimately show ?thesis
    using pool_open pool_size_count(1) [OF inv own] opened(3) by simp
qed

lemma state_change_pool:
  assumes inv: "cm_inv s" and change: "ConnState (mgr s) c st = (m, spawned, unknown)"
  shows "pool_step n (pool_of s)
    (pool_of (s\<lparr>mgr := m, pend := (case spawned of None \<Rightarrow> pend s | Some ref \<Rightarrow> ref # pend s)\<rparr>))"
proof (cases "st = StateClosed")
  case False
  with change have "m = mgr s" "spawned = None" by (auto simp: ConnState_def)
  then show ?thesis by (simp add: pool_idle)
next
  case True
  with change have "closeConn (mgr s) c = (m, spawned, unknown)" by (simp add: ConnState_def)
  then show ?thesis
  proof (cases rule: closeConn_cases)
    case unknown
    then have "ref_of m = ref_of (mgr s)" "db_of m = db_of (mgr s)"
      by (auto simp: ref_of_def db_of_def store_laws fun_eq_iff)
    with unknown(2) show ?thesis using pool_of_cong [of "s\<lparr>mgr := m, pend := pend s\<rparr>" s] by (simp add: pool_idle)
  next
    case (nobody i)
    with inv have False unfolding cm_inv_def tables_ok_def by metis
    then show ?thesis ..
  next
    case (closing i ref)
    have dbs: "db_of m = db_of (mgr s)" using closing(4) by (simp add: db_of_def fun_eq_iff)
    have own: "Load (connToID (mgr s)) d = Some i \<Longrightarrow> d = c" for d
      using inv closing(1) unfolding cm_inv_def tables_ok_def by blast
    have "ref_of m d = ((ref_of (mgr s))(c := None)) d" for d
      using closing(4) own [of d] by (cases "Load (connToID (mgr s)) d") (auto simp: ref_of_def store_laws)
    then have refs: "ref_of m = (ref_of (mgr s))(c := None)" by (simp add: fun_eq_iff)
    have c: "ref_of (mgr s) c = Some ref" using closing(1,2) by (simp add: ref_of_Some)
    have "pool_of (s\<lparr>mgr := m, pend := ref # pend s\<rparr>) =
        (pool_of s)\<lparr>pl_conns := (pl_conns (pool_of s))(c := None),
          pl_closing := add_mset (db_of (mgr s) ref) (pl_closing (pool_of s))\<rparr>"
      by (simp add: pool_of_def refs dbs fun_eq_iff)
    moreover have "pl_conns (pool_of s) c = Some (db_of (mgr s) ref)" using c by (simp add: pool_of_def)
    ultimately show ?thesis using closing(3) by (simp add: pool_leave)
  qed
qed

lemma close_count_pool:
  assumes inv: "cm_inv s" and ref: "ref \<in> set (pend s)"
    and close: "client_close_count api (mgr s) (wld s) ref = (m, w, err)"
  shows "pool_step n (pool_of s)
    (pool_of (s\<lparr>mgr := m, wld := w, pend := remove1 ref (pend s), ending := ref # ending s\<rparr>))" (is "pool_step n _ ?p")
proof -
  have refs: "ref_of m = ref_of (mgr s)" using client_close_count_tables [OF close] by (simp add: ref_of_def fun_eq_iff)
  from close have dbs: "db_of m = db_of (mgr s)"
  proof (cases rule: client_close_count_cases)
    case (counted cl)
    then show ?thesis using db_of_upd [OF counted(2)] by (auto simp: db_of_def fun_eq_iff)
  qed simp
  have "image_mset (db_of (mgr s)) (mset (remove1 ref (pend s))) =
      image_mset (db_of (mgr s)) (mset (pend s)) - {#db_of (mgr s) ref#}"
    using ref by (simp add: image_mset_Diff)
  then have "?p = (pool_of s)\<lparr>pl_closing := pl_closing (pool_of s) - {#db_of (mgr s) ref#},
      pl_ending := add_mset (db_of (mgr s) ref) (pl_ending (pool_of s))\<rparr>"
    by (simp add: pool_of_def refs dbs)
  moreover have "db_of (mgr s) ref \<in># pl_closing (pool_of s)" using ref by (auto simp: pool_of_def)
  ultimately show ?thesis by (simp add: pool_free)
qed

lemma close_finish_pool:
  assumes inv: "cm_inv s" and ref: "ref \<in> set (ending s)"
    and close: "client_close_finish api (mgr s) (wld s) ref = (m, w, err)"
  shows "pool_step n (pool_of s) (pool_of (s\<lparr>mgr := m, wld := w, ending := remove1 ref (ending s)\<rparr>))" (is "pool_step n _ ?p")
proof -
  from inv have pend: "pend_ok s" by (simp add: cm_inv_def)
  note p = pend_okD [OF pend]
  from p(2) [OF ref] obtain cl where cl: "heap (mgr s) ref = Some cl" by auto
  from p(4) [OF ref] have unreg: "ref_of (mgr s) d \<noteq> Some ref" for d using ref_of_registered by blast
  note m = client_close_finish_manager [OF close cl]
  have dbs: "db_of m = (db_of (mgr s))(ref := None)"
    using db_of_upd [of m "mgr s" ref "cl\<lparr>cl_db := None\<rparr>"] m by simp
  have refs: "ref_of m = ref_of (mgr s)" using client_close_finish_tables [OF close] by (simp add: ref_of_def fun_eq_iff)
  have conns: "map_option (db_of m) (ref_of m d) = map_option (db_of (mgr s)) (ref_of (mgr s) d)" for d
    using unreg [of d] by (cases "ref_of (mgr s) d") (simp_all add: refs dbs)
  have others: "image_mset (db_of m) (mset rs) = image_mset (db_of (mgr s)) (mset rs)" if "ref \<notin> set rs" for rs
    using that by (intro image_mset_cong) (auto simp: dbs)
  have "ref \<notin> set (remove1 ref (ending s))" using p(6) by simp
  then have "image_mset (db_of m) (mset (remove1 ref (ending s))) = image_mset (db_of (mgr s)) (mset (remove1 ref (ending s)))"
    by (rule others)
  also have "\<dots> = image_mset (db_of (mgr s)) (mset (ending s)) - {#db_of (mgr s) ref#}"
    using ref by (simp add: image_mset_Diff)
  finally have "?p = (pool_of s)\<lparr>pl_ending := pl_ending (pool_of s) - {#db_of (mgr s) ref#}\<rparr>"
    using others [of "pend s"] p(7) ref by (auto simp: pool_of_def conns)
  moreover have "db_of (mgr s) ref \<in># pl_ending (pool_of s)" using ref by (auto simp: pool_of_def)
  ultimately show ?thesis by (simp add: pool_clean)
qed

lemma cm_step_pool:
  assumes "cm_step api registered_client s t" and "cm_inv s" and "owned s"
  shows "pool_step (MaxDB (mgr s)) (pool_of s) (pool_of t)"
  using assms
  by (induction rule: cm_step.induct) (simp_all add: accept_pool conn_pool state_change_pool close_count_pool close_finish_pool)

lemma init_pool: "pool_of (init_sys (new_manager n op cl) w) = empty_pool"
  by (simp add: pool_of_def empty_pool_def init_sys_def new_manager_def ref_of_def store_laws)

lemma reachable_step_pool:
  assumes "cm_reachable api registered_client (init_sys (new_manager n op cl) w) s"
    and "cm_step api registered_client s t"
  shows "pool_step n (pool_of s) (pool_of t)"
proof -
  have "MaxDB (mgr s) = n" using reachable_MaxDB [OF assms(1)] by (simp add: init_sys_def new_manager_def)
  then show ?thesis
    using cm_step_pool [OF assms(2) reachable_init_inv [OF assms(1)] reachable_owned [OF assms(1)]]
    by simp
qed

lemma reachable_pool:
  assumes "cm_reachable api registered_client (init_sys (new_manager n op cl) w) s"
  shows "(pool_step n)\<^sup>*\<^sup>* empty_pool (pool_of s)"
  using assms
proof (induction rule: cm_reachable.induct)
  case start
  show ?case by (simp add: init_pool)
next
  case (step s t)
  from step.IH reachable_step_pool [OF step.hyps(1,2)] show ?case by (rule rtranclp.rtrancl_into_rtrancl)
qed

text \<open>
  C2. The manager refines the pool. Started with the limit \<open>n\<close>, every state it reaches when handlers use
  the clients of open connections is a state the pool reaches from the empty one, and each further step
  is a step of the pool: a connection enters, opens a database while fewer than \<open>n\<close> slots are taken,
  leaves, its slot is given back, its database is closed, or nothing changes. The counter is the number
  of slots taken in the pool, which by the rules of the pool alone stays within the limit; the databases
  that are open are those with a slot and those that are being closed after their slot was given back.
\<close>

theorem manager_refines_pool:
  assumes "cm_reachable api registered_client (init_sys (new_manager n op cl) w) s"
    and "cm_step api registered_client s t"
  shows "(pool_step n)\<^sup>*\<^sup>* empty_pool (pool_of s) \<and> pool_step n (pool_of s) (pool_of t) \<and>
    dbCount (mgr s) = int (pool_size (pool_of s)) \<and> int (pool_size (pool_of s)) \<le> max 0 n \<and>
    card (open_dbs (mgr s)) = pool_size (pool_of s) + dbs_in (pl_ending (pool_of s))"
  using reachable_pool [OF assms(1)] reachable_step_pool [OF assms] pool_bounded [OF reachable_pool [OF assms(1)]]
    pool_size_count [OF reachable_init_inv [OF assms(1)] reachable_owned [OF assms(1)]]
  by (simp add: pool_open_dbs_def)

theorem manager_refines_pool_witness:
  "pool_step 1 (pool_of demo_second) (pool_of demo_over) \<and> pl_ending (pool_of demo_second) = {#Some 0#} \<and>
   pl_conns (pool_of demo_second) 8 = Some None \<and> pl_conns (pool_of demo_over) 8 = Some (Some 1)"
proof -
  have r: "cm_reachable demo_api registered_client (init_sys demo_mgr 0) demo_second"
    using cm_reachable.step [OF demo_reach_counted [where may = registered_client, OF demo_registered]
      demo_step_second [where may = registered_client]] .
  have "pool_step 1 (pool_of demo_second) (pool_of demo_over)"
    using manager_refines_pool [OF r [unfolded demo_mgr_def]
      demo_step_over [where may = registered_client, OF demo_second_registered]] by blast
  then show ?thesis by (simp add: pool_of_def ref_of_def db_of_def demo_sys_defs store_laws)
qed

end
