(* ===== verification/Conndb_Locks.thy ===== *)
theory Conndb_Locks
  imports Conndb_Props
begin

section \<open>internal/conndb: opening and closing under the mutexes\<close>

text \<open>
  \<open>Conndb_Steps\<close> takes \<open>Client.Conn\<close> and \<open>Client.close\<close> as single steps. Here they run as
  \<open>internal/conndb/conndb.go\<close> has them, in any number of goroutines: the client's mutex \<open>mu\<close> around the
  whole of each, the manager's \<open>dbMutex\<close> around \<open>openDB\<close>, and in \<open>closeDB\<close> around the counter only, so
  that the database is closed after the counter was reduced and the mutex released. A mutex is the
  goroutine that holds it, if any; the code sees only whether it is held.
\<close>

text \<open>Where a goroutine is. \<open>Opened\<close> is past \<open>openDB\<close> with its result, \<open>CloserRun\<close> past the counter.\<close>

datatype dl_pc =
    DIdle
  | ConnWant nat
  | ConnLocked nat
  | OpenWant nat
  | OpenLocked nat
  | Opened nat "conn_error + nat \<times> nat"
  | CloseWant nat
  | CloseLocked nat
  | CloseDBWant nat
  | CountLocked nat nat
  | CloserRun nat nat

datatype dl_start = CallConn nat | CallClose nat

record ('e, 'w) dl_sys =
  dl_m :: "('e, 'w) manager"
  dl_w :: 'w
  dl_mu :: "nat \<Rightarrow> nat option"
  dl_dbMutex :: "nat option"
  dl_thread :: "nat \<Rightarrow> dl_pc"

definition dl_init :: "('e, 'w) manager \<Rightarrow> 'w \<Rightarrow> ('e, 'w) dl_sys" where
  "dl_init m w = \<lparr>dl_m = m, dl_w = w, dl_mu = Map.empty, dl_dbMutex = None, dl_thread = (\<lambda>t. DIdle)\<rparr>"

subsection \<open>The steps of a goroutine\<close>

definition dl_goto :: "('e, 'w) dl_sys \<Rightarrow> nat \<Rightarrow> dl_pc \<Rightarrow> ('e, 'w) dl_sys" where
  "dl_goto s t pc = s\<lparr>dl_thread := (dl_thread s)(t := pc)\<rparr>"

definition dl_set_client :: "('e, 'w) dl_sys \<Rightarrow> nat \<Rightarrow> 'e client \<Rightarrow> ('e, 'w) dl_sys" where
  "dl_set_client s ref cl = s\<lparr>dl_m := (dl_m s)\<lparr>heap := (heap (dl_m s))(ref \<mapsto> cl)\<rparr>\<rparr>"

text \<open>\<open>mu.Lock\<close> waits while it is held; \<open>mu.Unlock\<close> is deferred to the end of \<open>Conn\<close>.\<close>

definition mu_lock :: "('e, 'w) dl_sys \<Rightarrow> nat \<Rightarrow> nat \<Rightarrow> dl_pc \<Rightarrow> ('e, 'w) dl_sys option" where
  "mu_lock s t ref pc =
     (if dl_mu s ref = None then Some (dl_goto (s\<lparr>dl_mu := (dl_mu s)(ref \<mapsto> t)\<rparr>) t pc) else None)"

definition mu_unlock :: "('e, 'w) dl_sys \<Rightarrow> nat \<Rightarrow> nat \<Rightarrow> ('e, 'w) dl_sys" where
  "mu_unlock s t ref = dl_goto (s\<lparr>dl_mu := (dl_mu s)(ref := None)\<rparr>) t DIdle"

definition dbMutex_lock :: "('e, 'w) dl_sys \<Rightarrow> nat \<Rightarrow> dl_pc \<Rightarrow> ('e, 'w) dl_sys option" where
  "dbMutex_lock s t pc =
     (if dl_dbMutex s = None then Some (dl_goto (s\<lparr>dl_dbMutex := Some t\<rparr>) t pc) else None)"

text \<open>One step of goroutine \<open>t\<close>, for the client \<open>cl\<close> it works on.\<close>

fun dl_client_step ::
  "'w sqlapi \<Rightarrow> ('e, 'w) dl_sys \<Rightarrow> nat \<Rightarrow> 'e client \<Rightarrow> dl_pc \<Rightarrow> ('e, 'w) dl_sys option" where
  "dl_client_step api s t cl DIdle = None"
| "dl_client_step api s t cl (ConnWant ref) = mu_lock s t ref (ConnLocked ref)"
| "dl_client_step api s t cl (ConnLocked ref) =
     Some (if cl_conn cl \<noteq> None \<or> cl_db cl \<noteq> None then mu_unlock s t ref else dl_goto s t (OpenWant ref))"
| "dl_client_step api s t cl (OpenWant ref) = dbMutex_lock s t (OpenLocked ref)"
| "dl_client_step api s t cl (OpenLocked ref) =
     (let (m, w, r) = openDB api (dl_m s) (dl_w s) (cl_ctx cl) (cl_ID cl) in
      Some (dl_goto (s\<lparr>dl_m := m, dl_w := w, dl_dbMutex := None\<rparr>) t (Opened ref r)))"
| "dl_client_step api s t cl (Opened ref (Inl err)) = Some (mu_unlock s t ref)"
| "dl_client_step api s t cl (Opened ref (Inr (db, conn))) =
     Some (mu_unlock (dl_set_client s ref (cl\<lparr>cl_db := Some db, cl_conn := Some conn\<rparr>)) t ref)"
| "dl_client_step api s t cl (CloseWant ref) = mu_lock s t ref (CloseLocked ref)"
| "dl_client_step api s t cl (CloseLocked ref) =
     (let w = (case cl_conn cl of None \<Rightarrow> dl_w s | Some conn \<Rightarrow> fst (sql_conn_close api conn (dl_w s))) in
      Some (dl_goto (dl_set_client (s\<lparr>dl_w := w\<rparr>) ref (cl\<lparr>cl_conn := None\<rparr>)) t (CloseDBWant ref)))"
| "dl_client_step api s t cl (CloseDBWant ref) =
     (case cl_db cl of
        None \<Rightarrow> Some (mu_unlock s t ref)
      | Some db \<Rightarrow> dbMutex_lock s t (CountLocked ref db))"
| "dl_client_step api s t cl (CountLocked ref db) =
     Some (dl_goto (s\<lparr>dl_m := closeDB_count (dl_m s), dl_dbMutex := None\<rparr>) t (CloserRun ref db))"
| "dl_client_step api s t cl (CloserRun ref db) =
     (let w = fst (closeDB_call api (dl_m s) (dl_w s) db (cl_ID cl)) in
      Some (mu_unlock (dl_set_client (s\<lparr>dl_w := w\<rparr>) ref (cl\<lparr>cl_db := None\<rparr>)) t ref))"

fun pc_client :: "dl_pc \<Rightarrow> nat option" where
  "pc_client DIdle = None"
| "pc_client (ConnWant ref) = Some ref"
| "pc_client (ConnLocked ref) = Some ref"
| "pc_client (OpenWant ref) = Some ref"
| "pc_client (OpenLocked ref) = Some ref"
| "pc_client (Opened ref r) = Some ref"
| "pc_client (CloseWant ref) = Some ref"
| "pc_client (CloseLocked ref) = Some ref"
| "pc_client (CloseDBWant ref) = Some ref"
| "pc_client (CountLocked ref db) = Some ref"
| "pc_client (CloserRun ref db) = Some ref"

text \<open>An idle goroutine may call \<open>Conn\<close>, as a handler does, or \<open>close\<close>, as the goroutine of \<open>closeConn\<close>
  does, on any client there is.\<close>

definition dl_exec ::
  "'w sqlapi \<Rightarrow> ('e, 'w) dl_sys \<Rightarrow> nat \<Rightarrow> dl_start option \<Rightarrow> ('e, 'w) dl_sys option" where
  "dl_exec api s t start =
     (case pc_client (dl_thread s t) of
        Some ref \<Rightarrow>
          (case heap (dl_m s) ref of
             None \<Rightarrow> None
           | Some cl \<Rightarrow> dl_client_step api s t cl (dl_thread s t))
      | None \<Rightarrow>
          (case start of
             None \<Rightarrow> None
           | Some (CallConn ref) \<Rightarrow>
               if heap (dl_m s) ref = None then None else Some (dl_goto s t (ConnWant ref))
           | Some (CallClose ref) \<Rightarrow>
               if heap (dl_m s) ref = None then None else Some (dl_goto s t (CloseWant ref))))"

inductive dl_step :: "'w sqlapi \<Rightarrow> ('e, 'w) dl_sys \<Rightarrow> ('e, 'w) dl_sys \<Rightarrow> bool"
  for api :: "'w sqlapi" where
  dl_go: "dl_exec api s t start = Some s' \<Longrightarrow> dl_step api s s'"
| dl_accept: "withNewClient (dl_m s) ctx c draws = Some (m, ref, rest) \<Longrightarrow> dl_step api s (s\<lparr>dl_m := m\<rparr>)"
| dl_conn_state: "ConnState (dl_m s) c st = (m, spawned, unknown) \<Longrightarrow> dl_step api s (s\<lparr>dl_m := m\<rparr>)"

inductive dl_reach :: "'w sqlapi \<Rightarrow> ('e, 'w) dl_sys \<Rightarrow> ('e, 'w) dl_sys \<Rightarrow> bool"
  for api :: "'w sqlapi" and s0 :: "('e, 'w) dl_sys" where
  dl_start: "dl_reach api s0 s0"
| dl_next: "dl_reach api s0 s \<Longrightarrow> dl_step api s s' \<Longrightarrow> dl_reach api s0 s'"

fun dl_schedule ::
  "'w sqlapi \<Rightarrow> ('e, 'w) dl_sys \<Rightarrow> (nat \<times> dl_start option) list \<Rightarrow> ('e, 'w) dl_sys option" where
  "dl_schedule api s [] = Some s"
| "dl_schedule api s ((t, start) # rest) =
     (case dl_exec api s t start of None \<Rightarrow> None | Some s' \<Rightarrow> dl_schedule api s' rest)"

lemma dl_schedule_reach:
  "dl_schedule api s sched = Some s' \<Longrightarrow> dl_reach api s0 s \<Longrightarrow> dl_reach api s0 s'"
proof (induction api s sched rule: dl_schedule.induct)
  case (1 api s)
  then show ?case by simp
next
  case (2 api s t start rest)
  then obtain s1 where "dl_exec api s t start = Some s1" "dl_schedule api s1 rest = Some s'"
    by (auto split: option.splits)
  with 2 show ?case using dl_next [OF "2.prems"(2) dl_go] by blast
qed

subsection \<open>Run alone, the steps are the methods\<close>

text \<open>A goroutine that is not interrupted does what \<open>client_Conn\<close> and \<open>client_close\<close> say.\<close>

fun dl_alone :: "'w sqlapi \<Rightarrow> nat \<Rightarrow> ('e, 'w) dl_sys \<Rightarrow> nat \<Rightarrow> ('e, 'w) dl_sys option" where
  "dl_alone api 0 s t = Some s"
| "dl_alone api (Suc n) s t =
     (if dl_thread s t = DIdle then Some s
      else (case dl_exec api s t None of None \<Rightarrow> None | Some s' \<Rightarrow> dl_alone api n s' t))"

end
