(* ===== verification/Conndb_Locks_Props.thy ===== *)
theory Conndb_Locks_Props
  imports Conndb_Locks
begin

section \<open>internal/conndb: what the mutexes guarantee\<close>

text \<open>
  Theorems on the theory \<open>Conndb_Locks\<close>: run alone, the steps are the methods that \<open>Conndb_Steps\<close> takes
  as one; under any interleaving a client is opened by one goroutine at a time, the counter is what it
  should be and within the limit, every call returns, and for the time of a close there can be one
  database more than the limit.
\<close>

subsection \<open>Run alone, the steps are the methods\<close>

lemma openDB_heap: "openDB api m w ctx i = (m', w', r) \<Longrightarrow> heap m' = heap m"
  by (cases rule: openDB_cases [of m api w ctx i]) auto

lemma dl_alone_conn:
  assumes "dl_thread s t = ConnWant ref" and "dl_mu s ref = None" and "dl_dbMutex s = None"
    and "heap (dl_m s) ref = Some cl" and "client_Conn api (dl_m s) (dl_w s) ref = (m, w, r)"
  shows "dl_alone api 6 s t = Some (dl_goto (s\<lparr>dl_m := m, dl_w := w\<rparr>) t DIdle)"
proof (cases "cl_conn cl \<noteq> None \<or> cl_db cl \<noteq> None")
  case True
  then show ?thesis using assms
    by (auto simp: eval_nat_numeral dl_exec_def mu_lock_def mu_unlock_def dl_goto_def client_Conn_def
        fun_upd_idem split: if_splits)
next
  case False
  obtain m1 w1 res where o: "openDB api (dl_m s) (dl_w s) (cl_ctx cl) (cl_ID cl) = (m1, w1, res)"
    by (metis prod_cases3)
  have "heap m1 ref = Some cl" using openDB_heap [OF o] assms(4) by simp
  note o = o this
  show ?thesis
  proof (cases res)
    case (Inl err)
    with False o assms show ?thesis
      by (simp add: eval_nat_numeral dl_exec_def mu_lock_def mu_unlock_def dbMutex_lock_def dl_goto_def
          client_Conn_def fun_upd_idem)
  next
    case (Inr h)
    obtain db conn where h: "h = (db, conn)" by fastforce
    with False o assms Inr show ?thesis
      by (simp add: eval_nat_numeral dl_exec_def mu_lock_def mu_unlock_def dbMutex_lock_def dl_goto_def
          dl_set_client_def client_Conn_def fun_upd_idem)
  qed
qed

lemma dl_alone_close:
  assumes "dl_thread s t = CloseWant ref" and "dl_mu s ref = None" and "dl_dbMutex s = None"
    and "heap (dl_m s) ref = Some cl" and "client_close api (dl_m s) (dl_w s) ref = (m, w, err)"
  shows "dl_alone api 5 s t = Some (dl_goto (s\<lparr>dl_m := m, dl_w := w\<rparr>) t DIdle)"
proof (cases "cl_db cl")
  case None
  have same: "cl\<lparr>cl_db := None, cl_conn := None\<rparr> = cl\<lparr>cl_conn := None\<rparr>" using None by (cases cl) simp
  show ?thesis using None assms
    by (auto simp: same eval_nat_numeral dl_exec_def mu_lock_def mu_unlock_def dl_goto_def dl_set_client_def
        client_close_def fun_upd_idem split: option.splits prod.splits)
next
  case (Some db)
  then show ?thesis using assms
    by (cases s, cases cl) (auto simp: eval_nat_numeral dl_exec_def mu_lock_def mu_unlock_def dbMutex_lock_def dl_goto_def
        dl_set_client_def client_close_def closeDB_halves closeDB_count_def closeDB_call_def Let_def fun_upd_idem
        split: option.splits prod.splits if_splits)
qed


subsection \<open>The invariant\<close>

fun mu_of :: "dl_pc \<Rightarrow> nat option" where
  "mu_of DIdle = None"
| "mu_of (ConnWant ref) = None"
| "mu_of (CloseWant ref) = None"
| "mu_of pc = pc_client pc"

fun in_dbMutex :: "dl_pc \<Rightarrow> bool" where
  "in_dbMutex (OpenLocked ref) = True"
| "in_dbMutex (CountLocked ref db) = True"
| "in_dbMutex _ = False"

text \<open>A database that is open, but not yet the client's; one that is no longer counted, but still open.\<close>

fun is_opened :: "dl_pc \<Rightarrow> bool" where
  "is_opened (Opened ref (Inr h)) = True"
| "is_opened _ = False"

fun is_closing :: "dl_pc \<Rightarrow> bool" where
  "is_closing (CloserRun ref db) = True"
| "is_closing _ = False"

definition client_is :: "('e, 'w) manager \<Rightarrow> nat \<Rightarrow> ('e client \<Rightarrow> bool) \<Rightarrow> bool" where
  "client_is m ref P = (case heap m ref of None \<Rightarrow> False | Some cl \<Rightarrow> P cl)"

fun pc_ok :: "('e, 'w) manager \<Rightarrow> dl_pc \<Rightarrow> bool" where
  "pc_ok m DIdle = True"
| "pc_ok m (OpenWant ref) = client_is m ref (\<lambda>cl. cl_db cl = None \<and> cl_conn cl = None)"
| "pc_ok m (OpenLocked ref) = client_is m ref (\<lambda>cl. cl_db cl = None \<and> cl_conn cl = None)"
| "pc_ok m (Opened ref r) = client_is m ref (\<lambda>cl. cl_db cl = None \<and> cl_conn cl = None)"
| "pc_ok m (CountLocked ref db) = client_is m ref (\<lambda>cl. cl_db cl = Some db)"
| "pc_ok m (CloserRun ref db) = client_is m ref (\<lambda>cl. cl_db cl = Some db)"
| "pc_ok m (ConnWant ref) = client_is m ref (\<lambda>cl. True)"
| "pc_ok m (ConnLocked ref) = client_is m ref (\<lambda>cl. True)"
| "pc_ok m (CloseWant ref) = client_is m ref (\<lambda>cl. True)"
| "pc_ok m (CloseLocked ref) = client_is m ref (\<lambda>cl. True)"
| "pc_ok m (CloseDBWant ref) = client_is m ref (\<lambda>cl. True)"

definition dl_locks :: "('e, 'w) dl_sys \<Rightarrow> bool" where
  "dl_locks s \<longleftrightarrow> (\<forall>t. pc_ok (dl_m s) (dl_thread s t)) \<and>
     (\<forall>ref t. dl_mu s ref = Some t \<longleftrightarrow> mu_of (dl_thread s t) = Some ref) \<and>
     (\<forall>t. dl_dbMutex s = Some t \<longleftrightarrow> in_dbMutex (dl_thread s t)) \<and>
     (\<forall>ref. heap (dl_m s) ref \<noteq> None \<longrightarrow> ref < next_ref (dl_m s))"

text \<open>What a client is like matters only to the goroutine that holds its mutex.\<close>

lemma pc_ok_other:
  assumes "pc_ok m pc" and "mu_of pc \<noteq> Some ref" and "heap m' = (heap m)(ref \<mapsto> cl)"
  shows "pc_ok m' pc"
  using assms by (cases pc) (auto simp: client_is_def split: option.splits)

lemma pc_ok_heap: "pc_ok m pc \<Longrightarrow> heap m' = heap m \<Longrightarrow> pc_ok m' pc"
  by (cases pc) (auto simp: client_is_def)

lemma pc_client_mu_of: "mu_of pc = Some ref \<Longrightarrow> pc_client pc = Some ref"
  by (cases pc) auto

text \<open>A goroutine moves, and with it the mutexes.\<close>

lemma dl_locks_move:
  assumes "dl_locks s" and "dl_thread s' = (dl_thread s)(t := pc)" and "pc_ok (dl_m s') pc"
    and "\<And>u. u \<noteq> t \<Longrightarrow> pc_ok (dl_m s') (dl_thread s u)"
    and "\<And>r. dl_mu s' r = (if mu_of pc = Some r then Some t
               else if mu_of (dl_thread s t) = Some r then None else dl_mu s r)"
    and "\<And>r. mu_of pc = Some r \<Longrightarrow> dl_mu s r = None \<or> mu_of (dl_thread s t) = Some r"
    and "dl_dbMutex s' = (if in_dbMutex pc then Some t else if in_dbMutex (dl_thread s t) then None else dl_dbMutex s)"
    and "in_dbMutex pc \<Longrightarrow> dl_dbMutex s = None \<or> in_dbMutex (dl_thread s t)"
    and "\<And>r. heap (dl_m s') r \<noteq> None \<Longrightarrow> r < next_ref (dl_m s')"
  shows "dl_locks s'"
proof -
  have mu: "dl_mu s r = Some u \<longleftrightarrow> mu_of (dl_thread s u) = Some r" for r u
    using assms(1) by (simp add: dl_locks_def)
  have db: "dl_dbMutex s = Some u \<longleftrightarrow> in_dbMutex (dl_thread s u)" for u
    using assms(1) by (simp add: dl_locks_def)
  have "pc_ok (dl_m s') (dl_thread s' u)" for u using assms(2,3,4) by simp
  moreover have "dl_mu s' r = Some u \<longleftrightarrow> mu_of (dl_thread s' u) = Some r" for r u
    using mu [of r u] mu [of r t] assms(5,6) [of r] unfolding assms(2)
    by (cases "u = t") (auto split: if_splits)
  moreover have "dl_dbMutex s' = Some u \<longleftrightarrow> in_dbMutex (dl_thread s' u)" for u
    using db [of u] db [of t] assms(7,8) unfolding assms(2)
    by (cases "u = t") (auto split: if_splits)
  ultimately show ?thesis using assms(9) by (simp add: dl_locks_def)
qed


lemma dl_locksD:
  assumes "dl_locks s"
  shows "pc_ok (dl_m s) (dl_thread s t)" and "dl_mu s ref = Some t \<longleftrightarrow> mu_of (dl_thread s t) = Some ref"
    and "dl_dbMutex s = Some t \<longleftrightarrow> in_dbMutex (dl_thread s t)"
    and "heap (dl_m s) ref \<noteq> None \<Longrightarrow> ref < next_ref (dl_m s)"
  using assms by (auto simp: dl_locks_def)

lemma dl_locks_stay:
  assumes "dl_locks s" and "dl_thread s' = (dl_thread s)(t := pc)" and "pc_ok (dl_m s') pc"
    and "heap (dl_m s') = heap (dl_m s)" and "next_ref (dl_m s') = next_ref (dl_m s)"
    and "\<And>r. dl_mu s' r = (if mu_of pc = Some r then Some t
               else if mu_of (dl_thread s t) = Some r then None else dl_mu s r)"
    and "\<And>r. mu_of pc = Some r \<Longrightarrow> dl_mu s r = None \<or> mu_of (dl_thread s t) = Some r"
    and "dl_dbMutex s' = (if in_dbMutex pc then Some t else if in_dbMutex (dl_thread s t) then None else dl_dbMutex s)"
    and "in_dbMutex pc \<Longrightarrow> dl_dbMutex s = None \<or> in_dbMutex (dl_thread s t)"
  shows "dl_locks s'"
proof (rule dl_locks_move [OF assms(1,2,3) _ assms(6,7,8,9)])
  fix u
  show "pc_ok (dl_m s') (dl_thread s u)" by (rule pc_ok_heap [OF dl_locksD(1) [OF assms(1)] assms(4)])
next
  fix r assume "heap (dl_m s') r \<noteq> None"
  then show "r < next_ref (dl_m s')" using dl_locksD(4) [OF assms(1)] assms(4,5) by simp
qed

lemma dl_locks_client:
  assumes "dl_locks s" and "dl_thread s' = (dl_thread s)(t := pc)" and "pc_ok (dl_m s') pc"
    and "mu_of (dl_thread s t) = Some ref"
    and "heap (dl_m s') = (heap (dl_m s))(ref \<mapsto> cl)" and "next_ref (dl_m s') = next_ref (dl_m s)"
    and "heap (dl_m s) ref \<noteq> None"
    and "\<And>r. dl_mu s' r = (if mu_of pc = Some r then Some t
               else if mu_of (dl_thread s t) = Some r then None else dl_mu s r)"
    and "\<And>r. mu_of pc = Some r \<Longrightarrow> mu_of (dl_thread s t) = Some r"
    and "dl_dbMutex s' = dl_dbMutex s" and "\<not> in_dbMutex pc" and "\<not> in_dbMutex (dl_thread s t)"
  shows "dl_locks s'"
proof (rule dl_locks_move [OF assms(1,2,3) _ assms(8)])
  fix u assume "u \<noteq> t"
  then have "mu_of (dl_thread s u) \<noteq> Some ref"
    using dl_locksD(2) [OF assms(1)] assms(4) by (metis option.inject)
  then show "pc_ok (dl_m s') (dl_thread s u)"
    using pc_ok_other [OF dl_locksD(1) [OF assms(1)] _ assms(5)] by blast
next
  fix r assume "heap (dl_m s') r \<noteq> None"
  then show "r < next_ref (dl_m s')" using dl_locksD(4) [OF assms(1)] assms(5,6,7) by (auto split: if_splits)
qed (use assms(9-12) in auto)

lemma openDB_frame:
  assumes "openDB api m w ctx i = (m', w', r)"
  shows "heap m' = heap m" "next_ref m' = next_ref m" "MaxDB m' = MaxDB m"
    "(case r of Inl e \<Rightarrow> dbCount m' = dbCount m | Inr h \<Rightarrow> dbCount m < MaxDB m \<and> dbCount m' = dbCount m + 1)"
  using assms by (cases rule: openDB_cases [of m api w ctx i]; force)+

lemma closeDB_count_frame [simp]:
  "heap (closeDB_count m) = heap m" "next_ref (closeDB_count m) = next_ref m" "MaxDB (closeDB_count m) = MaxDB m"
  by (simp_all add: closeDB_count_def)

lemmas dl_ops = mu_lock_def mu_unlock_def dbMutex_lock_def dl_goto_def dl_set_client_def

text \<open>The steps there are.\<close>

lemma dl_exec_cases:
  assumes "dl_exec api s t st = Some s'"
  obtains (start) pc ref where "dl_thread s t = DIdle" "pc = ConnWant ref \<or> pc = CloseWant ref"
      "client_is (dl_m s) ref (\<lambda>cl. True)" "s' = dl_goto s t pc"
  | (lock) ref pc where "dl_thread s t = ConnWant ref \<and> pc = ConnLocked ref \<or> dl_thread s t = CloseWant ref \<and> pc = CloseLocked ref"
      "dl_mu s ref = None" "s' = dl_goto (s\<lparr>dl_mu := (dl_mu s)(ref \<mapsto> t)\<rparr>) t pc"
  | (unlock) ref where "mu_of (dl_thread s t) = Some ref" "\<not> in_dbMutex (dl_thread s t)"
      "\<not> is_opened (dl_thread s t)" "\<not> is_closing (dl_thread s t)" "s' = mu_unlock s t ref"
  | (need) ref where "dl_thread s t = ConnLocked ref"
      "client_is (dl_m s) ref (\<lambda>cl. cl_db cl = None \<and> cl_conn cl = None)" "s' = dl_goto s t (OpenWant ref)"
  | (enter) ref pc where "dl_thread s t = OpenWant ref \<and> pc = OpenLocked ref \<or>
        dl_thread s t = CloseDBWant ref \<and> (\<exists>db. pc = CountLocked ref db \<and> client_is (dl_m s) ref (\<lambda>cl. cl_db cl = Some db))"
      "dl_dbMutex s = None" "s' = dl_goto (s\<lparr>dl_dbMutex := Some t\<rparr>) t pc"
  | (body) ref cl m w r where "dl_thread s t = OpenLocked ref" "heap (dl_m s) ref = Some cl"
      "openDB api (dl_m s) (dl_w s) (cl_ctx cl) (cl_ID cl) = (m, w, r)"
      "s' = dl_goto (s\<lparr>dl_m := m, dl_w := w, dl_dbMutex := None\<rparr>) t (Opened ref r)"
  | (store) ref cl db conn where "dl_thread s t = Opened ref (Inr (db, conn))" "heap (dl_m s) ref = Some cl"
      "s' = mu_unlock (dl_set_client s ref (cl\<lparr>cl_db := Some db, cl_conn := Some conn\<rparr>)) t ref"
  | (conn_closed) ref cl w where "dl_thread s t = CloseLocked ref" "heap (dl_m s) ref = Some cl"
      "s' = dl_goto (dl_set_client (s\<lparr>dl_w := w\<rparr>) ref (cl\<lparr>cl_conn := None\<rparr>)) t (CloseDBWant ref)"
  | (counted) ref db where "dl_thread s t = CountLocked ref db"
      "s' = dl_goto (s\<lparr>dl_m := closeDB_count (dl_m s), dl_dbMutex := None\<rparr>) t (CloserRun ref db)"
  | (closed) ref cl db w where "dl_thread s t = CloserRun ref db" "heap (dl_m s) ref = Some cl"
      "s' = mu_unlock (dl_set_client (s\<lparr>dl_w := w\<rparr>) ref (cl\<lparr>cl_db := None\<rparr>)) t ref"
proof (cases "pc_client (dl_thread s t)")
  case None
  then have idle: "dl_thread s t = DIdle" by (cases "dl_thread s t") auto
  show ?thesis
  proof (cases st)
    case None
    then show ?thesis using assms idle by (simp add: dl_exec_def)
  next
    case (Some c)
    obtain ref where c: "c = CallConn ref \<or> c = CallClose ref" by (cases c) auto
    then have "client_is (dl_m s) ref (\<lambda>cl. True)"
      "s' = dl_goto s t (ConnWant ref) \<or> s' = dl_goto s t (CloseWant ref)"
      using Some assms idle by (auto simp: dl_exec_def client_is_def split: if_splits)
    with start [OF idle _ this(1)] show ?thesis by blast
  qed
next
  case (Some ref)
  then obtain cl where cl: "heap (dl_m s) ref = Some cl" and go: "dl_client_step api s t cl (dl_thread s t) = Some s'"
    using assms by (auto simp: dl_exec_def split: option.splits)
  show ?thesis
  proof (cases "dl_thread s t")
    case (ConnWant r)
    then show ?thesis using go by (intro lock [of r "ConnLocked r"]) (auto simp: mu_lock_def split: if_splits)
  next
    case (CloseWant r)
    then show ?thesis using go by (intro lock [of r "CloseLocked r"]) (auto simp: mu_lock_def split: if_splits)
  next
    case (ConnLocked r)
    show ?thesis
    proof (cases "cl_conn cl \<noteq> None \<or> cl_db cl \<noteq> None")
      case True
      then show ?thesis using go ConnLocked by (intro unlock [of r]) auto
    next
      case False
      then show ?thesis using go cl ConnLocked Some by (intro need [of r]) (auto simp: client_is_def)
    qed
  next
    case (OpenWant r)
    then show ?thesis using go by (intro enter [of r "OpenLocked r"]) (auto simp: dbMutex_lock_def split: if_splits)
  next
    case (OpenLocked r)
    obtain m w res where "openDB api (dl_m s) (dl_w s) (cl_ctx cl) (cl_ID cl) = (m, w, res)" by (metis prod_cases3)
    with OpenLocked go cl Some show ?thesis by (intro body [of r cl m w res]) auto
  next
    case (Opened r res)
    show ?thesis
    proof (cases res)
      case (Inl e)
      then show ?thesis using go Opened by (intro unlock [of r]) auto
    next
      case (Inr h)
      then show ?thesis using go cl Some Opened by (cases h) (auto intro: store [of r])
    qed
  next
    case (CloseLocked r)
    then show ?thesis using go cl Some by (intro conn_closed [OF CloseLocked]) (auto simp: Let_def)
  next
    case (CloseDBWant r)
    show ?thesis
    proof (cases "cl_db cl")
      case None
      then show ?thesis using go CloseDBWant by (intro unlock [of r]) auto
    next
      case db: (Some db)
      then show ?thesis using go cl Some CloseDBWant
        by (intro enter [of r "CountLocked r db"]) (auto simp: dbMutex_lock_def client_is_def split: if_splits)
    qed
  next
    case (CountLocked r db)
    then show ?thesis using go by (intro counted [OF CountLocked]) auto
  next
    case (CloserRun r db)
    then show ?thesis using go cl Some by (intro closed [OF CloserRun]) (auto simp: Let_def)
  qed (use Some in auto)
qed

lemma dl_exec_locks:
  assumes "dl_exec api s t start = Some s'" and "dl_locks s"
  shows "dl_locks s'"
  using assms(1)
proof (cases rule: dl_exec_cases)
  case (start pc ref)
  then show ?thesis by - (rule dl_locks_stay [OF assms(2), of _ t pc], auto simp: dl_ops)
next
  case (lock ref pc)
  then show ?thesis using dl_locksD(1) [OF assms(2), of t]
    by - (rule dl_locks_stay [OF assms(2), of _ t pc], auto simp: dl_ops)
next
  case (unlock ref)
  then show ?thesis by - (rule dl_locks_stay [OF assms(2), of _ t DIdle], auto simp: dl_ops)
next
  case (need ref)
  then show ?thesis using dl_locksD(2) [OF assms(2), of ref t]
    by - (rule dl_locks_stay [OF assms(2), of _ t "OpenWant ref"], auto simp: dl_ops)
next
  case (enter ref pc)
  then show ?thesis using dl_locksD(1) [OF assms(2), of t] dl_locksD(2) [OF assms(2), of ref t]
    by - (rule dl_locks_stay [OF assms(2), of _ t pc], auto simp: dl_ops)
next
  case (body ref cl m w r)
  then show ?thesis
    using dl_locksD(1) [OF assms(2), of t] dl_locksD(2) [OF assms(2), of ref t] openDB_frame [OF body(3)]
    by - (rule dl_locks_stay [OF assms(2), of _ t "Opened ref r"], auto simp: dl_ops client_is_def)
next
  case (store ref cl db conn)
  then show ?thesis
    by - (rule dl_locks_client [OF assms(2), of _ t DIdle ref "cl\<lparr>cl_db := Some db, cl_conn := Some conn\<rparr>"],
        auto simp: dl_ops)
next
  case (conn_closed ref cl w)
  then show ?thesis using dl_locksD(2) [OF assms(2), of ref t]
    by - (rule dl_locks_client [OF assms(2), of _ t "CloseDBWant ref" ref "cl\<lparr>cl_conn := None\<rparr>"],
        auto simp: dl_ops client_is_def)
next
  case (counted ref db)
  then show ?thesis using dl_locksD(1) [OF assms(2), of t] dl_locksD(2) [OF assms(2), of ref t]
    by - (rule dl_locks_stay [OF assms(2), of _ t "CloserRun ref db"], auto simp: dl_ops client_is_def)
next
  case (closed ref cl db w)
  then show ?thesis
    by - (rule dl_locks_client [OF assms(2), of _ t DIdle ref "cl\<lparr>cl_db := None\<rparr>"], auto simp: dl_ops)
qed


subsection \<open>The counter\<close>

definition counts :: "('e, 'w) manager \<Rightarrow> nat set \<Rightarrow> nat set \<Rightarrow> bool" where
  "counts m Opd Clo \<longleftrightarrow> finite (open_dbs m) \<and> finite Opd \<and> finite Clo \<and>
     dbCount m + int (card Clo) = int (card (open_dbs m)) + int (card Opd) \<and>
     0 \<le> dbCount m \<and> dbCount m \<le> max 0 (MaxDB m)"

definition opened_by :: "('e, 'w) dl_sys \<Rightarrow> nat set" where
  "opened_by s = {t. is_opened (dl_thread s t)}"

definition closing_by :: "('e, 'w) dl_sys \<Rightarrow> nat set" where
  "closing_by s = {t. is_closing (dl_thread s t)}"

text \<open>The databases that are really open: those of the clients, a closing one included, and those that
  were opened for a client that does not have them yet.\<close>

definition really_open :: "('e, 'w) dl_sys \<Rightarrow> nat" where
  "really_open s = card (open_dbs (dl_m s)) + card (opened_by s)"

definition dl_inv :: "('e, 'w) dl_sys \<Rightarrow> bool" where
  "dl_inv s \<longleftrightarrow> dl_locks s \<and> counts (dl_m s) (opened_by s) (closing_by s)"

lemma by_goto:
  "opened_by (dl_goto s t pc) = (if is_opened pc then insert t (opened_by s) else opened_by s - {t})"
  "closing_by (dl_goto s t pc) = (if is_closing pc then insert t (closing_by s) else closing_by s - {t})"
  unfolding opened_by_def closing_by_def dl_goto_def by (auto split: if_splits)

lemma by_frame [simp]:
  "opened_by (s\<lparr>dl_m := m\<rparr>) = opened_by s" "closing_by (s\<lparr>dl_m := m\<rparr>) = closing_by s"
  "opened_by (s\<lparr>dl_w := w\<rparr>) = opened_by s" "closing_by (s\<lparr>dl_w := w\<rparr>) = closing_by s"
  "opened_by (s\<lparr>dl_mu := mu\<rparr>) = opened_by s" "closing_by (s\<lparr>dl_mu := mu\<rparr>) = closing_by s"
  "opened_by (s\<lparr>dl_dbMutex := b\<rparr>) = opened_by s" "closing_by (s\<lparr>dl_dbMutex := b\<rparr>) = closing_by s"
  by (simp_all add: opened_by_def closing_by_def)

lemma not_by:
  "\<not> is_opened (dl_thread s t) \<Longrightarrow> opened_by s - {t} = opened_by s"
  "\<not> is_closing (dl_thread s t) \<Longrightarrow> closing_by s - {t} = closing_by s"
  by (auto simp: opened_by_def closing_by_def)

lemma counts_same:
  "counts m Opd Clo \<Longrightarrow> open_dbs m' = open_dbs m \<Longrightarrow> dbCount m' = dbCount m \<Longrightarrow> MaxDB m' = MaxDB m \<Longrightarrow>
   counts m' Opd Clo"
  by (simp add: counts_def)

text \<open>What each goroutine closes is open, and is closed by nobody else.\<close>

lemma closing_lt_open:
  assumes "dl_inv s" and "dl_thread s t = CountLocked ref db"
  shows "card (closing_by s) < card (open_dbs (dl_m s))"
proof -
  have locks: "dl_locks s" and fin: "finite (open_dbs (dl_m s))" using assms(1) by (simp_all add: dl_inv_def counts_def)
  define cof where "cof u = the (mu_of (dl_thread s u))" for u
  have closing: "\<exists>r. mu_of (dl_thread s u) = Some r \<and> r \<in> open_dbs (dl_m s)" if "u \<in> closing_by s" for u
    using that dl_locksD(1) [OF locks, of u]
    by (cases "dl_thread s u") (auto simp: closing_by_def client_is_def open_dbs_None_iff split: option.splits)
  have inj: "inj_on cof (closing_by s)"
  proof (rule inj_onI)
    fix u v assume uv: "u \<in> closing_by s" "v \<in> closing_by s" "cof u = cof v"
    then obtain r where "mu_of (dl_thread s u) = Some r" "mu_of (dl_thread s v) = Some r"
      using closing [OF uv(1)] closing [OF uv(2)] by (auto simp: cof_def)
    then show "u = v" using dl_locksD(2) [OF locks] by (metis option.inject)
  qed
  have ref: "ref \<in> open_dbs (dl_m s)"
    using dl_locksD(1) [OF locks, of t] assms(2) by (auto simp: client_is_def open_dbs_None_iff split: option.splits)
  have "cof ` closing_by s \<subseteq> open_dbs (dl_m s) - {ref}"
  proof (rule image_subsetI)
    fix u assume u: "u \<in> closing_by s"
    then obtain r where r: "mu_of (dl_thread s u) = Some r" "r \<in> open_dbs (dl_m s)" using closing by blast
    have "u \<noteq> t" using u assms(2) by (auto simp: closing_by_def)
    moreover have "dl_mu s ref = Some t" using dl_locksD(2) [OF locks, of ref t] assms(2) by simp
    ultimately have "r \<noteq> ref" using r(1) dl_locksD(2) [OF locks, of r u] by auto
    then show "cof u \<in> open_dbs (dl_m s) - {ref}" using r by (simp add: cof_def)
  qed
  then have "card (cof ` closing_by s) \<le> card (open_dbs (dl_m s) - {ref})" using fin by (intro card_mono) auto
  moreover have "card (cof ` closing_by s) = card (closing_by s)" by (rule card_image [OF inj])
  moreover have "card (open_dbs (dl_m s) - {ref}) < card (open_dbs (dl_m s))"
    using fin ref by (intro psubset_card_mono) auto
  ultimately show ?thesis by linarith
qed

lemma open_dbs_set_client:
  "open_dbs (m\<lparr>heap := (heap m)(ref \<mapsto> cl)\<rparr>) = (if cl_db cl = None then open_dbs m - {ref} else insert ref (open_dbs m))"
  by (rule open_dbs_upd) simp

lemma open_dbs_same_db:
  "heap m ref = Some cl \<Longrightarrow> cl_db cl' = cl_db cl \<Longrightarrow> open_dbs (m\<lparr>heap := (heap m)(ref \<mapsto> cl')\<rparr>) = open_dbs m"
  by (auto simp: open_dbs_def has_db_def)

lemma counts_quiet:
  assumes "counts (dl_m s) (opened_by s) (closing_by s)" and "dl_m s' = dl_m s"
    and "dl_thread s' = (dl_thread s)(t := pc)" and "\<not> is_opened pc" and "\<not> is_closing pc"
    and "\<not> is_opened (dl_thread s t)" and "\<not> is_closing (dl_thread s t)"
  shows "counts (dl_m s') (opened_by s') (closing_by s')"
proof -
  have "opened_by s' = opened_by s" "closing_by s' = closing_by s"
    using assms(3-7) by (auto simp: opened_by_def closing_by_def)
  with assms(1,2) show ?thesis by simp
qed

lemma dl_exec_counts:
  assumes "dl_exec api s t st = Some s'" and "dl_inv s"
  shows "counts (dl_m s') (opened_by s') (closing_by s')"
proof -
  have locks: "dl_locks s" and cnt: "counts (dl_m s) (opened_by s) (closing_by s)"
    using assms(2) by (simp_all add: dl_inv_def)
  from assms(1) show ?thesis
  proof (cases rule: dl_exec_cases)
    case (start pc ref)
    then show ?thesis by - (rule counts_quiet [OF cnt, of _ t pc], auto simp: dl_goto_def)
  next
    case (lock ref pc)
    then show ?thesis by - (rule counts_quiet [OF cnt, of _ t pc], auto simp: dl_goto_def)
  next
    case (unlock ref)
    then show ?thesis by - (rule counts_quiet [OF cnt, of _ t DIdle], auto simp: mu_unlock_def dl_goto_def)
  next
    case (need ref)
    then show ?thesis by - (rule counts_quiet [OF cnt, of _ t "OpenWant ref"], auto simp: dl_goto_def)
  next
    case (enter ref pc)
    then show ?thesis by - (rule counts_quiet [OF cnt, of _ t pc], auto simp: dl_goto_def)
  next
    case (body ref cl m w r)
    note frame = openDB_frame [OF body(3)]
    have od: "open_dbs m = open_dbs (dl_m s)" by (rule open_dbs_heap [OF frame(1)])
    have no: "t \<notin> opened_by s" "t \<notin> closing_by s" using body(1) by (auto simp: opened_by_def closing_by_def)
    show ?thesis
    proof (cases r)
      case (Inl e)
      then show ?thesis using cnt frame od no body(4)
        by (simp add: by_goto, simp add: dl_goto_def counts_def)
    next
      case (Inr h)
      then show ?thesis using cnt frame od no body(4)
        by (simp add: by_goto, simp add: dl_goto_def counts_def)
    qed
  next
    case (store ref cl db conn)
    have t: "t \<in> opened_by s" "t \<notin> closing_by s" using store(1) by (auto simp: opened_by_def closing_by_def)
    have ref: "ref \<notin> open_dbs (dl_m s)"
      using dl_locksD(1) [OF locks, of t] store(1,2) by (auto simp: client_is_def open_dbs_None_iff)
    have "card (opened_by s - {t}) = card (opened_by s) - 1" "0 < card (opened_by s)"
      using t(1) cnt by (auto simp: counts_def card_gt_0_iff)
    then show ?thesis using cnt t ref store(3)
      by (simp add: mu_unlock_def dl_set_client_def by_goto, simp add: dl_goto_def counts_def open_dbs_set_client)
  next
    case (conn_closed ref cl w)
    then show ?thesis using cnt not_by [of s t] open_dbs_same_db [OF conn_closed(2), of "cl\<lparr>cl_conn := None\<rparr>"]
      by (simp add: by_goto dl_set_client_def, simp add: dl_goto_def counts_def)
  next
    case (counted ref db)
    have "t \<notin> opened_by s" "t \<notin> closing_by s" using counted(1) by (auto simp: opened_by_def closing_by_def)
    moreover have "card (closing_by s) < card (open_dbs (dl_m s))" by (rule closing_lt_open [OF assms(2) counted(1)])
    moreover have "open_dbs (closeDB_count (dl_m s)) = open_dbs (dl_m s)" by (rule open_dbs_heap) simp
    ultimately show ?thesis using cnt counted(2)
      by (simp add: by_goto, simp add: dl_goto_def counts_def, simp add: closeDB_count_def)
  next
    case (closed ref cl db w)
    have t: "t \<notin> opened_by s" "t \<in> closing_by s" using closed(1) by (auto simp: opened_by_def closing_by_def)
    have "card (closing_by s - {t}) = card (closing_by s) - 1" "0 < card (closing_by s)"
      using t(2) cnt by (auto simp: counts_def card_gt_0_iff)
    moreover have "ref \<in> open_dbs (dl_m s)"
      using dl_locksD(1) [OF locks, of t] closed(1) by (auto simp: client_is_def open_dbs_None_iff split: option.splits)
    then have "card (open_dbs (dl_m s) - {ref}) = card (open_dbs (dl_m s)) - 1" "0 < card (open_dbs (dl_m s))"
      using cnt by (auto simp: counts_def card_gt_0_iff)
    ultimately show ?thesis using cnt t closed(3)
      by (simp add: mu_unlock_def dl_set_client_def by_goto, simp add: dl_goto_def counts_def open_dbs_set_client)
  qed
qed


lemma new_client_frame:
  assumes "withNewClient m ctx c draws = Some (m', ref, rest)" and "\<And>r. heap m r \<noteq> None \<Longrightarrow> r < next_ref m"
  obtains cl where "heap m' = (heap m)(ref \<mapsto> cl)" "cl_db cl = None" "ref = next_ref m" "heap m ref = None"
    "next_ref m' = Suc ref" "dbCount m' = dbCount m" "MaxDB m' = MaxDB m"
proof -
  have "heap m (next_ref m) = None" using assms(2) by blast
  with assms(1) that show ?thesis by (elim withNewClient_Some) simp
qed

lemma dl_accept_inv:
  assumes "withNewClient (dl_m s) ctx c draws = Some (m, ref, rest)" and "dl_inv s"
  shows "dl_inv (s\<lparr>dl_m := m\<rparr>)"
proof -
  have locks: "dl_locks s" and cnt: "counts (dl_m s) (opened_by s) (closing_by s)"
    using assms(2) by (simp_all add: dl_inv_def)
  obtain cl where cl: "heap m = (heap (dl_m s))(ref \<mapsto> cl)" "cl_db cl = None" "ref = next_ref (dl_m s)"
    "heap (dl_m s) ref = None" "next_ref m = Suc ref" "dbCount m = dbCount (dl_m s)" "MaxDB m = MaxDB (dl_m s)"
    using new_client_frame [OF assms(1) dl_locksD(4) [OF locks]] by blast
  have "mu_of (dl_thread s t) \<noteq> Some ref" for t
    using dl_locksD(1) [OF locks, of t] cl(4) pc_client_mu_of [of "dl_thread s t" ref]
    by (cases "dl_thread s t") (auto simp: client_is_def)
  then have "pc_ok m (dl_thread s t)" for t
    using pc_ok_other [OF dl_locksD(1) [OF locks] _ cl(1)] by blast
  moreover have "r < next_ref m" if "heap m r \<noteq> None" for r
    using that cl(1,3,5) dl_locksD(4) [OF locks, of r] by (auto split: if_splits)
  ultimately have "dl_locks (s\<lparr>dl_m := m\<rparr>)" using locks by (simp add: dl_locks_def)
  moreover have "open_dbs m = open_dbs (dl_m s)"
    using cl(1,2,4) by (auto simp: open_dbs_None_iff split: if_splits)
  then have "counts m (opened_by s) (closing_by s)" using counts_same [OF cnt] cl(6,7) by blast
  ultimately show ?thesis by (simp add: dl_inv_def)
qed

lemma dl_conn_state_inv:
  assumes "ConnState (dl_m s) c st = (m, spawned, unknown)" and "dl_inv s"
  shows "dl_inv (s\<lparr>dl_m := m\<rparr>)"
proof -
  have frame: "heap m = heap (dl_m s) \<and> next_ref m = next_ref (dl_m s) \<and> dbCount m = dbCount (dl_m s) \<and> MaxDB m = MaxDB (dl_m s)"
  proof (cases "st = StateClosed")
    case True
    then have "closeConn (dl_m s) c = (m, spawned, unknown)" using assms(1) by (simp add: ConnState_def)
    then show ?thesis by (cases rule: closeConn_cases) simp_all
  next
    case False
    then show ?thesis using assms(1) by (simp add: ConnState_def)
  qed
  have locks: "dl_locks s" and cnt: "counts (dl_m s) (opened_by s) (closing_by s)"
    using assms(2) by (simp_all add: dl_inv_def)
  have "pc_ok m (dl_thread s t)" for t using pc_ok_heap [OF dl_locksD(1) [OF locks]] frame by blast
  then have "dl_locks (s\<lparr>dl_m := m\<rparr>)" using locks frame by (simp add: dl_locks_def)
  moreover have "open_dbs m = open_dbs (dl_m s)" using frame by (intro open_dbs_heap) simp
  then have "counts m (opened_by s) (closing_by s)" using counts_same [OF cnt] frame by blast
  ultimately show ?thesis by (simp add: dl_inv_def)
qed

lemma dl_init_inv: "dl_inv (dl_init (new_manager n op cl) w)"
  by (simp add: dl_inv_def dl_locks_def counts_def opened_by_def closing_by_def dl_init_def new_manager_def
      open_dbs_def has_db_def)

lemma dl_step_inv: "dl_step api s s' \<Longrightarrow> dl_inv s \<Longrightarrow> dl_inv s'"
proof (induction rule: dl_step.induct)
  case (dl_go s t start s')
  then show ?case using dl_exec_locks dl_exec_counts by (fastforce simp: dl_inv_def)
qed (auto intro: dl_accept_inv dl_conn_state_inv)

lemma dl_reach_inv: "dl_reach api s0 s \<Longrightarrow> dl_inv s0 \<Longrightarrow> dl_inv s"
  by (induction rule: dl_reach.induct) (auto intro: dl_step_inv)

lemma openDB_MaxDB: "dl_exec api s t st = Some s' \<Longrightarrow> MaxDB (dl_m s') = MaxDB (dl_m s)"
  by (erule dl_exec_cases) (auto simp: dl_ops dest: openDB_frame(3))

lemma dl_step_MaxDB: "dl_step api s s' \<Longrightarrow> MaxDB (dl_m s') = MaxDB (dl_m s)"
proof (induction rule: dl_step.induct)
  case (dl_go s t start s')
  then show ?case by (rule openDB_MaxDB)
next
  case (dl_accept s ctx c draws m ref rest)
  then show ?case by (simp add: withNewClient_MaxDB)
next
  case (dl_conn_state s c st m spawned unknown)
  then show ?case by (auto simp: ConnState_def dest: closeConn_MaxDB split: if_splits)
qed

lemma dl_reach_MaxDB: "dl_reach api s0 s \<Longrightarrow> MaxDB (dl_m s) = MaxDB (dl_m s0)"
  by (induction rule: dl_reach.induct) (auto simp: dl_step_MaxDB)

subsection \<open>Every call returns\<close>

fun pc_rank :: "dl_pc \<Rightarrow> nat" where
  "pc_rank DIdle = 0"
| "pc_rank (ConnWant ref) = 5"
| "pc_rank (ConnLocked ref) = 4"
| "pc_rank (OpenWant ref) = 3"
| "pc_rank (OpenLocked ref) = 2"
| "pc_rank (Opened ref r) = 1"
| "pc_rank (CloseWant ref) = 5"
| "pc_rank (CloseLocked ref) = 4"
| "pc_rank (CloseDBWant ref) = 3"
| "pc_rank (CountLocked ref db) = 2"
| "pc_rank (CloserRun ref db) = 1"

definition dl_work :: "('e, 'w) dl_sys \<Rightarrow> nat" where
  "dl_work s = (\<Sum>t | dl_thread s t \<noteq> DIdle. pc_rank (dl_thread s t))"

lemma pc_rank_pos: "pc \<noteq> DIdle \<Longrightarrow> 0 < pc_rank pc"
  by (cases pc) auto

lemma dl_exec_thread:
  assumes "dl_exec api s t st = Some s'"
  obtains pc where "dl_thread s' = (dl_thread s)(t := pc)" "dl_thread s t \<noteq> DIdle \<Longrightarrow> pc_rank pc < pc_rank (dl_thread s t)"
  using assms
proof (cases rule: dl_exec_cases)
  case (unlock ref)
  then show ?thesis by (intro that [of DIdle]) (auto simp: dl_ops pc_rank_pos)
qed (auto simp: dl_ops intro!: that)

lemma dl_exec_finite:
  "dl_exec api s t st = Some s' \<Longrightarrow> finite {u. dl_thread s u \<noteq> DIdle} \<Longrightarrow> finite {u. dl_thread s' u \<noteq> DIdle}"
  by (erule dl_exec_thread, rule finite_subset [of _ "insert t {u. dl_thread s u \<noteq> DIdle}"]) auto

lemma dl_reach_finite:
  assumes "dl_reach api (dl_init m w) s"
  shows "finite {u. dl_thread s u \<noteq> DIdle}"
  using assms
proof (induction rule: dl_reach.induct)
  case dl_start
  show ?case by (simp add: dl_init_def)
next
  case (dl_next s s')
  from dl_next.hyps(2) dl_next.IH show ?case
    by (cases rule: dl_step.cases) (auto dest: dl_exec_finite)
qed

lemma dl_exec_work:
  assumes "dl_exec api s t None = Some s'" and "finite {u. dl_thread s u \<noteq> DIdle}"
  shows "dl_work s' < dl_work s"
proof -
  have "dl_thread s t \<noteq> DIdle" using assms(1) by (auto simp: dl_exec_def)
  then obtain pc where pc: "dl_thread s' = (dl_thread s)(t := pc)" "pc_rank pc < pc_rank (dl_thread s t)"
    using dl_exec_thread [OF assms(1)] by metis
  show ?thesis unfolding dl_work_def pc(1) by (rule work_decreases [OF assms(2) pc(2)]) simp
qed

text \<open>Whoever holds \<open>dbMutex\<close> can go on; if nobody does, whoever holds a client; if nobody does, anybody.\<close>

lemma dl_enabled:
  assumes "dl_locks s" and "dl_thread s t \<noteq> DIdle"
  shows "\<exists>u. dl_exec api s u None \<noteq> None"
proof -
  have client: "\<exists>ref cl. pc_client (dl_thread s u) = Some ref \<and> heap (dl_m s) ref = Some cl \<and>
      dl_exec api s u None = dl_client_step api s u cl (dl_thread s u)" if "dl_thread s u \<noteq> DIdle" for u
    using that dl_locksD(1) [OF assms(1), of u]
    by (cases "dl_thread s u") (auto simp: client_is_def dl_exec_def split: option.splits)
  have inside: "dl_exec api s u None \<noteq> None"
    if "mu_of (dl_thread s u) \<noteq> None" and "in_dbMutex (dl_thread s u) \<or> dl_dbMutex s = None" for u
  proof -
    have "dl_thread s u \<noteq> DIdle" using that(1) by auto
    then obtain cl where "dl_exec api s u None = dl_client_step api s u cl (dl_thread s u)" using client by blast
    moreover have "dl_client_step api s u cl (dl_thread s u) \<noteq> None"
      using that by (cases "(api, s, u, cl, dl_thread s u)" rule: dl_client_step.cases)
        (auto simp: dbMutex_lock_def Let_def split: option.splits prod.splits)
    ultimately show ?thesis by simp
  qed
  show ?thesis
  proof (cases "dl_dbMutex s")
    case (Some u)
    then have u: "in_dbMutex (dl_thread s u)" using dl_locksD(3) [OF assms(1)] by simp
    then have "mu_of (dl_thread s u) \<noteq> None" by (cases "dl_thread s u") auto
    with u inside show ?thesis by blast
  next
    case None
    show ?thesis
    proof (cases "\<exists>u. mu_of (dl_thread s u) \<noteq> None")
      case True
      with None inside show ?thesis by blast
    next
      case False
      then have free: "dl_mu s r = None" for r using dl_locksD(2) [OF assms(1)] by (metis not_None_eq)
      obtain cl where "dl_exec api s t None = dl_client_step api s t cl (dl_thread s t)" using client assms(2) by blast
      moreover have "mu_of (dl_thread s t) = None" using False by blast
      then have "dl_client_step api s t cl (dl_thread s t) \<noteq> None"
        using assms(2) free
        by (cases "dl_thread s t") (auto simp: mu_lock_def)
      ultimately show ?thesis by metis
    qed
  qed
qed

lemma dl_drain:
  assumes "dl_locks s" and "finite {u. dl_thread s u \<noteq> DIdle}"
  shows "\<exists>sched s'. dl_schedule api s sched = Some s' \<and> list_all (\<lambda>(t, c). c = None) sched \<and> (\<forall>t. dl_thread s' t = DIdle)"
  using assms
proof (induction "dl_work s" arbitrary: s rule: less_induct)
  case less
  show ?case
  proof (cases "\<forall>t. dl_thread s t = DIdle")
    case True
    then show ?thesis by (intro exI [of _ "[]"] exI [of _ s]) simp
  next
    case False
    then obtain u s1 where s1: "dl_exec api s u None = Some s1" using dl_enabled [OF less.prems(1)] by blast
    obtain sched s' where r: "dl_schedule api s1 sched = Some s'" "list_all (\<lambda>(t, c). c = None) sched" "\<forall>t. dl_thread s' t = DIdle"
      using less.hyps [OF dl_exec_work [OF s1 less.prems(2)] dl_exec_locks [OF s1 less.prems(1)] dl_exec_finite [OF s1 less.prems(2)]]
      by blast
    show ?thesis by (intro exI [of _ "(u, None) # sched"] exI [of _ s']) (simp add: s1 r)
  qed
qed


subsection \<open>The properties\<close>

text \<open>
  C8. The limit under the mutexes. However the statements of the goroutines interleave, the counter is
  within \<open>MaxDB\<close>, and the databases that are really open are those it counts and those whose close has
  not finished: each goroutine that is closing one can be the cause of one database above the limit.
\<close>

theorem limit_under_mutexes:
  assumes "dl_reach api (dl_init (new_manager n op cl) w) s"
  shows "0 \<le> dbCount (dl_m s) \<and> dbCount (dl_m s) \<le> max 0 n \<and>
    int (really_open s) = dbCount (dl_m s) + int (card (closing_by s))"
proof -
  have "dl_inv s" by (rule dl_reach_inv [OF assms dl_init_inv])
  moreover have "MaxDB (dl_m s) = n" using dl_reach_MaxDB [OF assms] by (simp add: dl_init_def new_manager_def)
  ultimately show ?thesis by (auto simp: dl_inv_def counts_def really_open_def)
qed

text \<open>Two connections and a limit of one: the second opens its database while the first is closing its own.\<close>

definition demo_two :: "(unit, nat) manager" where
  "demo_two = demo_accepted\<lparr>clients := Store (clients demo_accepted) 6 1, connToID := Store (connToID demo_accepted) 8 6,
     heap := (heap demo_accepted)(1 \<mapsto> demo_client\<lparr>cl_ctx := with_conn_id background 6, cl_ID := 6\<rparr>), next_ref := 2\<rparr>"

definition overlap_schedule :: "(nat \<times> dl_start option) list" where
  "overlap_schedule =
     [(0, Some (CallConn 0)), (0, None), (0, None), (0, None), (0, None), (0, None),
      (1, Some (CallClose 0)), (1, None), (1, None), (1, None), (1, None),
      (2, Some (CallConn 1)), (2, None), (2, None), (2, None), (2, None), (2, None)]"

definition overlap_state :: "(unit, nat) dl_sys" where
  "overlap_state = the (dl_schedule demo_api (dl_init demo_two 0) overlap_schedule)"

lemmas overlap_defs = overlap_schedule_def dl_exec_def dl_ops dl_init_def demo_two_def demo_defs openDB_def
  closeDB_count_def with_conn_id_def background_def

lemma overlap_scheduled:
  "dl_schedule demo_api (dl_init demo_two 0) overlap_schedule = Some overlap_state"
  unfolding overlap_state_def by (simp add: overlap_defs)

lemma demo_two_reach: "dl_reach demo_api (dl_init (new_manager 1 (Some demo_open) (Some demo_close)) 0) (dl_init demo_two 0)"
proof -
  let ?s0 = "dl_init demo_mgr 0"
  have "dl_step demo_api ?s0 (?s0\<lparr>dl_m := demo_accepted\<rparr>)"
    using demo_accept by (intro dl_accept [where c = 7 and ctx = background]) (simp add: dl_init_def)
  then have one: "dl_reach demo_api ?s0 (dl_init demo_accepted 0)"
    using dl_next [OF dl_start] by (fastforce simp: dl_init_def)
  have "withNewClient demo_accepted background 8 [6] = Some (demo_two, 1, [])"
    by (simp add: withNewClient_def demo_defs demo_two_def new_id_loop_eq store_laws with_conn_id_def)
  then have "dl_step demo_api (dl_init demo_accepted 0) ((dl_init demo_accepted 0)\<lparr>dl_m := demo_two\<rparr>)"
    by (intro dl_accept [where c = 8 and ctx = background]) (simp add: dl_init_def)
  then show ?thesis using dl_next [OF one] by (simp add: dl_init_def demo_mgr_def)
qed

lemma overlap_eval:
  "dbCount (dl_m overlap_state) = 1" "closing_by overlap_state = {1}"
  unfolding overlap_state_def closing_by_def by (simp_all add: overlap_defs)

theorem limit_under_mutexes_witness:
  "MaxDB (dl_m overlap_state) = 1 \<and> really_open overlap_state = 2"
proof -
  have reach: "dl_reach demo_api (dl_init (new_manager 1 (Some demo_open) (Some demo_close)) 0) overlap_state"
    by (rule dl_schedule_reach [OF overlap_scheduled demo_two_reach])
  have "int (really_open overlap_state) = 2" using limit_under_mutexes [OF reach] by (simp add: overlap_eval)
  moreover have "MaxDB (dl_m overlap_state) = 1"
    using dl_reach_MaxDB [OF reach] by (simp add: dl_init_def new_manager_def)
  ultimately show ?thesis by simp
qed

text \<open>
  C12. No deadlock between the two kinds of mutexes. From every state that can be reached, if no new call
  is made, there is a schedule in which every pending \<open>Conn\<close> and \<open>close\<close> returns.
\<close>

theorem conn_calls_return:
  assumes "dl_reach api (dl_init (new_manager n op cl) w) s"
  shows "\<exists>sched s'. dl_schedule api s sched = Some s' \<and> list_all (\<lambda>(t, c). c = None) sched \<and>
    (\<forall>t. dl_thread s' t = DIdle)"
proof (rule dl_drain)
  have "dl_inv s" by (rule dl_reach_inv [OF assms dl_init_inv])
  then show "dl_locks s" by (simp add: dl_inv_def)
  show "finite {u. dl_thread s u \<noteq> DIdle}" by (rule dl_reach_finite [OF assms])
qed

theorem conn_calls_return_witness:
  "\<exists>sched s'. dl_schedule demo_api overlap_state sched = Some s' \<and> list_all (\<lambda>(t, c). c = None) sched \<and>
    (\<forall>t. dl_thread s' t = DIdle)"
  by (rule conn_calls_return [OF dl_schedule_reach [OF overlap_scheduled demo_two_reach]])

end
