(* ===== verification/Syncmap_Locks_Props.thy ===== *)
theory Syncmap_Locks_Props
  imports Syncmap_Locks
begin

section \<open>internal/syncmap: the locked methods refine single steps\<close>

text \<open>
  Theorems on the theory \<open>Syncmap_Locks\<close>: the lock excludes what it must exclude, every interleaving of
  the statements looks as if each method were one step on the map, and every call returns. They are why
  the other theories may take a method of the map as one operation.
\<close>

subsection \<open>A body run alone is the method\<close>

lemma run_range:
  "\<exists>l'. run_rest [SRange ks f st] m l = Some (m, l') \<and> lv_st l' = Some (range_loop f (sm_load m) ks st)"
proof (induction ks arbitrary: st)
  case (Cons k ks)
  show ?case
  proof (cases "sm_load m k")
    case None
    then show ?thesis using Cons by simp
  next
    case (Some v)
    obtain st' b where "f k v st = (st', b)" by fastforce
    then show ?thesis using Some Cons [of st'] by simp
  qed
qed simp

lemma run_call_body:
  "\<exists>l. run_rest (call_body c) m no_locals = Some (fst (atomic_call c m), l) \<and>
       call_result c l = snd (atomic_call c m)"
proof (cases c)
  case (CRange ks f st)
  then show ?thesis using run_range [of ks f st m no_locals] by (auto simp: Range_def)
qed (auto simp: no_locals_def Load_def Store_def Delete_def LoadOrStore_def LoadAndDelete_def
    syncmap_bodies Let_def split: option.split)

subsection \<open>Who holds the lock\<close>

fun reads_inside :: "('k, 'v, 's) sm_thread \<Rightarrow> bool" where
  "reads_inside (Inside c ss l) = call_reads c"
| "reads_inside _ = False"

fun writes_inside :: "('k, 'v, 's) sm_thread \<Rightarrow> bool" where
  "writes_inside (Inside c ss l) = (\<not> call_reads c)"
| "writes_inside _ = False"

fun announces :: "('k, 'v, 's) sm_thread \<Rightarrow> bool" where
  "announces (Announced c) = True"
| "announces th = writes_inside th"

fun stmt_reads :: "('k, 'v, 's) sm_stmt \<Rightarrow> bool" where
  "stmt_reads (SLoad k) = True"
| "stmt_reads (SRange ks f st) = True"
| "stmt_reads _ = False"

text \<open>A goroutine is where its call can be: only writers announce themselves, and what is left of a
  reading method only reads.\<close>

fun thread_ok :: "('k, 'v, 's) sm_thread \<Rightarrow> bool" where
  "thread_ok (Announced c) = (\<not> call_reads c)"
| "thread_ok (Inside c ss l) = (call_reads c \<longrightarrow> list_all stmt_reads ss)"
| "thread_ok _ = True"

text \<open>The lock counts the readers, knows of one writer at most, and lets it in alone.\<close>

definition lk_counts :: "rwmutex \<Rightarrow> nat set \<Rightarrow> nat set \<Rightarrow> nat set \<Rightarrow> bool" where
  "lk_counts rw R A W \<longleftrightarrow> finite R \<and> rw_readers rw = card R \<and> W \<subseteq> A \<and> (\<exists>t. A \<subseteq> {t}) \<and>
     (rw_announced rw \<longleftrightarrow> A \<noteq> {}) \<and> (rw_writing rw \<longleftrightarrow> W \<noteq> {}) \<and> (rw_writing rw \<longrightarrow> rw_readers rw = 0)"

definition lk_inv :: "('k, 'v, 's) lk_sys \<Rightarrow> bool" where
  "lk_inv s \<longleftrightarrow> (\<forall>t. thread_ok (lk_thread s t)) \<and>
     lk_counts (lk_rw s) {t. reads_inside (lk_thread s t)} {t. announces (lk_thread s t)}
       {t. writes_inside (lk_thread s t)}"

lemma lk_counts_rlock:
  "lk_counts rw R A W \<Longrightarrow> sm_rlock rw = Some rw' \<Longrightarrow> t \<notin> R \<Longrightarrow> lk_counts rw' (insert t R) A W"
  by (auto simp: lk_counts_def sm_rlock_def split: if_splits)

lemma lk_counts_announce:
  "lk_counts rw R A W \<Longrightarrow> sm_lock_announce rw = Some rw' \<Longrightarrow> lk_counts rw' R (insert t A) W"
  by (auto simp: lk_counts_def sm_lock_announce_def split: if_splits)

lemma lk_counts_lock:
  "lk_counts rw R A W \<Longrightarrow> sm_lock rw = Some rw' \<Longrightarrow> t \<in> A \<Longrightarrow> lk_counts rw' R A (insert t W)"
  by (auto simp: lk_counts_def sm_lock_def split: if_splits)

lemma lk_counts_runlock:
  assumes "lk_counts rw R A W" and "sm_runlock rw = Some rw'" and "t \<in> R"
  shows "lk_counts rw' (R - {t}) A W"
proof -
  have "card (R - {t}) = card R - 1" using assms(3) by simp
  moreover have "\<not> rw_writing rw" "rw' = rw\<lparr>rw_readers := rw_readers rw - 1\<rparr>"
    using assms(1,2) by (auto simp: lk_counts_def sm_runlock_def split: if_splits)
  ultimately show ?thesis using assms(1) by (simp add: lk_counts_def)
qed

lemma lk_counts_unlock:
  assumes "lk_counts rw R A W" and "sm_unlock rw = Some rw'" and "t \<in> W"
  shows "lk_counts rw' R (A - {t}) (W - {t})"
proof -
  obtain x where "W \<subseteq> A" "A \<subseteq> {x}" using assms(1) by (auto simp: lk_counts_def)
  with assms(3) have "A - {t} = {}" "W - {t} = {}" by auto
  moreover have "rw_readers rw = card R" "finite R"
    "rw' = rw\<lparr>rw_announced := False, rw_writing := False\<rparr>"
    using assms(1,2) by (simp_all add: lk_counts_def sm_unlock_def split: if_splits)
  ultimately show ?thesis by (auto simp: lk_counts_def)
qed

lemma writes_announces: "writes_inside th \<Longrightarrow> announces th"
  by (cases th) auto

lemma lk_init_inv: "lk_inv (lk_init m)"
  by (simp add: lk_inv_def lk_counts_def lk_init_def rw_zero_def)

lemma call_body_reads: "call_reads c \<Longrightarrow> list_all stmt_reads (call_body c)"
  by (cases c) auto

lemma stmt_exec_reads:
  "stmt_exec st ss m l = Some (ss', m', l') \<Longrightarrow> stmt_reads st \<Longrightarrow> list_all stmt_reads ss \<Longrightarrow>
   m' = m \<and> list_all stmt_reads ss'"
  by (cases "(st, ss, m, l)" rule: stmt_exec.cases) (auto split: option.splits if_splits prod.splits)

text \<open>A goroutine that moves to another phase moves between the three sets.\<close>

lemma lk_inv_move:
  assumes "lk_inv s" and "lk_thread s' = (lk_thread s)(t := th)" and "thread_ok th"
    and "lk_counts (lk_rw s')
      (if reads_inside th then insert t {u. reads_inside (lk_thread s u)} else {u. reads_inside (lk_thread s u)} - {t})
      (if announces th then insert t {u. announces (lk_thread s u)} else {u. announces (lk_thread s u)} - {t})
      (if writes_inside th then insert t {u. writes_inside (lk_thread s u)} else {u. writes_inside (lk_thread s u)} - {t})"
  shows "lk_inv s'"
proof -
  have "thread_ok (lk_thread s' u)" for u using assms(1,2,3) by (simp add: lk_inv_def)
  then show ?thesis using assms(4) unfolding lk_inv_def assms(2) thread_set_upd by blast
qed

lemma lk_inv_thread: "lk_inv s \<Longrightarrow> lk_thread s t = th \<Longrightarrow> thread_ok th"
  by (auto simp: lk_inv_def)

lemma lk_inv_counts:
  "lk_inv s \<Longrightarrow> lk_counts (lk_rw s) {t. reads_inside (lk_thread s t)} {t. announces (lk_thread s t)}
       {t. writes_inside (lk_thread s t)}"
  by (simp add: lk_inv_def)

lemma lk_step_inv:
  assumes "lk_step s es s'" and "lk_inv s"
  shows "lk_inv s'"
  using assms
proof (induction rule: lk_step.induct)
  case (lk_invoke s t c)
  show ?case using lk_inv_counts [OF lk_invoke.prems] lk_invoke.hyps
    by - (rule lk_inv_move [OF lk_invoke.prems, of _ t "Entering c"], simp_all add: Diff_triv)
next
  case (lk_rlock s t c rw)
  show ?case using lk_counts_rlock [OF lk_inv_counts [OF lk_rlock.prems], of rw t] lk_rlock.hyps
    by - (rule lk_inv_move [OF lk_rlock.prems, of _ t "Inside c (call_body c) no_locals"],
        simp_all add: Diff_triv call_body_reads)
next
  case (lk_announce s t c rw)
  show ?case using lk_counts_announce [OF lk_inv_counts [OF lk_announce.prems], of rw t] lk_announce.hyps
    by - (rule lk_inv_move [OF lk_announce.prems, of _ t "Announced c"], simp_all add: Diff_triv)
next
  case (lk_lock s t c rw)
  have "\<not> call_reads c" using lk_inv_thread [OF lk_lock.prems lk_lock.hyps(1)] by simp
  then show ?case using lk_counts_lock [OF lk_inv_counts [OF lk_lock.prems], of rw t] lk_lock.hyps
    by - (rule lk_inv_move [OF lk_lock.prems, of _ t "Inside c (call_body c) no_locals"],
        simp_all add: Diff_triv insert_absorb)
next
  case (lk_stmt s t c st ss l ss' m l')
  have "thread_ok (Inside c ss' l')"
    using lk_inv_thread [OF lk_stmt.prems lk_stmt.hyps(1)] stmt_exec_reads [OF lk_stmt.hyps(2)] by auto
  then show ?case using lk_inv_counts [OF lk_stmt.prems] lk_stmt.hyps(1)
    by - (rule lk_inv_move [OF lk_stmt.prems, of _ t "Inside c ss' l'"],
        simp_all add: Diff_triv insert_absorb)
next
  case (lk_release s t c l rw)
  note counts = lk_inv_counts [OF lk_release.prems]
  show ?case using lk_counts_runlock [OF counts, of rw t] lk_counts_unlock [OF counts, of rw t]
      lk_release.hyps
    by - (rule lk_inv_move [OF lk_release.prems, of _ t "Leaving c l"],
        simp_all add: Diff_triv split: if_splits)
next
  case (lk_return s t c l)
  show ?case using lk_inv_counts [OF lk_return.prems] lk_return.hyps
    by - (rule lk_inv_move [OF lk_return.prems, of _ t Idle], simp_all add: Diff_triv)
qed

lemma lk_run_inv: "lk_run (lk_init m) tr s \<Longrightarrow> lk_inv s"
  by (induction rule: lk_run.induct) (auto intro: lk_init_inv lk_step_inv)


text \<open>A writer is alone, and next to a reader there are only readers.\<close>

fun is_inside :: "('k, 'v, 's) sm_thread \<Rightarrow> bool" where
  "is_inside (Inside c ss l) = True"
| "is_inside _ = False"

lemma is_inside_iff: "is_inside th \<longleftrightarrow> reads_inside th \<or> writes_inside th"
  by (cases th) auto

lemma lk_writer_alone:
  assumes "lk_inv s" and "writes_inside (lk_thread s t)" and "u \<noteq> t"
  shows "\<not> is_inside (lk_thread s u)"
proof -
  note c = lk_inv_counts [OF assms(1)]
  from c assms(2) have "{t. reads_inside (lk_thread s t)} = {}"
    by (auto simp: lk_counts_def)
  moreover obtain x where "{t. announces (lk_thread s t)} \<subseteq> {x}" using c by (auto simp: lk_counts_def)
  then have "writes_inside (lk_thread s v) \<Longrightarrow> v = x" for v using writes_announces by blast
  then have "\<not> writes_inside (lk_thread s u)" using assms(2,3) by metis
  ultimately show ?thesis by (auto simp: is_inside_iff)
qed

lemma lk_rlock_free:
  assumes "lk_inv s" and "sm_rlock (lk_rw s) = Some rw"
  shows "\<not> writes_inside (lk_thread s u)"
  using lk_inv_counts [OF assms(1)] assms(2) by (auto simp: lk_counts_def sm_rlock_def split: if_splits)

lemma lk_lock_free:
  assumes "lk_inv s" and "lk_thread s t = Announced c" and "sm_lock (lk_rw s) = Some rw"
  shows "\<not> is_inside (lk_thread s u)"
proof -
  note c = lk_inv_counts [OF assms(1)]
  from c assms(3) have "{t. reads_inside (lk_thread s t)} = {}"
    by (auto simp: lk_counts_def sm_lock_def split: if_splits)
  moreover obtain x where x: "{t. announces (lk_thread s t)} \<subseteq> {x}" using c by (auto simp: lk_counts_def)
  have "announces (lk_thread s t)" using assms(2) by simp
  then have "writes_inside (lk_thread s v) \<Longrightarrow> v = t" for v using x writes_announces by blast
  then have "\<not> writes_inside (lk_thread s u)" using assms(2) by (metis writes_inside.simps(4))
  ultimately show ?thesis by (auto simp: is_inside_iff)
qed

subsection \<open>The simulation\<close>

text \<open>A call has its effect when it gets the lock: the abstract map is what the goroutine inside will
  leave, and its result is known.\<close>

fun thread_sim ::
  "('k, 'v) syncmap \<Rightarrow> ('k, 'v) syncmap \<Rightarrow> ('k, 'v, 's) sm_thread \<Rightarrow> ('k, 'v, 's) at_thread \<Rightarrow> bool" where
  "thread_sim m am Idle x = (x = AtIdle)"
| "thread_sim m am (Entering c) x = (x = AtCalled c)"
| "thread_sim m am (Announced c) x = (x = AtCalled c)"
| "thread_sim m am (Inside c ss l) x =
     (\<exists>l'. run_rest ss m l = Some (am, l') \<and> x = AtDone (call_result c l'))"
| "thread_sim m am (Leaving c l) x = (x = AtDone (call_result c l))"

definition lk_sim :: "('k, 'v, 's) lk_sys \<Rightarrow> ('k, 'v, 's) at_sys \<Rightarrow> bool" where
  "lk_sim s a \<longleftrightarrow> (\<forall>t. thread_sim (lk_map s) (at_map a) (lk_thread s t) (at_thread a t)) \<and>
     ((\<forall>t. \<not> writes_inside (lk_thread s t)) \<longrightarrow> at_map a = lk_map s)"

lemma thread_sim_outside: "\<not> is_inside th \<Longrightarrow> thread_sim m am th x = thread_sim m' am' th x"
  by (cases th) auto

lemma lk_sim_thread: "lk_sim s a \<Longrightarrow> lk_thread s t = th \<Longrightarrow> thread_sim (lk_map s) (at_map a) th (at_thread a t)"
  by (auto simp: lk_sim_def)

lemma atomic_call_reads: "call_reads c \<Longrightarrow> fst (atomic_call c m) = m"
  by (cases c) auto

lemma sim_init: "lk_sim (lk_init m) (at_init m)"
  by (simp add: lk_sim_def lk_init_def at_init_def)

text \<open>A goroutine moves, and the two maps stay as they are.\<close>

lemma lk_sim_move:
  assumes "lk_sim s a" and "thread_sim (lk_map s) (at_map a) th x"
    and "writes_inside (lk_thread s t) \<Longrightarrow> at_map a = lk_map s \<or> writes_inside th"
    and "lk_map s' = lk_map s" and "lk_thread s' = (lk_thread s)(t := th)"
    and "at_map a' = at_map a" and "at_thread a' = (at_thread a)(t := x)"
  shows "lk_sim s' a'"
proof -
  have "thread_sim (lk_map s') (at_map a') (lk_thread s' u) (at_thread a' u)" for u
    using assms(1,2,4-7) by (simp add: lk_sim_def)
  moreover have "at_map a' = lk_map s'" if w: "\<forall>u. \<not> writes_inside (lk_thread s' u)"
  proof (cases "writes_inside (lk_thread s t)")
    case True
    have "\<not> writes_inside th" using w assms(5) by (metis fun_upd_same)
    with True show ?thesis using assms(3,4,6) by simp
  next
    case False
    then have "\<forall>u. \<not> writes_inside (lk_thread s u)" using w assms(5) by (metis fun_upd_other)
    then show ?thesis using assms(1,4,6) by (simp add: lk_sim_def)
  qed
  ultimately show ?thesis by (simp add: lk_sim_def)
qed

lemma sim_rlock:
  assumes "lk_inv s" and "lk_sim s a" and "lk_thread s t = Entering c" and "call_reads c"
    and "sm_rlock (lk_rw s) = Some rw"
  shows "\<exists>a'. at_step a [] a' \<and>
    lk_sim (s\<lparr>lk_rw := rw, lk_thread := (lk_thread s)(t := Inside c (call_body c) no_locals)\<rparr>) a'"
proof -
  have map: "at_map a = lk_map s" using assms(2) lk_rlock_free [OF assms(1,5)] by (simp add: lk_sim_def)
  obtain m r where r: "atomic_call c (at_map a) = (m, r)" by fastforce
  then have m: "m = lk_map s" using atomic_call_reads [OF assms(4), of "at_map a"] map by simp
  have "at_thread a t = AtCalled c" using lk_sim_thread [OF assms(2,3)] by simp
  then have "at_step a [] (a\<lparr>at_map := m, at_thread := (at_thread a)(t := AtDone r)\<rparr>)"
    using r by (rule at_effect)
  moreover have "lk_sim (s\<lparr>lk_rw := rw, lk_thread := (lk_thread s)(t := Inside c (call_body c) no_locals)\<rparr>)
      (a\<lparr>at_map := m, at_thread := (at_thread a)(t := AtDone r)\<rparr>)"
    using assms(2) run_call_body [of c "lk_map s"] r map m by (auto simp: lk_sim_def)
  ultimately show ?thesis by blast
qed

lemma sim_lock:
  assumes "lk_inv s" and "lk_sim s a" and "lk_thread s t = Announced c"
    and "sm_lock (lk_rw s) = Some rw"
  shows "\<exists>a'. at_step a [] a' \<and>
    lk_sim (s\<lparr>lk_rw := rw, lk_thread := (lk_thread s)(t := Inside c (call_body c) no_locals)\<rparr>) a'"
proof -
  note free = lk_lock_free [OF assms(1,3,4)]
  have map: "at_map a = lk_map s" using assms(2) free by (simp add: lk_sim_def is_inside_iff)
  have w: "\<not> call_reads c" using lk_inv_thread [OF assms(1,3)] by simp
  obtain m r where r: "atomic_call c (at_map a) = (m, r)" by fastforce
  have "at_thread a t = AtCalled c" using lk_sim_thread [OF assms(2,3)] by simp
  then have "at_step a [] (a\<lparr>at_map := m, at_thread := (at_thread a)(t := AtDone r)\<rparr>)"
    using r by (rule at_effect)
  moreover have "thread_sim (lk_map s) m (lk_thread s u) (at_thread a u)" for u
    using thread_sim_outside [OF free] lk_sim_thread [OF assms(2) refl] by blast
  then have "lk_sim (s\<lparr>lk_rw := rw, lk_thread := (lk_thread s)(t := Inside c (call_body c) no_locals)\<rparr>)
      (a\<lparr>at_map := m, at_thread := (at_thread a)(t := AtDone r)\<rparr>)"
    using run_call_body [of c "lk_map s"] r map w by (auto simp: lk_sim_def)
  ultimately show ?thesis by blast
qed

lemma sim_stmt:
  assumes "lk_inv s" and "lk_sim s a" and "lk_thread s t = Inside c (st # ss) l"
    and "stmt_exec st ss (lk_map s) l = Some (ss', m, l')"
  shows "lk_sim (s\<lparr>lk_map := m, lk_thread := (lk_thread s)(t := Inside c ss' l')\<rparr>) a"
proof -
  have here: "thread_sim m (at_map a) (Inside c ss' l') (at_thread a t)"
    using lk_sim_thread [OF assms(2,3)] assms(4) by simp
  show ?thesis
  proof (cases "call_reads c")
    case True
    then have "m = lk_map s"
      using lk_inv_thread [OF assms(1,3)] stmt_exec_reads [OF assms(4)] by simp
    then show ?thesis using here True assms(3)
      by - (rule lk_sim_move [OF assms(2), of "Inside c ss' l'" "at_thread a t" t], simp_all add: fun_upd_idem)
  next
    case False
    then have w: "writes_inside (lk_thread s t)" using assms(3) by simp
    have "thread_sim m (at_map a) (lk_thread s u) (at_thread a u)" if "u \<noteq> t" for u
      using thread_sim_outside [OF lk_writer_alone [OF assms(1) w that]] lk_sim_thread [OF assms(2) refl] by blast
    then show ?thesis using False here by (auto simp: lk_sim_def)
  qed
qed

lemma sim_release:
  assumes "lk_inv s" and "lk_sim s a" and "lk_thread s t = Inside c [] l"
  shows "lk_sim (s\<lparr>lk_rw := rw, lk_thread := (lk_thread s)(t := Leaving c l)\<rparr>) a"
proof -
  have "at_map a = lk_map s" "at_thread a t = AtDone (call_result c l)"
    using lk_sim_thread [OF assms(2,3)] by auto
  then show ?thesis
    by - (rule lk_sim_move [OF assms(2), of "Leaving c l" "at_thread a t" t], simp_all add: fun_upd_idem)
qed

lemma sim_step:
  assumes "lk_step s es s'" and "lk_inv s" and "lk_sim s a"
  shows "\<exists>a'. at_step a es a' \<and> lk_sim s' a'"
  using assms
proof (induction rule: lk_step.induct)
  case (lk_invoke s t c)
  let ?a = "a\<lparr>at_thread := (at_thread a)(t := AtCalled c)\<rparr>"
  have "at_thread a t = AtIdle" using lk_sim_thread [OF lk_invoke.prems(2) lk_invoke.hyps] by simp
  then have "at_step a [Invoke t c] ?a" by (rule at_invoke)
  moreover have "lk_sim (s\<lparr>lk_thread := (lk_thread s)(t := Entering c)\<rparr>) ?a"
    using lk_invoke.hyps
    by - (rule lk_sim_move [OF lk_invoke.prems(2), of "Entering c" "AtCalled c" t], simp_all)
  ultimately show ?case by blast
next
  case (lk_rlock s t c rw)
  show ?case by (rule sim_rlock [OF lk_rlock.prems lk_rlock.hyps])
next
  case (lk_announce s t c rw)
  have "lk_sim (s\<lparr>lk_rw := rw, lk_thread := (lk_thread s)(t := Announced c)\<rparr>) a"
    using lk_announce.hyps(1) lk_sim_thread [OF lk_announce.prems(2) lk_announce.hyps(1)]
    by - (rule lk_sim_move [OF lk_announce.prems(2), of "Announced c" "at_thread a t" t], simp_all add: fun_upd_idem)
  then show ?case using at_idle by blast
next
  case (lk_lock s t c rw)
  show ?case by (rule sim_lock [OF lk_lock.prems lk_lock.hyps])
next
  case (lk_stmt s t c st ss l ss' m l')
  show ?case using at_idle sim_stmt [OF lk_stmt.prems lk_stmt.hyps] by blast
next
  case (lk_release s t c l rw)
  show ?case using at_idle sim_release [OF lk_release.prems lk_release.hyps(1)] by blast
next
  case (lk_return s t c l)
  let ?a = "a\<lparr>at_thread := (at_thread a)(t := AtIdle)\<rparr>"
  have "at_thread a t = AtDone (call_result c l)"
    using lk_sim_thread [OF lk_return.prems(2) lk_return.hyps] by simp
  then have "at_step a [Return t (call_result c l)] ?a" by (rule at_return)
  moreover have "lk_sim (s\<lparr>lk_thread := (lk_thread s)(t := Idle)\<rparr>) ?a"
    using lk_return.hyps by - (rule lk_sim_move [OF lk_return.prems(2), of Idle AtIdle t], simp_all)
  ultimately show ?case by blast
qed

lemma sim_run:
  "lk_run (lk_init m) tr s \<Longrightarrow> \<exists>a. at_run (at_init m) tr a \<and> lk_sim s a"
proof (induction rule: lk_run.induct)
  case lk_start
  show ?case using at_start sim_init by blast
next
  case (lk_next tr s es s')
  then obtain a where "at_run (at_init m) tr a" "lk_sim s a" by blast
  moreover obtain a' where "at_step a es a'" "lk_sim s' a'"
    using sim_step [OF lk_next.hyps(2) lk_run_inv [OF lk_next.hyps(1)] calculation(2)] by blast
  ultimately show ?case using at_next by blast
qed


subsection \<open>No deadlock\<close>

fun thread_work :: "('k, 'v, 's) sm_thread \<Rightarrow> nat" where
  "thread_work Idle = 0"
| "thread_work (Leaving c l) = 1"
| "thread_work (Inside c ss l) = 2 + sum_list (map stmt_size ss)"
| "thread_work (Announced c) = 3 + sum_list (map stmt_size (call_body c))"
| "thread_work (Entering c) = 4 + sum_list (map stmt_size (call_body c))"

definition busy :: "('k, 'v, 's) lk_sys \<Rightarrow> nat set" where
  "busy s = {t. lk_thread s t \<noteq> Idle}"

definition lk_work :: "('k, 'v, 's) lk_sys \<Rightarrow> nat" where
  "lk_work s = (\<Sum>t\<in>busy s. thread_work (lk_thread s t))"

fun is_return :: "('k, 'v, 's) sm_event \<Rightarrow> bool" where
  "is_return (Return t r) = True"
| "is_return (Invoke t c) = False"

lemma returns_only: "list_all is_return []" "list_all is_return [Return t r]"
  by simp_all

lemma busy_upd:
  "lk_thread s' = (lk_thread s)(t := th) \<Longrightarrow> busy s' = (if th = Idle then busy s - {t} else insert t (busy s))"
  by (auto simp: busy_def)

lemma lk_step_thread:
  assumes "lk_step s es s'"
  obtains t th where "lk_thread s' = (lk_thread s)(t := th)"
    "list_all is_return es \<Longrightarrow> thread_work th < thread_work (lk_thread s t)"
  using assms
proof (induction rule: lk_step.induct)
  case (lk_stmt s t c st ss l ss' m l')
  then show ?case using stmt_exec_size [OF lk_stmt.hyps(2)] by simp
qed (auto split: if_splits)

lemma lk_step_finite: "lk_step s es s' \<Longrightarrow> finite (busy s) \<Longrightarrow> finite (busy s')"
  by (erule lk_step_thread) (simp add: busy_upd)

lemma lk_step_work:
  assumes "lk_step s es s'" and "finite (busy s)" and "list_all is_return es"
  shows "lk_work s' < lk_work s"
proof -
  obtain t th where t: "lk_thread s' = (lk_thread s)(t := th)"
    and less: "thread_work th < thread_work (lk_thread s t)"
    using lk_step_thread [OF assms(1)] assms(3) by metis
  show ?thesis
    unfolding lk_work_def busy_def t
    by (rule work_decreases) (use assms(2) less in \<open>simp_all add: busy_def\<close>)
qed

lemma enabled_inside:
  assumes "lk_inv s" and "lk_sim s a" and "lk_thread s t = Inside c ss l"
  shows "\<exists>es s'. lk_step s es s' \<and> list_all is_return es"
proof (cases ss)
  case Nil
  note counts = lk_inv_counts [OF assms(1)]
  have "(if call_reads c then sm_runlock (lk_rw s) else sm_unlock (lk_rw s)) \<noteq> None"
  proof (cases "call_reads c")
    case True
    then have "t \<in> {t. reads_inside (lk_thread s t)}" using assms(3) by simp
    moreover have "finite {t. reads_inside (lk_thread s t)}" using counts by (simp add: lk_counts_def)
    ultimately have "card {t. reads_inside (lk_thread s t)} \<noteq> 0" by (metis card_0_eq empty_iff)
    moreover have "rw_readers (lk_rw s) = card {t. reads_inside (lk_thread s t)}"
      using counts unfolding lk_counts_def by blast
    ultimately have "rw_readers (lk_rw s) \<noteq> 0" by metis
    then show ?thesis using True by (simp add: sm_runlock_def)
  next
    case False
    then have "writes_inside (lk_thread s t)" using assms(3) by simp
    then show ?thesis using False counts by (auto simp: lk_counts_def sm_unlock_def)
  qed
  then obtain rw where
    "(if call_reads c then sm_runlock (lk_rw s) else sm_unlock (lk_rw s)) = Some rw" by blast
  from lk_release [OF assms(3) [unfolded Nil] this] show ?thesis using returns_only by blast
next
  case (Cons st ss')
  have "run_rest (st # ss') (lk_map s) l \<noteq> None" using lk_sim_thread [OF assms(2,3)] Cons by auto
  then obtain ss'' m l' where "stmt_exec st ss' (lk_map s) l = Some (ss'', m, l')"
    by (auto split: option.splits)
  from lk_stmt [OF assms(3) [unfolded Cons] this] show ?thesis using returns_only by blast
qed

lemma enabled_outside:
  assumes "lk_inv s" and "\<And>u. \<not> is_inside (lk_thread s u)" and "lk_thread s t \<noteq> Idle"
  shows "\<exists>es s'. lk_step s es s' \<and> list_all is_return es"
proof -
  note counts = lk_inv_counts [OF assms(1)]
  have none: "rw_readers (lk_rw s) = 0" using counts assms(2) by (simp add: lk_counts_def is_inside_iff)
  show ?thesis
  proof (cases "\<exists>u c. lk_thread s u = Announced c")
    case True
    then obtain u c where "lk_thread s u = Announced c" by blast
    moreover obtain rw where "sm_lock (lk_rw s) = Some rw" using none by (simp add: sm_lock_def)
    ultimately have "lk_step s [] (s\<lparr>lk_rw := rw, lk_thread := (lk_thread s)(u := Inside c (call_body c) no_locals)\<rparr>)"
      by (rule lk_lock)
    then show ?thesis using returns_only by blast
  next
    case False
    have "\<not> announces (lk_thread s u)" for u
      using False assms(2) [of u] by (cases "lk_thread s u") auto
    then have free: "\<not> rw_announced (lk_rw s)" using counts by (simp add: lk_counts_def)
    show ?thesis
    proof (cases "lk_thread s t")
      case (Entering c)
      obtain rw rw' where "sm_rlock (lk_rw s) = Some rw" "sm_lock_announce (lk_rw s) = Some rw'"
        using free by (simp add: sm_rlock_def sm_lock_announce_def)
      then show ?thesis using lk_rlock [OF Entering] lk_announce [OF Entering] returns_only by blast
    next
      case (Leaving c l)
      then show ?thesis using lk_return [OF Leaving] returns_only by blast
    qed (use assms(2) [of t] assms(3) False in auto)
  qed
qed

lemma lk_run_trans: "lk_run s tr' s' \<Longrightarrow> lk_run s0 tr s \<Longrightarrow> lk_run s0 (tr @ tr') s'"
  by (induction rule: lk_run.induct) (auto simp flip: append_assoc intro: lk_next)

lemma lk_run_finite: "lk_run (lk_init m) tr s \<Longrightarrow> finite (busy s)"
  by (induction rule: lk_run.induct) (auto simp: lk_init_def busy_def intro: lk_step_finite [unfolded busy_def])

lemma all_return:
  assumes "lk_run (lk_init m) tr s"
  shows "\<exists>tr' s'. lk_run s tr' s' \<and> list_all is_return tr' \<and> (\<forall>t. lk_thread s' t = Idle)"
  using assms
proof (induction "lk_work s" arbitrary: s tr rule: less_induct)
  case less
  show ?case
  proof (cases "\<forall>t. lk_thread s t = Idle")
    case True
    then show ?thesis using lk_start returns_only by blast
  next
    case False
    then obtain t where t: "lk_thread s t \<noteq> Idle" by blast
    have inv: "lk_inv s" by (rule lk_run_inv [OF less.prems])
    obtain a where sim: "lk_sim s a" using sim_run [OF less.prems] by blast
    obtain es s1 where s1: "lk_step s es s1" "list_all is_return es"
    proof (cases "\<exists>u. is_inside (lk_thread s u)")
      case True
      then obtain u c ss l where "lk_thread s u = Inside c ss l" by (metis is_inside.elims(2))
      then show ?thesis using enabled_inside [OF inv sim] that by blast
    next
      case False
      then show ?thesis using enabled_outside [OF inv _ t] that by blast
    qed
    have "lk_work s1 < lk_work s" by (rule lk_step_work [OF s1(1) lk_run_finite [OF less.prems] s1(2)])
    from less.hyps [OF this Syncmap_Locks.lk_next [OF less.prems s1(1)]]
    obtain tr' s' where r: "lk_run s1 tr' s'" "list_all is_return tr'" "\<forall>t. lk_thread s' t = Idle" by blast
    have "lk_run s ([] @ es) s1" by (rule Syncmap_Locks.lk_next [OF lk_start s1(1)])
    from lk_run_trans [OF r(1) this] r(2,3) s1(2) show ?thesis by (metis append_Nil list_all_append)
  qed
qed


subsection \<open>The properties\<close>

text \<open>
  C5. The methods of the map are linearizable: whatever goroutines call them and however their statements
  are interleaved, the calls and results that are observed are those of an execution in which every
  method is a single step on the map, taken between its call and its return.
\<close>

theorem syncmap_linearizable:
  assumes "lk_run (lk_init m) tr s"
  shows "\<exists>a. at_run (at_init m) tr a"
  using sim_run [OF assms] by blast

text \<open>Two goroutines draw the same identifier; the second one comes while the first is between two
  statements of its method.\<close>

definition demo_schedule :: "(nat \<times> (nat, nat, nat) sm_call option) list" where
  "demo_schedule = [(0, Some (CLoadOrStore 5 10)), (0, None), (0, None), (0, None),
     (1, Some (CLoadOrStore 5 11)), (0, None), (0, None), (0, None), (0, None),
     (1, None), (0, None), (1, None), (1, None), (1, None), (1, None), (1, None)]"

definition demo_trace :: "(nat, nat, nat) sm_event list" where
  "demo_trace = [Invoke 0 (CLoadOrStore 5 10), Invoke 1 (CLoadOrStore 5 11),
     Return 0 (RLoadOrStore 10 False), Return 1 (RLoadOrStore 10 True)]"

lemma demo_scheduled: "map_option fst (lk_schedule (lk_init sm_zero) demo_schedule) = Some demo_trace"
  by (simp add: demo_schedule_def demo_trace_def lk_exec_def lk_init_def rw_zero_def rw_defs sm_zero_def
      no_locals_def)

lemma demo_run: "\<exists>s. lk_run (lk_init sm_zero) demo_trace s"
  using demo_scheduled lk_schedule_run [OF _ lk_start] by fastforce

theorem syncmap_linearizable_witness: "\<exists>a. at_run (at_init sm_zero) demo_trace a"
proof -
  obtain s where "lk_run (lk_init sm_zero) demo_trace s" using demo_run by blast
  then show ?thesis by (rule syncmap_linearizable)
qed

text \<open>
  C25. There is no deadlock and no panic in the map: from every state that can be reached, whatever is
  waiting or half-way, there is a continuation without a new call in which every call returns.
\<close>

theorem syncmap_calls_return:
  assumes "lk_run (lk_init m) tr s"
  shows "\<exists>tr' s'. lk_run s tr' s' \<and> list_all is_return tr' \<and> (\<forall>t. lk_thread s' t = Idle)"
  by (rule all_return [OF assms])

definition demo_half :: "(nat, nat, nat) lk_sys" where
  "demo_half = snd (the (lk_schedule (lk_init sm_zero) (take 10 demo_schedule)))"

lemma demo_half_run: "\<exists>tr. lk_run (lk_init sm_zero) tr demo_half"
proof -
  have "\<not> Option.is_none (lk_schedule (lk_init sm_zero) (take 10 demo_schedule))" by code_simp
  then obtain tr where "lk_schedule (lk_init sm_zero) (take 10 demo_schedule) = Some (tr, demo_half)"
    unfolding demo_half_def by (metis option.collapse prod.collapse Option.is_none_def)
  from lk_schedule_run [OF this lk_start] show ?thesis by auto
qed

theorem syncmap_calls_return_witness:
  "\<exists>tr' s'. lk_run demo_half tr' s' \<and> list_all is_return tr' \<and> (\<forall>t. lk_thread s' t = Idle)"
proof -
  obtain tr where "lk_run (lk_init sm_zero) tr demo_half" using demo_half_run by blast
  then show ?thesis by (rule syncmap_calls_return)
qed

text \<open>
  C32. While one goroutine is inside \<open>Range\<close>, in its callback, and another waits for the lock, nobody
  else gets into the map, not even to read: no step but the return of the callback lets anyone in.
\<close>

theorem slow_range_blocks:
  assumes "lk_run (lk_init m) tr s" and "lk_thread s t = Inside (CRange ks f st) ss l"
    and "lk_thread s u = Announced c" and "lk_step s es s'"
    and "\<not> is_inside (lk_thread s v)"
  shows "lk_thread s' u = Announced c \<and> \<not> is_inside (lk_thread s' v)"
proof -
  note counts = lk_inv_counts [OF lk_run_inv [OF assms(1)]]
  have "t \<in> {t. reads_inside (lk_thread s t)}" using assms(2) by simp
  moreover have "finite {t. reads_inside (lk_thread s t)}" using counts by (simp add: lk_counts_def)
  ultimately have "card {t. reads_inside (lk_thread s t)} \<noteq> 0" by (metis card_0_eq empty_iff)
  moreover have "rw_readers (lk_rw s) = card {t. reads_inside (lk_thread s t)}"
    using counts unfolding lk_counts_def by blast
  ultimately have "sm_lock (lk_rw s) = None" by (simp add: sm_lock_def)
  moreover have "announces (lk_thread s u)" using assms(3) by simp
  then have "rw_announced (lk_rw s)" using counts by (auto simp: lk_counts_def)
  then have "sm_rlock (lk_rw s) = None" by (simp add: sm_rlock_def)
  ultimately have "sm_lock (lk_rw s) = None" "sm_rlock (lk_rw s) = None" by blast+
  with assms(4) show ?thesis using assms(3,5)
    by cases (auto split: if_splits)
qed

text \<open>Goroutine 0 lists the map, goroutine 1 wants to store, goroutine 2 wants to look a key up.\<close>

definition slow_schedule :: "(nat \<times> (nat, nat, nat) sm_call option) list" where
  "slow_schedule = [(0, Some (CRange [] (\<lambda>k v n. (Suc n, True)) 0)), (0, None), (1, Some (CStore 5 10)),
     (1, None), (2, Some (CLoad 5))]"

definition slow_state :: "(nat, nat, nat) lk_sys" where
  "slow_state = snd (the (lk_schedule (lk_init sm_zero) slow_schedule))"

lemmas slow_eval = slow_schedule_def lk_exec_def lk_init_def rw_zero_def rw_defs sm_zero_def no_locals_def

lemma slow_state_eq:
  "lk_schedule (lk_init sm_zero) slow_schedule =
     Some (concat [[Invoke 0 (CRange [] (\<lambda>k v n. (Suc n, True)) 0)], [Invoke 1 (CStore 5 10)], [Invoke 2 (CLoad 5)]],
       slow_state)"
  unfolding slow_state_def by (simp add: slow_eval)

lemma slow_threads:
  "lk_thread slow_state 0 = Inside (CRange [] (\<lambda>k v n. (Suc n, True)) 0) [SRange [] (\<lambda>k v n. (Suc n, True)) 0] no_locals"
  "lk_thread slow_state 1 = Announced (CStore 5 10)"
  "lk_thread slow_state 2 = Entering (CLoad 5)"
  unfolding slow_state_def by (simp_all add: slow_eval)

definition slow_next :: "(nat, nat, nat) lk_sys" where
  "slow_next = snd (the (lk_exec slow_state 0 None))"

lemma slow_next_step: "lk_step slow_state [] slow_next"
  by (rule lk_exec_step [where t = 0 and call = None]) (simp add: slow_next_def lk_exec_def slow_threads)

theorem slow_range_blocks_witness:
  "lk_thread slow_next 1 = Announced (CStore 5 10) \<and> \<not> is_inside (lk_thread slow_next 2)"
  by (rule slow_range_blocks [OF lk_schedule_run [OF slow_state_eq lk_start] slow_threads(1,2) slow_next_step])
    (simp add: slow_threads)

end
