(* ===== verification/Interval_Props.thy ===== *)
theory Interval_Props
  imports Formatter
begin

section \<open>The printed form of an interval\<close>

text \<open>
  The properties of \<open>IntervalToStr\<close> of \<open>internal/formatter/formatter.go\<close>: the parts it prints add up
  to the interval, in strictly descending units, without zero parts and within the bounds of each
  unit; and a parser that reads the text back shows that no two intervals print alike.
\<close>

subsection \<open>What a unit is worth\<close>

fun in_months :: "iunit \<Rightarrow> int" where
  "in_months Year = 12" | "in_months Month = 1" | "in_months u = 0"

fun in_days :: "iunit \<Rightarrow> int" where
  "in_days Day = 1" | "in_days u = 0"

fun in_micros :: "iunit \<Rightarrow> int" where
  "in_micros Hour = 3600000000" | "in_micros Minute = 60000000" | "in_micros Second = 1000000"
| "in_micros Millisecond = 1000" | "in_micros Microsecond = 1" | "in_micros u = 0"

text \<open>How many of a unit there can be before the next larger one is due; \<open>None\<close> for no bound.\<close>

fun unit_limit :: "iunit \<Rightarrow> int option" where
  "unit_limit Month = Some 12" | "unit_limit Minute = Some 60" | "unit_limit Second = Some 60"
| "unit_limit Millisecond = Some 1000" | "unit_limit Microsecond = Some 1000" | "unit_limit u = None"

definition parts_sum :: "(iunit \<Rightarrow> int) \<Rightarrow> (int \<times> iunit) list \<Rightarrow> int" where
  "parts_sum w ps = sum_list (map (\<lambda>(n, u). n * w u) ps)"

lemma parts_sum_append [simp]: "parts_sum w (ps @ qs) = parts_sum w ps + parts_sum w qs"
  by (simp add: parts_sum_def)

lemma parts_sum_if_nonzero [simp]: "parts_sum w (int_if_nonzero n u) = n * w u"
  by (simp add: parts_sum_def int_if_nonzero_def)

lemma sdiv_smod: "(n sdiv c) * c + n smod c = n" for n c :: int
  by (rule sdiv_mult_smod_eq)

lemma month_sum: "parts_sum in_months (int_month_parts n) = n"
  using sdiv_smod [of n 12] by (simp add: int_month_parts_def)

lemma micro_sum: "parts_sum in_micros (int_micro_parts n) = n"
proof -
  define r1 where "r1 = n smod 3600000000"
  define r2 where "r2 = r1 smod 60000000"
  define r3 where "r3 = r2 smod 1000000"
  note eqs = sdiv_smod [of n 3600000000, folded r1_def] sdiv_smod [of r1 60000000, folded r2_def]
    sdiv_smod [of r2 1000000, folded r3_def] sdiv_smod [of r3 1000]
  have "parts_sum in_micros (int_micro_parts n) =
      n sdiv 3600000000 * 3600000000 + r1 sdiv 60000000 * 60000000 + r2 sdiv 1000000 * 1000000 +
      r3 sdiv 1000 * 1000 + r3 smod 1000"
    by (simp add: int_micro_parts_def Let_def flip: r1_def r2_def r3_def)
  with eqs show ?thesis by linarith
qed

lemma parts_sum_other:
  "parts_sum in_days (int_month_parts n) = 0" "parts_sum in_micros (int_month_parts n) = 0"
  "parts_sum in_months (int_micro_parts n) = 0" "parts_sum in_days (int_micro_parts n) = 0"
  by (simp_all add: int_month_parts_def int_micro_parts_def Let_def)

lemma interval_parts_sums:
  "parts_sum in_months (interval_parts iv) = sint (iv_Months iv)"
  "parts_sum in_days (interval_parts iv) = sint (iv_Days iv)"
  "parts_sum in_micros (interval_parts iv) = sint (iv_Micros iv)"
  by (simp_all add: interval_parts_def month_parts_int micro_parts_int if_nonzero_int month_sum
      micro_sum parts_sum_other)

subsection \<open>Bounds and order\<close>

definition part_ok :: "int \<times> iunit \<Rightarrow> bool" where
  "part_ok p \<longleftrightarrow> fst p \<noteq> 0 \<and> (case unit_limit (snd p) of None \<Rightarrow> True | Some l \<Rightarrow> \<bar>fst p\<bar> < l)"

lemma sdiv_abs_lt: "\<bar>n\<bar> < c * l \<Longrightarrow> 0 < c \<Longrightarrow> \<bar>n sdiv c\<bar> < l" for n c l :: int
proof -
  assume n: "\<bar>n\<bar> < c * l" and c: "0 < c"
  have "\<bar>n\<bar> div c < l" using c n by (rule int_div_lt)
  moreover have "\<bar>n sdiv c\<bar> = \<bar>n\<bar> div c"
    using c by (cases "0 \<le> n") (simp_all add: sdiv_pos sdiv_neg pos_imp_zdiv_nonneg_iff)
  ultimately show ?thesis by simp
qed

lemma all_if_nonzero:
  "list_all P (int_if_nonzero n u) \<longleftrightarrow> n = 0 \<or> P (n, u)"
  by (simp add: int_if_nonzero_def)

lemma month_parts_ok: "list_all part_ok (int_month_parts n)"
  using smod_abs_lt [of 12 n] by (simp add: int_month_parts_def all_if_nonzero part_ok_def)

lemma micro_parts_ok: "list_all part_ok (int_micro_parts n)"
proof -
  define r1 where "r1 = n smod 3600000000"
  define r2 where "r2 = r1 smod 60000000"
  define r3 where "r3 = r2 smod 1000000"
  have "\<bar>r1\<bar> < 60000000 * 60" "\<bar>r2\<bar> < 1000000 * 60" "\<bar>r3\<bar> < 1000 * 1000"
    unfolding r1_def r2_def r3_def
    using smod_abs_lt [of 3600000000 n] smod_abs_lt [of 60000000] smod_abs_lt [of 1000000] by simp_all
  then have "\<bar>r1 sdiv 60000000\<bar> < 60" "\<bar>r2 sdiv 1000000\<bar> < 60" "\<bar>r3 sdiv 1000\<bar> < 1000"
    "\<bar>r3 smod 1000\<bar> < 1000"
    using sdiv_abs_lt smod_abs_lt [of 1000 r3] by simp_all
  then show ?thesis
    by (simp add: int_micro_parts_def Let_def all_if_nonzero part_ok_def flip: r1_def r2_def r3_def)
qed

definition descending :: "(int \<times> iunit) list \<Rightarrow> bool" where
  "descending ps \<longleftrightarrow> sorted_wrt (\<lambda>p q. snd q < snd p) ps"

lemma set_if_nonzero: "set (int_if_nonzero n u) = (if n = 0 then {} else {(n, u)})"
  by (simp add: int_if_nonzero_def)

lemma sorted_if_nonzero [simp]: "sorted_wrt P (int_if_nonzero n u)"
  by (simp add: int_if_nonzero_def)

lemma interval_parts_descending: "descending (interval_parts iv)"
  by (auto simp: descending_def interval_parts_def month_parts_int micro_parts_int if_nonzero_int
      int_month_parts_def int_micro_parts_def Let_def sorted_wrt_append set_if_nonzero less_iunit_def
      split: if_splits)

lemma interval_parts_ok: "list_all part_ok (interval_parts iv)"
  by (simp add: interval_parts_def month_parts_int micro_parts_int if_nonzero_int month_parts_ok
      micro_parts_ok all_if_nonzero part_ok_def)

text \<open>
  Intervals are printed as what they are. The parts of \<open>IntervalToStr\<close> add up to the months, the
  days and the microseconds of the interval (no step wraps, at the least and greatest machine
  integers neither), they come in strictly descending units, none is zero, and each stays below the
  next larger unit.
\<close>

lemma interval_parts_spec:
  "parts_sum in_months (interval_parts iv) = sint (iv_Months iv) \<and>
   parts_sum in_days (interval_parts iv) = sint (iv_Days iv) \<and>
   parts_sum in_micros (interval_parts iv) = sint (iv_Micros iv) \<and>
   descending (interval_parts iv) \<and> list_all part_ok (interval_parts iv)"
  using interval_parts_sums interval_parts_descending interval_parts_ok by simp

subsection \<open>Reading an interval back\<close>

definition num_char :: "char \<Rightarrow> bool" where
  "num_char c \<longleftrightarrow> c \<in> set ''-0123456789''"

definition int_num :: "gostr \<Rightarrow> int option" where
  "int_num s = (case s of
     [] \<Rightarrow> None
   | c # cs \<Rightarrow> if c = CHR ''-'' then map_option (\<lambda>n. - int n) (dec_num 0 cs)
               else map_option int (dec_num 0 s))"

definition all_units :: "iunit list" where
  "all_units = [Year, Month, Day, Hour, Minute, Second, Millisecond, Microsecond]"

definition parse_part :: "gostr \<Rightarrow> (int \<times> iunit) option" where
  "parse_part s =
     (case int_num (takeWhile num_char s) of
        None \<Rightarrow> None
      | Some n \<Rightarrow> map_option (Pair n) (find (\<lambda>u. unit_str u = dropWhile num_char s) all_units))"

definition parse_interval :: "gostr \<Rightarrow> interval option" where
  "parse_interval s =
     (case (if s = ''0'' then Some [] else those (map parse_part (split_chr CHR '' '' s))) of
        None \<Rightarrow> None
      | Some ps \<Rightarrow> Some \<lparr>iv_Days = word_of_int (parts_sum in_days ps),
          iv_Months = word_of_int (parts_sum in_months ps),
          iv_Micros = word_of_int (parts_sum in_micros ps)\<rparr>)"

lemma nat_dec_num: "c \<in> set (nat_dec n) \<Longrightarrow> num_char c \<and> c \<noteq> CHR ''-''"
proof (induction n rule: nat_dec.induct)
  case (1 n)
  have d: "num_char (digit_char d) \<and> digit_char d \<noteq> CHR ''-''" if "d < 10" for d
  proof -
    have "\<forall>d \<in> set [0..<10]. num_char (digit_char d) \<and> digit_char d \<noteq> CHR ''-''" by code_simp
    with that show ?thesis by simp
  qed
  from "1" show ?case by (auto simp: nat_dec.simps [of n] d split: if_splits)
qed

lemma nat_dec_not_Nil [simp]: "nat_dec n \<noteq> []"
  by (simp add: nat_dec.simps [of n])

lemma int_dec_num: "c \<in> set (int_dec i) \<Longrightarrow> num_char c"
proof -
  have "num_char CHR ''-''" by (simp add: num_char_def)
  then show "c \<in> set (int_dec i) \<Longrightarrow> ?thesis"
    by (auto simp: int_dec_def dest: nat_dec_num split: if_splits)
qed

lemma int_num_int_dec: "int_num (int_dec i) = Some i"
proof (cases "i < 0")
  case True
  then show ?thesis by (simp add: int_num_def int_dec_def dec_num_nat_dec)
next
  case False
  obtain c cs where c: "nat_dec (nat i) = c # cs" by (cases "nat_dec (nat i)") auto
  then have "c \<noteq> CHR ''-''" using nat_dec_num [of c "nat i"] by simp
  with False c show ?thesis
    using dec_num_nat_dec [of "nat i"] by (simp add: int_num_def int_dec_def)
qed

lemma unit_str_head: "\<exists>c cs. unit_str u = c # cs \<and> \<not> num_char c"
  by (cases u) (simp_all add: num_char_def mu_sign_def)

lemma parse_part_str: "parse_part (part_str p) = Some p"
proof -
  obtain n u where p: "p = (n, u)" by fastforce
  obtain c cs where u: "unit_str u = c # cs" "\<not> num_char c" using unit_str_head by blast
  then have "takeWhile num_char (part_str p) = int_dec n" "dropWhile num_char (part_str p) = unit_str u"
    using int_dec_num by (simp_all add: p part_str_def takeWhile_append2 dropWhile_append2)
  moreover have "find (\<lambda>v. unit_str v = unit_str u) all_units = Some u"
    by (cases u) (simp_all add: all_units_def mu_sign_def)
  ultimately show ?thesis by (simp add: parse_part_def int_num_int_dec p)
qed

lemma part_str_no_space: "CHR '' '' \<notin> set (part_str p)"
proof -
  have "CHR '' '' \<notin> set (unit_str u)" for u by (cases u) (simp_all add: mu_sign_def)
  moreover have "CHR '' '' \<notin> set (int_dec n)" for n
    using int_dec_num [of "CHR '' ''"] by (auto simp: num_char_def)
  ultimately show ?thesis by (simp add: part_str_def)
qed

lemma those_parts: "those (map parse_part (map part_str ps)) = Some ps"
  by (induction ps) (simp_all add: parse_part_str)

lemma parts_not_zero_str:
  assumes "ps \<noteq> []"
  shows "join_with '' '' (map part_str ps) \<noteq> ''0''"
proof
  assume "join_with '' '' (map part_str ps) = ''0''"
  moreover have "split_chr CHR '' '' (join_with '' '' (map part_str ps)) = map part_str ps"
    using assms part_str_no_space by (intro split_chr_join) auto
  ultimately have "those (map parse_part (split_chr CHR '' '' ''0'')) = Some ps"
    using those_parts by metis
  moreover have "those (map parse_part (split_chr CHR '' '' ''0'')) = None" by code_simp
  ultimately show False by simp
qed

text \<open>
  C23. No two intervals print alike. The parser that splits the text at spaces and reads each part as
  a number and a unit gives back the interval that \<open>IntervalToStr\<close> printed, for every value of its
  three machine integers.
\<close>

theorem IntervalToStr_parse:
  "map_option parse_interval (IntervalToStr sp (GInterval iv)) = Some (Some iv)"
proof -
  let ?ps = "interval_parts iv"
  have iv: "\<lparr>iv_Days = word_of_int (parts_sum in_days ?ps), iv_Months = word_of_int (parts_sum in_months ?ps),
      iv_Micros = word_of_int (parts_sum in_micros ?ps)\<rparr> = iv"
    by (simp add: interval_parts_sums)
  show ?thesis
  proof (cases "?ps = []")
    case True
    then show ?thesis using iv by (simp add: IntervalToStr_def parse_interval_def)
  next
    case False
    then have "split_chr CHR '' '' (join_with '' '' (map part_str ?ps)) = map part_str ?ps"
      using part_str_no_space by (intro split_chr_join) auto
    then have "parse_interval (join_with '' '' (map part_str ?ps)) = Some iv"
      using parts_not_zero_str [OF False] those_parts [of ?ps] iv
      by (simp add: parse_interval_def del: map_map)
    then show ?thesis using False by (simp add: IntervalToStr_def Let_def)
  qed
qed

end
