(* ===== verification/Authn_Props.thy ===== *)
theory Authn_Props
  imports Authn
begin

section \<open>What authentication guarantees\<close>

text \<open>
  The properties of \<open>internal/authn/authn.go\<close>: which credential files are accepted, that a request is
  authenticated exactly by a header value of the file, and when two credentials are told apart.
\<close>

text \<open>
  Loading. A decoded credential file is accepted exactly if its identifiers are distinct and every
  entry is valid, and then the reverse index maps each non-empty header value to the last entry that
  has it, and nothing else.
\<close>

lemma readAuthenticator_spec:
  "readAuthenticator (Inr es) = Inr a \<longleftrightarrow>
     distinct (map entry_ID es) \<and> list_all (\<lambda>e. validate e = None) es \<and>
     a = \<lparr>a_entries = es, a_index = header_index es\<rparr>"
  unfolding readAuthenticator_Inr_iff by (simp add: list_all_iff)

text \<open>The index finds the last entry with a header value.\<close>

lemma header_index_last:
  "header_index es h = Some e \<longleftrightarrow>
     h \<noteq> [] \<and> (\<exists>before after. es = before @ e # after \<and> headerValue e = h \<and> h \<notin> headerValue ` set after)"
proof (induction es arbitrary: e rule: rev_induct)
  case Nil
  then show ?case by (simp add: header_index_def)
next
  case (snoc x xs)
  show ?case
  proof (cases "headerValue x = h \<and> h \<noteq> []")
    case True
    then have "header_index (xs @ [x]) h = Some x" by (simp add: header_index_append)
    moreover have "(\<exists>before after. xs @ [x] = before @ e # after \<and> headerValue e = h \<and> h \<notin> headerValue ` set after) \<longleftrightarrow> x = e"
    proof
      assume "\<exists>before after. xs @ [x] = before @ e # after \<and> headerValue e = h \<and> h \<notin> headerValue ` set after"
      then obtain before after where *: "xs @ [x] = before @ e # after" "h \<notin> headerValue ` set after" by blast
      then show "x = e" using True by (cases after rule: rev_cases) auto
    next
      assume "x = e"
      then have "xs @ [x] = xs @ e # [] \<and> headerValue e = h \<and> h \<notin> headerValue ` set []" using True by simp
      then show "\<exists>before after. xs @ [x] = before @ e # after \<and> headerValue e = h \<and> h \<notin> headerValue ` set after"
        by blast
    qed
    ultimately show ?thesis using True by simp
  next
    case False
    then have "header_index (xs @ [x]) h = header_index xs h" by (auto simp: header_index_append)
    moreover have "(\<exists>before after. xs @ [x] = before @ e # after \<and> headerValue e = h \<and> h \<notin> headerValue ` set after) \<longleftrightarrow>
        (\<exists>before after. xs = before @ e # after \<and> headerValue e = h \<and> h \<notin> headerValue ` set after)" if "h \<noteq> []"
    proof
      assume "\<exists>before after. xs @ [x] = before @ e # after \<and> headerValue e = h \<and> h \<notin> headerValue ` set after"
      then obtain before after where *: "xs @ [x] = before @ e # after" "headerValue e = h" "h \<notin> headerValue ` set after" by blast
      with False that obtain after' where "after = after' @ [x]" by (cases after rule: rev_cases) auto
      with * show "\<exists>before after. xs = before @ e # after \<and> headerValue e = h \<and> h \<notin> headerValue ` set after" by auto
    next
      assume "\<exists>before after. xs = before @ e # after \<and> headerValue e = h \<and> h \<notin> headerValue ` set after"
      then obtain before after where "xs = before @ e # after" "headerValue e = h" "h \<notin> headerValue ` set after" by blast
      moreover from this have "xs @ [x] = before @ e # (after @ [x])" "h \<notin> headerValue ` set (after @ [x])"
        using False that by auto
      ultimately show "\<exists>before after. xs @ [x] = before @ e # after \<and> headerValue e = h \<and> h \<notin> headerValue ` set after"
        by blast
    qed
    ultimately show ?thesis using snoc.IH by auto
  qed
qed

text \<open>
  C22. Authentication is by a header value of the file. With a loaded file a request is authenticated as
  the entry \<open>e\<close> exactly if its \<open>Authorization\<close> header is not empty, is the header value of \<open>e\<close>, and is not
  that of an entry after \<open>e\<close> in the file; so it is not authenticated at all exactly if the header is
  empty or the value of no entry. An entry it is bound to is of type basic or bearer.
\<close>

theorem authentication_sound:
  assumes "readAuthenticator (Inr es) = Inr a"
  shows "(extractEntry (Some a) r = Some e \<longleftrightarrow>
      get_first (rq_header r) ''Authorization'' \<noteq> [] \<and>
      (\<exists>before after. es = before @ e # after \<and> headerValue e = get_first (rq_header r) ''Authorization'' \<and>
         get_first (rq_header r) ''Authorization'' \<notin> headerValue ` set after)) \<and>
    (extractEntry (Some a) r = None \<longleftrightarrow>
      get_first (rq_header r) ''Authorization'' = [] \<or>
      get_first (rq_header r) ''Authorization'' \<notin> headerValue ` set es) \<and>
    (extractEntry (Some a) r = Some e \<longrightarrow> entry_Type e = type_Basic \<or> entry_Type e = type_Bearer)"
proof -
  let ?h = "get_first (rq_header r) ''Authorization''"
  have ix: "a_index a = header_index es" using assms readAuthenticator_Inr_iff by auto
  have ex: "extractEntry (Some a) r = header_index es ?h" by (simp add: extractEntry_def ix)
  have "header_index es ?h = None \<longleftrightarrow> ?h = [] \<or> ?h \<notin> headerValue ` set es"
  proof
    assume "header_index es ?h = None"
    then show "?h = [] \<or> ?h \<notin> headerValue ` set es" using header_index_defined by fastforce
  next
    assume "?h = [] \<or> ?h \<notin> headerValue ` set es"
    then show "header_index es ?h = None"
      using header_index_Some [of es ?h] by (metis image_eqI option.exhaust)
  qed
  moreover have "entry_Type e = type_Basic \<or> entry_Type e = type_Bearer" if "header_index es ?h = Some e"
  proof -
    have "headerValue e \<noteq> []" using header_index_Some [OF that] by simp
    then show ?thesis
      unfolding headerValue_def by (cases "entry_Type e = type_Basic"; cases "entry_Type e = type_Bearer") simp_all
  qed
  ultimately show ?thesis unfolding ex using header_index_last [of es ?h e] by blast
qed

definition basic_entry :: "gostr \<Rightarrow> gostr \<Rightarrow> gostr \<Rightarrow> entry" where
  "basic_entry i name pass = \<lparr>entry_ID = i, entry_Type = type_Basic,
     entry_User = Some \<lparr>user_Name = name, user_Password = pass\<rparr>, entry_Token = None, entry_InitQuery = []\<rparr>"

definition auth_request :: "gostr \<Rightarrow> entry request" where
  "auth_request h = \<lparr>rq_method = ''GET'', rq_path = ''/'', rq_raw_query = [], rq_uri = ''/'', rq_query = [],
     rq_proto = ''HTTP/1.1'', rq_remote = ''127.0.0.1:9'',
     rq_header = (if h = [] then [] else [(''Authorization'', h)]), rq_body = [], rq_body_err = None,
     rq_ctx = background\<rparr>"

lemma validate_basic_entry: "name \<noteq> [] \<Longrightarrow> pass \<noteq> [] \<Longrightarrow> validate (basic_entry i name pass) = None"
  by (simp add: validate_def basic_entry_def)

lemma headerValue_basic_entry:
  "headerValue (basic_entry i name pass) = ''Basic '' @ base64 (name @ '':'' @ pass)"
  by (simp add: headerValue_def basic_entry_def)

text \<open>Two entries with one header value: the later one is found.\<close>

theorem authentication_sound_witness:
  "\<exists>a. readAuthenticator (Inr [basic_entry ''u1'' ''ann'' ''p:w'', basic_entry ''u2'' ''ann:p'' ''w'']) = Inr a \<and>
     extractEntry (Some a) (auth_request []) = None \<and>
     extractEntry (Some a) (auth_request (headerValue (basic_entry ''u1'' ''ann'' ''p:w''))) =
       Some (basic_entry ''u2'' ''ann:p'' ''w'')"
proof -
  let ?e1 = "basic_entry ''u1'' ''ann'' ''p:w''" and ?e2 = "basic_entry ''u2'' ''ann:p'' ''w''"
  let ?es = "[?e1, ?e2]" and ?r = "auth_request (headerValue (basic_entry ''u1'' ''ann'' ''p:w''))"
  have ok: "readAuthenticator (Inr ?es) = Inr \<lparr>a_entries = ?es, a_index = header_index ?es\<rparr>"
    unfolding readAuthenticator_Inr_iff by (simp add: validate_basic_entry) (simp add: basic_entry_def)
  have h: "get_first (rq_header ?r) ''Authorization'' = headerValue ?e2" "headerValue ?e2 \<noteq> []"
    "get_first (rq_header (auth_request [])) ''Authorization'' = []"
    by (simp_all add: auth_request_def headerValue_basic_entry get_first_def)
  have "?es = [?e1] @ ?e2 # []" "headerValue ?e2 \<notin> headerValue ` set []" by simp_all
  then have "extractEntry (Some \<lparr>a_entries = ?es, a_index = header_index ?es\<rparr>) ?r = Some ?e2"
    using authentication_sound [OF ok, of ?r ?e2] h(1,2) by metis
  moreover have "extractEntry (Some \<lparr>a_entries = ?es, a_index = header_index ?es\<rparr>) (auth_request []) = None"
    using authentication_sound [OF ok, of "auth_request []" ?e2] h(3) by blast
  ultimately show ?thesis using ok by blast
qed

text \<open>
  Basic credentials. Entries whose user names have no colon have the same header value only if
  name and password agree, so none shadows another. A user name with a colon is accepted as well, and
  then two different credentials can have one header value: the earlier entry can never be
  authenticated, its user gets the identity of the later one.
\<close>

lemma basic_credentials:
  assumes "CHR '':'' \<notin> set n1" and "CHR '':'' \<notin> set n2" and "i1 \<noteq> i2"
    and "n1 \<noteq> []" and "p1 \<noteq> []" and "x \<noteq> []"
  shows "(headerValue (basic_entry i1 n1 q1) = headerValue (basic_entry i2 n2 q2) \<longleftrightarrow> n1 = n2 \<and> q1 = q2) \<and>
    (\<exists>a. readAuthenticator (Inr [basic_entry i1 n1 (x @ '':'' @ p1), basic_entry i2 (n1 @ '':'' @ x) p1]) = Inr a \<and>
      extractEntry (Some a) (auth_request (headerValue (basic_entry i1 n1 (x @ '':'' @ p1)))) =
        Some (basic_entry i2 (n1 @ '':'' @ x) p1))"
proof (intro conjI exI)
  show "headerValue (basic_entry i1 n1 q1) = headerValue (basic_entry i2 n2 q2) \<longleftrightarrow> n1 = n2 \<and> q1 = q2"
    using colon_split [OF assms(1,2), of q1 q2] by (auto simp: headerValue_basic_entry base64_inject)
next
  let ?e1 = "basic_entry i1 n1 (x @ '':'' @ p1)" and ?e2 = "basic_entry i2 (n1 @ '':'' @ x) p1"
  show "readAuthenticator (Inr [?e1, ?e2]) = Inr \<lparr>a_entries = [?e1, ?e2], a_index = header_index [?e1, ?e2]\<rparr>"
    unfolding readAuthenticator_Inr_iff using assms(3-6)
    by (simp add: validate_basic_entry) (simp add: basic_entry_def)
  have "header_index ([?e1] @ [?e2]) (headerValue ?e1) = Some ?e2"
    unfolding header_index_append by (simp add: headerValue_basic_entry)
  then show "extractEntry (Some \<lparr>a_entries = [?e1, ?e2], a_index = header_index [?e1, ?e2]\<rparr>)
      (auth_request (headerValue ?e1)) = Some ?e2"
    by (simp add: extractEntry_def auth_request_def headerValue_basic_entry)
qed

end
