(* ===== verification/Started.thy ===== *)
theory Started
  imports Duckserver_Db
begin

section \<open>duckserver: waiting for the server to start\<close>

text \<open>
  \<open>WaitServe\<close> and the \<open>BaseContext\<close> function of \<open>Serve\<close> in \<open>duckserver/duckserver.go\<close>: the condition
  variable with which callers wait until the server listens and its URL is known. What happens between
  \<open>Lock\<close> and \<open>Unlock\<close>, or \<open>Wait\<close>, is one step. The lemmas say that a caller returns only when the URL is
  set, and that no wake-up is lost.
\<close>

text \<open>A caller of \<open>WaitServe\<close>: before the lock or woken up, asleep in \<open>Wait\<close>, or returned.\<close>

datatype waiter = Checking | Asleep | Returned_from_wait

record started =
  st_URL :: gostr
  st_waiters :: "nat \<rightharpoonup> waiter"

text \<open>The test of the loop: with an empty URL the caller waits, otherwise it returns.\<close>

definition WaitServe_check :: "started \<Rightarrow> nat \<Rightarrow> started" where
  "WaitServe_check s t =
     s\<lparr>st_waiters := (st_waiters s)(t \<mapsto> (if st_URL s = [] then Asleep else Returned_from_wait))\<rparr>"

text \<open>\<open>BaseContext\<close>: the URL is set and \<open>Broadcast\<close> wakes every caller that is asleep.\<close>

definition serve_BaseContext :: "gostr \<Rightarrow> started \<Rightarrow> started" where
  "serve_BaseContext addr s =
     s\<lparr>st_URL := ''http://'' @ addr,
       st_waiters := (\<lambda>t. map_option (\<lambda>x. if x = Asleep then Checking else x) (st_waiters s t))\<rparr>"

inductive started_step :: "started \<Rightarrow> started \<Rightarrow> bool" where
  call: "st_waiters s t = None \<Longrightarrow> started_step s (s\<lparr>st_waiters := (st_waiters s)(t \<mapsto> Checking)\<rparr>)"
| check: "st_waiters s t = Some Checking \<Longrightarrow> started_step s (WaitServe_check s t)"
| listening: "started_step s (serve_BaseContext addr s)"

definition started_init :: started where
  "started_init = \<lparr>st_URL = [], st_waiters = Map.empty\<rparr>"

definition started_inv :: "started \<Rightarrow> bool" where
  "started_inv s \<longleftrightarrow> (\<forall>t. (st_waiters s t = Some Asleep \<longrightarrow> st_URL s = []) \<and>
     (st_waiters s t = Some Returned_from_wait \<longrightarrow> st_URL s \<noteq> []))"

lemma started_step_inv: "started_step s s' \<Longrightarrow> started_inv s \<Longrightarrow> started_inv s'"
  by (induction rule: started_step.induct)
    (auto simp: started_inv_def WaitServe_check_def serve_BaseContext_def split: if_splits)

lemma started_reachable_inv: "started_step\<^sup>*\<^sup>* started_init s \<Longrightarrow> started_inv s"
proof (induction rule: rtranclp_induct)
  case base
  show ?case by (simp add: started_inv_def started_init_def)
next
  case (step s s')
  then show ?case by (blast intro: started_step_inv)
qed

text \<open>No wake-up is lost: once the URL is set, every caller has returned or returns at its next check.\<close>

lemma wait_returns:
  assumes "started_step\<^sup>*\<^sup>* started_init s" and "st_URL s \<noteq> []" and "st_waiters s t = Some x"
  shows "x = Returned_from_wait \<or>
    x = Checking \<and> st_waiters (WaitServe_check s t) t = Some Returned_from_wait"
  using started_reachable_inv [OF assms(1)] assms(2,3)
  by (cases x) (auto simp: started_inv_def WaitServe_check_def)

text \<open>A caller that has returned finds the URL.\<close>

lemma wait_has_URL:
  "started_step\<^sup>*\<^sup>* started_init s \<Longrightarrow> st_waiters s t = Some Returned_from_wait \<Longrightarrow> st_URL s \<noteq> []"
  using started_reachable_inv by (auto simp: started_inv_def)

end
