(* ===== verification/Testhelpers.thy ===== *)
theory Testhelpers
  imports Formats_Props Duckdbinit
begin

section \<open>internal/assert and internal/formatter/formattertest: the helpers of the tests\<close>

text \<open>
  \<open>internal/assert/assert.go\<close> and \<open>internal/formatter/formattertest/formattertest.go\<close>. A \<open>testing.T\<close> is a
  value that is passed along: what was reported with \<open>Errorf\<close> and \<open>Fatalf\<close>, and the functions given to
  \<open>Cleanup\<close>, which run in the reverse order when the test is over. A helper that calls \<open>Fatalf\<close> does not
  return: its result is \<open>None\<close>. The file system, \<open>cmp.Diff\<close> and the database are parameters.
\<close>

subsection \<open>testing.T\<close>

text \<open>The closures that \<open>ConnectDB\<close> registers, with what they captured.\<close>

datatype cleanup = CloseDB nat | CloseConn nat "gostr option"

record testing_T =
  tt_reports :: "gostr list"
  tt_cleanups :: "cleanup list"

definition new_T :: testing_T where
  "new_T = \<lparr>tt_reports = [], tt_cleanups = []\<rparr>"

definition t_failed :: "testing_T \<Rightarrow> bool" where
  "t_failed t \<longleftrightarrow> tt_reports t \<noteq> []"

definition t_Errorf :: "testing_T \<Rightarrow> gostr \<Rightarrow> testing_T" where
  "t_Errorf t msg = t\<lparr>tt_reports := tt_reports t @ [msg]\<rparr>"

definition t_Fatalf :: "testing_T \<Rightarrow> gostr \<Rightarrow> testing_T \<times> 'a option" where
  "t_Fatalf t msg = (t_Errorf t msg, None)"

definition t_Cleanup :: "testing_T \<Rightarrow> cleanup \<Rightarrow> testing_T" where
  "t_Cleanup t f = t\<lparr>tt_cleanups := f # tt_cleanups t\<rparr>"

lemmas t_defs = t_failed_def t_Errorf_def t_Fatalf_def t_Cleanup_def

subsection \<open>Package assert\<close>

text \<open>\<open>os.Stat\<close>: the mode, or an error and whether \<open>os.IsNotExist\<close> holds of it.\<close>

datatype filemode = RegularFile | Directory | OtherFile

type_synonym stat_result = "(gostr \<times> bool) + filemode"

definition assert_Equal :: "('a \<Rightarrow> 'a \<Rightarrow> gostr) \<Rightarrow> testing_T \<Rightarrow> 'a \<Rightarrow> 'a \<Rightarrow> testing_T \<times> bool" where
  "assert_Equal diff t want got =
     (let d = diff want got in
      if d \<noteq> [] then (t_Errorf t (''assert failed, mismatch: -want +got'' @ [CHR 0x0A] @ d), False)
      else (t, True))"

definition assert_IsRegularFile :: "(gostr \<Rightarrow> stat_result) \<Rightarrow> testing_T \<Rightarrow> gostr \<Rightarrow> testing_T" where
  "assert_IsRegularFile stat t name =
     (case stat name of
        Inl (err, _) \<Rightarrow> t_Errorf t (''failed to stat: '' @ err)
      | Inr fi \<Rightarrow> if fi \<noteq> RegularFile then t_Errorf t (''not regular file: '' @ name) else t)"

definition assert_IsDir :: "(gostr \<Rightarrow> stat_result) \<Rightarrow> testing_T \<Rightarrow> gostr \<Rightarrow> testing_T" where
  "assert_IsDir stat t name =
     (case stat name of
        Inl (err, _) \<Rightarrow> t_Errorf t (''failed to stat: '' @ err)
      | Inr fi \<Rightarrow> if fi \<noteq> Directory then t_Errorf t (''not regular file: '' @ name) else t)"

definition assert_IsNotExist :: "(gostr \<Rightarrow> stat_result) \<Rightarrow> testing_T \<Rightarrow> gostr \<Rightarrow> testing_T" where
  "assert_IsNotExist stat t name =
     (case stat name of
        Inr fi \<Rightarrow> t_Errorf t (''a file exists unexpectedly: '' @ name)
      | Inl (err, notExist) \<Rightarrow>
          if \<not> notExist then t_Errorf t (''unexpected error, want fs.ErrNotExist: got='' @ err) else t)"

text \<open>After an error \<open>ReadFile\<close> goes on and compares with what was read, which is nothing then.\<close>

definition assert_ReadFile ::
  "(gostr \<Rightarrow> gostr \<Rightarrow> gostr) \<Rightarrow> (gostr \<Rightarrow> gostr \<times> gostr option) \<Rightarrow> testing_T \<Rightarrow> gostr \<Rightarrow> gostr \<Rightarrow> testing_T" where
  "assert_ReadFile diff read t name wantContents =
     (let (b, err) = read name;
          t1 = (case err of Some e \<Rightarrow> t_Errorf t (''read file failed: '' @ e) | None \<Rightarrow> t) in
      fst (assert_Equal diff t1 wantContents b))"

subsection \<open>Package formattertest\<close>

text \<open>\<open>Find[T]\<close>: \<open>isT\<close> is the type assertion, and \<open>typename\<close> what \<open>%T\<close> prints.\<close>

definition ft_Find ::
  "(gostr \<Rightarrow> gostr) \<Rightarrow> (gostr \<rightharpoonup> factory) \<Rightarrow> (factory \<Rightarrow> bool) \<Rightarrow> gostr \<Rightarrow> (factory \<Rightarrow> gostr)
   \<Rightarrow> testing_T \<Rightarrow> gostr \<Rightarrow> testing_T \<times> factory option" where
  "ft_Find ul fs isT want typename t name =
     (case Find ul fs name of
        None \<Rightarrow> t_Fatalf t (''not find formatter: '' @ name)
      | Some f \<Rightarrow>
          if \<not> isT f then t_Fatalf t (''unexpected factory: want='' @ want @ '' got='' @ typename f)
          else (t, Some f))"

fun ft_rows_loop ::
  "('fld, 'rec, 'enc, 't, 'w) fmt_api \<Rightarrow> ('enc, 't) fwriter \<Rightarrow> 'w \<Rightarrow> (gostr + goval list) list
   \<Rightarrow> ('enc, 't) fwriter \<times> 'w \<times> write_error option" where
  "ft_rows_loop api fw w [] = fw_Flush api fw w"
| "ft_rows_loop api fw w (row # rest) =
     (case row of
        Inl err \<Rightarrow> (fw, w, Some (WriteFailed err))
      | Inr values \<Rightarrow>
          (case fw_WriteBody api fw w values of
             (fw1, w1, Some err) \<Rightarrow> (fw1, w1, Some err)
           | (fw1, w1, None) \<Rightarrow> ft_rows_loop api fw1 w1 rest))"

definition ft_WriteRows ::
  "('fld, 'rec, 'enc, 't, 'w) fmt_api \<Rightarrow> ('enc, 't) fwriter \<Rightarrow> 'w \<Rightarrow> rows
   \<Rightarrow> ('enc, 't) fwriter \<times> 'w \<times> write_error option" where
  "ft_WriteRows api fw w rows =
     (case rw_types rows of
        Inl err \<Rightarrow> (fw, w, Some (WriteFailed err))
      | Inr columnTypes \<Rightarrow>
          (case fw_WriteHeader api fw w columnTypes of
             (fw1, w1, Some err) \<Rightarrow> (fw1, w1, Some err)
           | (fw1, w1, None) \<Rightarrow> ft_rows_loop api fw1 w1 (rw_rows rows)))"

text \<open>\<open>ConnectDB\<close>. The second closure looks at the variable \<open>err\<close> of the function, which is nil there.\<close>

definition ft_ConnectDB ::
  "'w duck \<Rightarrow> gostr \<Rightarrow> testing_T \<Rightarrow> 'w \<Rightarrow> 'w \<times> testing_T \<times> nat option" where
  "ft_ConnectDB dk tempDir t w =
     (case dk_open dk (dsn tempDir) w of
        (w1, Inl err) \<Rightarrow> (w1, t_Fatalf t (''failed to open DuckDB: '' @ err))
      | (w1, Inr db) \<Rightarrow>
          (let t1 = t_Cleanup t (CloseDB db) in
           case dk_conn dk db w1 of
             (w2, Inl err) \<Rightarrow> (w2, t_Fatalf t1 (''failed to connect DuckDB: '' @ err))
           | (w2, Inr c) \<Rightarrow> (w2, t_Cleanup t1 (CloseConn c None), Some c)))"

fun run_cleanup :: "'w duck \<Rightarrow> cleanup \<Rightarrow> 'w \<times> testing_T \<Rightarrow> 'w \<times> testing_T" where
  "run_cleanup dk (CloseDB db) (w, t) =
     (case dk_db_close dk db w of
        (w1, Some err) \<Rightarrow> (w1, t_Errorf t (''failed to close DuckDB: '' @ err))
      | (w1, None) \<Rightarrow> (w1, t))"
| "run_cleanup dk (CloseConn c err) (w, t) =
     (let w1 = fst (dk_conn_close dk c w) in
      case err of
        Some e \<Rightarrow> (w1, t_Errorf t (''failed to close DuckDB connection: '' @ e))
      | None \<Rightarrow> (w1, t))"

text \<open>The end of a test.\<close>

definition t_finish :: "'w duck \<Rightarrow> 'w \<times> testing_T \<Rightarrow> 'w \<times> testing_T" where
  "t_finish dk wt = (let (w, t) = wt in fold (run_cleanup dk) (tt_cleanups t) (w, t\<lparr>tt_cleanups := []\<rparr>))"

text \<open>\<open>Query\<close> formats into a \<open>bytes.Buffer\<close>: writing to it never fails.\<close>

definition buf_put :: "gostr put" where
  "buf_put b s = (b @ s, length s, None)"

definition ft_Query ::
  "('fld, 'rec, 'enc, 't, gostr) fmt_api \<Rightarrow> (gostr \<Rightarrow> gostr) \<Rightarrow> (gostr \<rightharpoonup> factory) \<Rightarrow> (params \<Rightarrow> gostr)
   \<Rightarrow> ('w \<Rightarrow> 'w \<times> (gostr + rows)) \<Rightarrow> testing_T \<Rightarrow> 'w \<Rightarrow> gostr \<Rightarrow> 'w \<times> testing_T \<times> gostr option" where
  "ft_Query api ul fs show_params queryContext t w format =
     (case queryContext w of
        (w1, Inl err) \<Rightarrow> (w1, t_Fatalf t (''failed to query: '' @ err))
      | (w1, Inr rows) \<Rightarrow>
          (case FindAndCreate ul fs (factory_Create api) format of
             Inl err \<Rightarrow> (w1, t_Fatalf t (format_error_text show_params err))
           | Inr (_, writer) \<Rightarrow>
               (case ft_WriteRows api writer [] rows of
                  (_, bb, Some err) \<Rightarrow> (w1, t_Fatalf t (''failed to write rows: '' @ write_error_text err))
                | (_, bb, None) \<Rightarrow> (w1, t, Some bb))))"

subsection \<open>What the assertions report\<close>

lemma t_Errorf_neq: "t_Errorf t msg \<noteq> t"
proof
  assume "t_Errorf t msg = t"
  then have "tt_reports (t_Errorf t msg) = tt_reports t" by simp
  then show False by (simp add: t_Errorf_def)
qed

lemma assert_Equal_spec:
  assumes "\<And>a b. diff a b = [] \<longleftrightarrow> a = b"
  shows "snd (assert_Equal diff t want got) \<longleftrightarrow> want = got"
    and "fst (assert_Equal diff t want got) = t \<longleftrightarrow> want = got"
  using assms by (auto simp: assert_Equal_def Let_def t_Errorf_neq)

lemma assert_file_kinds:
  "assert_IsRegularFile stat t name = t \<longleftrightarrow> stat name = Inr RegularFile"
  "assert_IsDir stat t name = t \<longleftrightarrow> stat name = Inr Directory"
  "assert_IsNotExist stat t name = t \<longleftrightarrow> (\<exists>err. stat name = Inl (err, True))"
  by (auto simp: assert_IsRegularFile_def assert_IsDir_def assert_IsNotExist_def t_Errorf_neq
      split: sum.splits)

lemma assert_ReadFile_spec:
  assumes "\<And>a b. diff a b = [] \<longleftrightarrow> a = b"
  shows "assert_ReadFile diff read t name want = t \<longleftrightarrow> read name = (want, None)"
proof -
  obtain b err where r: "read name = (b, err)" by fastforce
  have more: "tt_reports (fst (assert_Equal diff t' want b)) \<noteq> tt_reports t" if "tt_reports t' = tt_reports t @ [m]" for t' m
    using that by (auto simp: assert_Equal_def Let_def t_Errorf_def)
  show ?thesis
  proof (cases err)
    case None
    then show ?thesis using r assert_Equal_spec(2) [OF assms, of t want b]
      by (auto simp: assert_ReadFile_def)
  next
    case (Some e)
    then have "tt_reports (assert_ReadFile diff read t name want) \<noteq> tt_reports t"
      using more [of "t_Errorf t (''read file failed: '' @ e)"] r
      by (auto simp: assert_ReadFile_def t_Errorf_def)
    then show ?thesis using r Some by auto
  qed
qed

subsection \<open>The helper writes what the server writes\<close>

lemma ft_rows_loop_eq: "ft_rows_loop api fw w rs = rows_loop api (\<lambda>k. None) j fw w rs"
  by (induction rs arbitrary: fw w j) (auto split: sum.split prod.split option.split)

text \<open>\<open>WriteRows\<close> does what \<open>writeRows\<close> of the server does for a query that is not cancelled.\<close>

lemma ft_writes_as_server: "ft_WriteRows api fw w rows = writeRows api (\<lambda>k. None) fw w rows"
  by (simp add: ft_WriteRows_def writeRows_def ft_rows_loop_eq [where j = 2] split: sum.split prod.split option.split)

text \<open>A \<open>bytes.Buffer\<close> takes everything.\<close>

interpretation buffer: reliable_sink buf_put id "\<lambda>b. True"
  by unfold_locales (simp_all add: buf_put_def)

definition ft_bytes :: "(goval \<Rightarrow> gostr) \<Rightarrow> coltype list \<Rightarrow> goval list list \<Rightarrow> gostr" where
  "ft_bytes sp ts vss = concat (map csv_record
     (map ct_Name ts # map (map2 (cell sp (csv_nullStr (csv_Create Map.empty))) ts) vss))"

text \<open>
  C18. What a test of the formats looks at is what a client gets. For a result with values of the types of
  its columns, \<open>Query\<close> of the test helpers, asked for CSV, does not fail the test, and the buffer it returns
  has exactly the bytes that \<open>writeRows\<close> of the server adds to the response of a living client, and reads
  back as the names of the columns and the text of every value.
\<close>

theorem test_query_is_response:
  assumes "fa_put api = buf_put" and "fa_put server = w_write" and "fa_sprint server = fa_sprint api"
    and "queryContext w = (w1, Inr \<lparr>rw_types = Inr ts, rw_rows = map Inr vss, rw_err = broken\<rparr>)"
    and "ts \<noteq> []" and "list_all (list_all2 csv_value_ok ts) vss" and "streaming resp"
  shows "\<exists>bb fw' resp'.
    ft_Query api ul factories show_params queryContext t w ''csv'' = (w1, t, Some bb) \<and>
    writeRows server (\<lambda>k. None) (CsvWriter (csv_Create Map.empty)) resp
      \<lparr>rw_types = Inr ts, rw_rows = map Inr vss, rw_err = broken\<rparr> = (fw', resp', None) \<and>
    rs_body (w_resp resp') = rs_body (w_resp resp) @ bb \<and>
    parse_csv bb = Some (map ct_Name ts # map (map2 (cell (fa_sprint api) ''NULL'') ts) vss)"
proof -
  let ?rows = "\<lparr>rw_types = Inr ts, rw_rows = map Inr vss, rw_err = broken\<rparr>"
  let ?bytes = "ft_bytes (fa_sprint api) ts vss"
  have null: "param_Get Map.empty ''null'' ''NULL'' = ''NULL''" by (simp add: param_Get_def)
  obtain fw1 bb body where b: "writeRows api (\<lambda>k. None) (CsvWriter (csv_Create Map.empty)) [] ?rows = (fw1, bb, None)"
    "bb = body" "parse_csv body = Some (map ct_Name ts # map (map2 (cell (fa_sprint api) ''NULL'') ts) vss)"
    using buffer.csv_response_complete [OF assms(1) refl TrueI assms(5,6), of Map.empty "[]" broken] unfolding null by auto
  have bytes: "\<exists>fw'. writeRows api (\<lambda>k. None) (CsvWriter (csv_Create Map.empty)) [] ?rows = (fw', ?bytes, None)"
    using buffer.csv_writeRows [OF assms(1) refl TrueI, where rows = ?rows and ts = ts and vss = vss and ps = Map.empty and w = "[]"] assms(6)
    by (auto simp: ft_bytes_def)
  have "\<exists>fw' resp'. writeRows server (\<lambda>k. None) (CsvWriter (csv_Create Map.empty)) resp ?rows = (fw', resp', None) \<and>
      rs_body (w_resp resp') = rs_body (w_resp resp) @ ?bytes"
    using http_reliable.csv_writeRows [OF assms(2) refl assms(7), where rows = ?rows and ts = ts and vss = vss and ps = Map.empty] assms(6)
    by (auto simp: ft_bytes_def assms(3))
  moreover have "bb = ?bytes" using bytes b(1) by auto
  moreover have "ft_Query api ul factories show_params queryContext t w ''csv'' = (w1, t, Some bb)"
    using b(1) by (simp add: ft_Query_def assms(4) FindAndCreate_csv ft_writes_as_server)
  ultimately show ?thesis using b(2,3) by blast
qed

definition demo_buf_api :: "(gostr, unit, nat, unit, gostr) fmt_api" where
  "demo_buf_api = \<lparr>fa_put = buf_put, fa_sprint = fa_sprint demo_fmt_api,
     fa_avro = \<lparr>av_union = (\<lambda>t. None), av_field = (\<lambda>n t. Inr n), av_field_name = id,
       av_record = (\<lambda>n ns fs. Inr ()), av_encoder = (\<lambda>r w. (w, Inr 0)),
       av_encode = (\<lambda>k m w. (w, Suc k, None)), av_close = (\<lambda>k w. (w, k, None))\<rparr>,
     fa_table = \<lparr>tw_new = (\<lambda>s. ()), tw_header = (\<lambda>t ns. t), tw_append = (\<lambda>t vs. (t, None)),
       tw_render = (\<lambda>t w. (t, w, None))\<rparr>\<rparr>"

theorem test_query_is_response_witness:
  "\<exists>bb. ft_Query demo_buf_api id factories (\<lambda>ps. [])
      (\<lambda>w. (w, Inr \<lparr>rw_types = Inr [\<lparr>ct_Name = ''a,b'', ct_DatabaseTypeName = ''VARCHAR''\<rparr>],
        rw_rows = map Inr [[GStr ''x''], [GNil]], rw_err = None\<rparr>)) new_T () ''csv'' = ((), new_T, Some bb) \<and>
    parse_csv bb = Some [[''a,b''], [''x''], [''NULL'']]"
proof -
  let ?ts = "[\<lparr>ct_Name = ''a,b'', ct_DatabaseTypeName = ''VARCHAR''\<rparr>]"
  have api: "fa_put demo_buf_api = buf_put" "fa_put demo_fmt_api = w_write" "fa_sprint demo_fmt_api = fa_sprint demo_buf_api"
    by (simp_all add: demo_buf_api_def demo_fmt_api_def)
  have ok: "?ts \<noteq> []" "list_all (list_all2 csv_value_ok ?ts) [[GStr ''x''], [GNil]]"
    "streaming (w_write_header (Plain new_response) 200)"
    by (simp_all add: streaming_def new_response_def rs_write_header_def informational_def body_allowed_def csv_value_ok_def)
  have c: "cell (fa_sprint demo_buf_api) n \<lparr>ct_Name = ''a,b'', ct_DatabaseTypeName = ''VARCHAR''\<rparr> (GStr s) = s"
    "cell sp n t GNil = n" for sp n t s
    by (simp_all add: cell_def demo_buf_api_def demo_fmt_api_def converter_of_def AnyToStr_def go_sprint_def)
  let ?run = "\<lambda>w :: unit. (w, Inr \<lparr>rw_types = Inr ?ts, rw_rows = map Inr [[GStr ''x''], [GNil]], rw_err = None\<rparr>)"
  have run: "?run () = ((), Inr \<lparr>rw_types = Inr ?ts, rw_rows = map Inr [[GStr ''x''], [GNil]], rw_err = None\<rparr>)" by simp
  show ?thesis
    using test_query_is_response [where queryContext = ?run, OF api(1,2,3) run ok, where ul = id and show_params = "\<lambda>ps. []" and t = new_T]
    by (auto simp: c)
qed

subsection \<open>The database of a test\<close>

lemma ft_ConnectDB_Some:
  assumes "ft_ConnectDB dk dir t w = (w1, t1, Some c)"
  obtains db where "t1 = t\<lparr>tt_cleanups := CloseConn c None # CloseDB db # tt_cleanups t\<rparr>"
  using assms by (auto simp: ft_ConnectDB_def t_Fatalf_def t_Cleanup_def Let_def split: prod.splits sum.splits)

text \<open>At the end of the test the connection is closed, then the database; only an error of the second
  fails the test.\<close>

lemma ft_ConnectDB_finish:
  assumes "ft_ConnectDB dk dir new_T w = (w1, t, Some c)"
  shows "\<exists>db. fst (t_finish dk (w1, t)) = fst (dk_db_close dk db (fst (dk_conn_close dk c w1))) \<and>
    (t_failed (snd (t_finish dk (w1, t))) \<longleftrightarrow> snd (dk_db_close dk db (fst (dk_conn_close dk c w1))) \<noteq> None)"
proof -
  obtain db where t: "t = new_T\<lparr>tt_cleanups := CloseConn c None # CloseDB db # tt_cleanups new_T\<rparr>"
    using assms by (rule ft_ConnectDB_Some)
  show ?thesis
    by (rule exI [of _ db], cases "dk_db_close dk db (fst (dk_conn_close dk c w1))")
      (auto simp: t t_finish_def new_T_def t_defs Let_def split: option.split)
qed

text \<open>An error of the connection's \<open>Close\<close> is not reported.\<close>

lemma ft_close_error_lost:
  "run_cleanup dk (CloseConn c None) (w, t) = (fst (dk_conn_close dk c w), t)"
  by (simp add: Let_def)

end
