(* ===== verification/Spec2Isabelle.thy ===== *)
theory Spec2Isabelle
  imports Duckserver_Fair Duckserver_Mux Formats_Avro Mainprog Conndb_Refine Conndb_Locks_Props
    Syncmap_Locks_Props Querydb_Props Interval_Props Avrofmt_Props Authn_Props Csvfmt_Props
    Fileserver_Props Accesslog Started Testhelpers
begin

text \<open>
  A verification development for Duckpop, an HTTP server in front of DuckDB.

  \<^bold>\<open>The program.\<close> Duckpop answers \<open>GET\<close> and \<open>POST\<close> on \<open>/\<close> with the result of a query. Every TCP connection has
  an in-memory database of its own, opened when its first query arrives and closed when the connection
  is; a limit bounds how many are open. Running queries are listed under \<open>/status/queries/\<close> and can be
  interrupted there; a directory is shared over HTTP under \<open>/shared/\<close>; a file of credentials can restrict
  who runs queries; results are written as CSV, Avro or tables. \<open>main.go\<close> reads the flags,
  \<open>duckserver/duckserver.go\<close> ties the parts under \<open>internal/\<close> together.

  \<^bold>\<open>Foundations.\<close> \<open>Prelude\<close> names the machine types and the collections of definitions. \<open>Gostd\<close> has what the
  program uses of \<open>strings\<close>, \<open>strconv\<close> and \<open>fmt\<close> on byte strings, \<open>Goflag\<close> the package \<open>flag\<close>, \<open>Gohttp\<close> paths
  and the replies of \<open>net/http\<close>. A Go \<open>string\<close> is a list of bytes, a machine integer a word or an integer
  with its bounds written out, an error a value of a sum or option type; a panic is a value too.

  \<^bold>\<open>The components,\<close> each with its state, its operations and its lemmas:
  \<^item> \<open>Syncmap\<close>: \<open>internal/syncmap/syncmap.go\<close>, a map behind a lock, with every method as one step. It is an
    instance of the locale \<open>kv_map\<close>, whose laws carry the proofs about the tables of connections.
    \<open>Syncmap_Locks\<close> has the methods as statements between the operations of a \<open>sync.RWMutex\<close>, run by any
    number of goroutines; \<open>Syncmap_Locks_Props\<close> shows that these executions are those of single steps.
  \<^item> \<open>Ids\<close>: the printed form of identifiers, and the loop that draws one until it is free. The locales
    \<open>tagged_id\<close> and \<open>id_alloc\<close> are interpreted for connections and for queries.
  \<^item> \<open>Conndb\<close>, \<open>Conndb_Steps\<close>, \<open>Conndb_Props\<close>, \<open>Conndb_Refine\<close>: \<open>internal/conndb/conndb.go\<close>. The record
    \<open>manager\<close> is \<open>Manager\<close>, with clients as pointers into a heap, because a handler keeps its client while
    the connection is closed. The steps of \<open>cm_step\<close> are the atomic sections: accepting, \<open>Client.Conn\<close>, a
    change of state, and the goroutine that closes in two halves, as the source has it: the counter is taken
    down under the mutex of the manager, and the database is closed after that mutex was released. The predicate \<open>may\<close> says which clients handlers use: any one
    (HTTP/2 and late handlers) or those of open connections (HTTP/1). \<open>Conndb_Refine\<close> is the abstract
    specification, a bounded pool, and the simulation. \<open>Conndb_Locks\<close> and \<open>Conndb_Locks_Props\<close> run \<open>Conn\<close> and
    \<open>close\<close> statement by statement under the mutexes of the clients and of the manager.
  \<^item> \<open>Querydb\<close>, \<open>Querydb_Props\<close>: \<open>internal/querydb/querydb.go\<close>, the running queries with their cancellable
    contexts; \<open>ParseID\<close>; the listing as an invariant of a step relation.
  \<^item> \<open>Writer\<close>, \<open>Httperror\<close>, \<open>Accesslog\<close>: the response writer of \<open>net/http\<close> and the wrapping one of
    \<open>internal/accesslog/accesslog.go\<close>, both instances of the locale \<open>resp_writer\<close>; the errors of
    \<open>internal/httperror/httperror.go\<close>; the log record of a request.
  \<^item> \<open>Authn\<close>, \<open>Authn_Props\<close>: \<open>internal/authn/authn.go\<close>, the credential file and the header values.
  \<^item> \<open>Duckdbinit\<close>: \<open>internal/duckdbinit/duckdbinit.go\<close>, the statements a new database is given.
  \<^item> \<open>Formatter\<close>, \<open>Interval_Props\<close>, \<open>Format_Registry\<close>, \<open>Csvfmt\<close>, \<open>Csvfmt_Props\<close>, \<open>Avrofmt\<close>, \<open>Avrofmt_Props\<close>,
    \<open>Formats\<close>, \<open>Formats_Props\<close>, \<open>Formats_Avro\<close>: \<open>internal/formatter\<close> with its formats, and \<open>writeRows\<close>. The locale
    \<open>formatter_writer\<close> is the contract of \<open>formatter.Writer\<close>, interpreted for CSV and Avro; \<open>byte_sink\<close> and
    \<open>reliable_sink\<close> are what a writer needs of the response.
  \<^item> \<open>Fileserver\<close>, \<open>Fileserver_Props\<close>: \<open>internal/fileserver\<close>; the locale \<open>slice_sort\<close> is the contract of
    \<open>sort.Slice\<close>, which leaves the order of equal elements open.
  \<^item> \<open>Duckserver_Db\<close>: configuration, \<open>New\<close>, opening and closing the database of a connection. The locale
    \<open>db_provider\<close> of \<open>Conndb_Props\<close> is what the manager asks of its opener and closer; \<open>fresh_duck\<close> is what
    these need of \<open>database/sql\<close>, and gives \<open>db_provider\<close>.
  \<^item> \<open>Duckserver\<close>, \<open>Duckserver_Routes\<close>: the handlers, \<open>http.ServeMux\<close> on the patterns, and the middleware;
    \<open>Duckserver_Mux\<close>: the patterns against the precedence rules of \<open>net/http\<close>.
  \<^item> \<open>Duckserver_Props\<close>, \<open>Duckserver_Answers\<close>, \<open>Duckserver_Query\<close>, \<open>Duckserver_Conns\<close>, \<open>Duckserver_Control\<close>:
    properties that span components, from a request to the reply.
  \<^item> \<open>Duckserver_Steps\<close>, \<open>Duckserver_Steps_Props\<close>: query requests that are admitted in one step and then
    run in steps, interleaved with one another, with interrupts and with connections that come and go; a
    \<open>Conn\<close> that comes after its connection was closed is a step of \<open>Conndb_Steps\<close> only. \<open>Duckserver_Fair\<close>
    has the schedules under which every handler returns.
  \<^item> \<open>Testhelpers\<close>: \<open>internal/assert\<close> and \<open>internal/formatter/formattertest\<close>, the helpers of the tests.
  \<^item> \<open>Mainprog\<close>: the command line, \<open>setupAccessLogger\<close> and \<open>Serve\<close>; \<open>Started\<close>: \<open>WaitServe\<close>, a condition
    variable on which no wake-up is lost.

  \<^bold>\<open>What is shown.\<close> Of the connections: the counter is the number of open databases that no goroutine is
  closing, and within the limit, so that what exceeds the limit is being closed; the manager refines the
  pool, whose slots are given back before the databases are gone; under HTTP/1 no database leaks; connections share neither a database nor a
  private directory, and where access from outside is off the directories each may use are listed; the limit is answered with 429. Of a database: it is told its directories and
  initialisation queries before the two statements that lock it; a failing \<open>Open\<close> leaves nothing open. Of queries: an allowed
  query in CSV is answered in full, whatever bytes its values have; a query is unregistered however its
  handler ends; interrupting cancels exactly the query named, and then it writes at most the header or the row
  for which it had already looked at its context. Of
  access: no request without a credential runs or interrupts a query or changes a file; a header is
  accepted exactly if it is in the file, and as the last entry that has it; no path leads out of the shared directory; requests go to the most
  specific pattern, and the patterns do not conflict. Of formats: intervals can be read back, large integers keep their
  value, the Avro encoder is given what the rows say, without a panic. Of what runs at the same time: the map
  is linearizable and its callers always return; so do \<open>Conn\<close> and \<open>close\<close> under their mutexes; the databases
  and the listing stay as they should in every interleaving; and every handler returns under a fair
  schedule. Of the program: flags
  give every configuration; files that were opened are closed in order.

  The development also shows where the code does not do what it means to: a handler that outlives its
  connection opens a database nobody closes; the deferred close of a query can remove another one that
  drew the same identifier; errors of the last two switches are dropped; the initialisation query of a
  credential is never run; a body above the limit and an error in the middle of a result look like
  success; the access log can have a status nobody was sent; redirects in the shared directory go wrong;
  columns of the same name lose all values but the last in Avro;
  a database that is being closed no longer counts, so that more than the limit can be open; and a client
  that reads the list of connections slowly can block everybody else.

  \<^bold>\<open>Bounds.\<close> No definition of the code runs on fuel; \<open>dl_alone\<close> and \<open>handler_steps\<close>, which take a number of
  steps, serve to state theorems, and these say which number is enough or that there is one. The loop that draws identifiers recurses over the list of draws that
  are looked at and has no result when they run out; \<open>accept_returns\<close> says that one free draw suffices.
  Contexts are asked a finite number of times, once per row. Go's \<open>int\<close> counters stay far below their
  width: the counter of databases is bounded by the limit, the size in the log by what was sent.

  \<^bold>\<open>Parameters.\<close> DuckDB behind \<open>database/sql\<close>, the operating system, the Avro and table libraries, WebDAV, the
  HTML template, JSON and \<open>slog\<close>, the listener and its shutdown are functions that the definitions take.

  \<^bold>\<open>Not modelled.\<close> Debug messages and \<open>dbToStr\<close>, which only they use; the text of the JSON replies; the
  profiler's handlers; \<open>internal/formatter/_template\<close>, a text with placeholders that is not Go code.
\<close>

end
